theory Spec2Isabelle
  imports
    Complex_Main
    "HOL-Library.Monad_Syntax"
    "HOL-Library.Product_Lexorder"
begin

section \<open>Values of a data frame\<close>

text \<open>
  The program keeps its series in pandas data frames whose numeric columns hold
  IEEE doubles. A cell is modelled as an exact real number or one of the three
  special values; rounding and overflow of finite results are not modelled, the
  behaviour of NaN and of the infinities in comparisons and arithmetic is.
  Signed zeros are not distinguished: every zero is \<open>+0.0\<close>, which is what
  \<open>x - x\<close> and a sum of non-negative numbers produce.
\<close>

datatype cell = Num real | PosInf | NegInf | NaN

text \<open>Comparisons of doubles: every comparison with NaN is false.\<close>

fun flt :: "cell \<Rightarrow> cell \<Rightarrow> bool" where
  "flt NaN _ = False"
| "flt _ NaN = False"
| "flt (Num a) (Num b) = (a < b)"
| "flt _ NegInf = False"
| "flt NegInf _ = True"
| "flt PosInf _ = False"
| "flt _ PosInf = True"

definition fgt :: "cell \<Rightarrow> cell \<Rightarrow> bool" where
  "fgt a b = flt b a"

fun fle :: "cell \<Rightarrow> cell \<Rightarrow> bool" where
  "fle NaN _ = False"
| "fle _ NaN = False"
| "fle (Num a) (Num b) = (a \<le> b)"
| "fle NegInf _ = True"
| "fle _ PosInf = True"
| "fle _ NegInf = False"
| "fle PosInf _ = False"

definition fge :: "cell \<Rightarrow> cell \<Rightarrow> bool" where
  "fge a b = fle b a"

fun feq :: "cell \<Rightarrow> cell \<Rightarrow> bool" where
  "feq (Num a) (Num b) = (a = b)"
| "feq PosInf PosInf = True"
| "feq NegInf NegInf = True"
| "feq _ _ = False"

fun is_finite :: "cell \<Rightarrow> bool" where
  "is_finite (Num a) = True"
| "is_finite _ = False"

text \<open>\<open>pd.isna\<close>: only NaN is missing; an infinity is a value.\<close>

fun isna :: "cell \<Rightarrow> bool" where
  "isna NaN = True"
| "isna _ = False"

section \<open>Frames with named columns\<close>

text \<open>
  The indicator and signal engines address the frame by column name. A frame is
  the list of its columns in order; reading a column that does not exist raises
  \<open>KeyError\<close>, reading a position out of range raises \<open>IndexError\<close>. A read that
  raises is \<open>None\<close>.
\<close>

type_synonym column = "cell list"
type_synonym frame = "(string \<times> column) list"

definition getcol :: "frame \<Rightarrow> string \<Rightarrow> column option" where
  "getcol df name = map_of df name"

text \<open>\<open>name in df.columns\<close>, for frames of any kind of cell.\<close>

definition has_col :: "(string \<times> 'a) list \<Rightarrow> string \<Rightarrow> bool" where
  "has_col df name = (name \<in> set (map fst df))"

text \<open>\<open>df[name] = values\<close>: the column is replaced where it stands, or appended.\<close>

definition set_col :: "string \<Rightarrow> 'a \<Rightarrow> (string \<times> 'a) list \<Rightarrow> (string \<times> 'a) list" where
  "set_col name vs df =
     (if has_col df name then map (\<lambda>(n, c). if n = name then (n, vs) else (n, c)) df
      else df @ [(name, vs)])"

definition nrows :: "frame \<Rightarrow> nat" where
  "nrows df = (case df of [] \<Rightarrow> 0 | (_, c) # _ \<Rightarrow> length c)"

text \<open>A well-formed frame has at least one column and \<open>n\<close> cells in every column.\<close>

definition frame_rows :: "frame \<Rightarrow> nat \<Rightarrow> bool" where
  "frame_rows df n = (df \<noteq> [] \<and> list_all (\<lambda>(name, c). length c = n) df)"

text \<open>\<open>Series.iloc[i]\<close>: a negative position counts from the end.\<close>

definition iloc :: "'a list \<Rightarrow> int \<Rightarrow> 'a option" where
  "iloc xs i =
     (if 0 \<le> i \<and> i < int (length xs) then Some (xs ! nat i)
      else if i < 0 \<and> - int (length xs) \<le> i then Some (xs ! nat (int (length xs) + i))
      else None)"

text \<open>\<open>df.tail(n)\<close>: the last \<open>n\<close> rows of every column.\<close>

definition tail :: "nat \<Rightarrow> frame \<Rightarrow> frame" where
  "tail n df = map (\<lambda>(name, c). (name, drop (length c - n) c)) df"

section \<open>The signal engine\<close>

text \<open>
  \<open>ComprehensiveTechnicalAnalysis\<close> keeps two lists on the instance, created
  empty by \<open>__init__\<close> and appended to by the analysis methods.
\<close>

record analysis =
  signals :: "string list"
  summary_points :: "string list"

definition init :: analysis where
  "init = \<lparr>signals = [], summary_points = []\<rparr>"

definition add_signal :: "string \<Rightarrow> analysis \<Rightarrow> analysis" where
  "add_signal s st = st\<lparr>signals := signals st @ [s]\<rparr>"

definition add_point :: "string \<Rightarrow> analysis \<Rightarrow> analysis" where
  "add_point s st = st\<lparr>summary_points := summary_points st @ [s]\<rparr>"

subsection \<open>Golden Cross and Death Cross\<close>

text \<open>
  \<open>_cross_analysis\<close>: the crossover test on the last two rows of the last ten,
  then the alignment of the moving averages on the last row.
\<close>

definition cross_signals :: "frame \<Rightarrow> analysis \<Rightarrow> analysis option" where
  "cross_signals df st =
     (let recent_data = tail 10 df in
      if 1 < nrows recent_data then do {
        sma_50 \<leftarrow> getcol recent_data ''SMA_50'';
        prev_50 \<leftarrow> iloc sma_50 (- 2);
        sma_200 \<leftarrow> getcol recent_data ''SMA_200'';
        prev_200 \<leftarrow> iloc sma_200 (- 2);
        curr_50 \<leftarrow> iloc sma_50 (- 1);
        curr_200 \<leftarrow> iloc sma_200 (- 1);
        let prev_50_above_200 = fgt prev_50 prev_200;
            curr_50_above_200 = fgt curr_50 curr_200
        in Some
          (if \<not> prev_50_above_200 \<and> curr_50_above_200 then
             add_point ''Golden Cross bullish signal''
               (add_signal ''BUY - Golden Cross detected'' st)
           else if prev_50_above_200 \<and> \<not> curr_50_above_200 then
             add_point ''Death Cross bearish signal''
               (add_signal ''SELL - Death Cross detected'' st)
           else st)
      } else Some st)"

definition ma_alignment :: "frame \<Rightarrow> analysis \<Rightarrow> analysis option" where
  "ma_alignment df st = do {
     closes \<leftarrow> getcol df ''Close'';
     current_close \<leftarrow> iloc closes (- 1);
     sma_20 \<leftarrow> getcol df ''SMA_20'';
     current_sma_20 \<leftarrow> iloc sma_20 (- 1);
     sma_50 \<leftarrow> getcol df ''SMA_50'';
     current_sma_50 \<leftarrow> iloc sma_50 (- 1);
     sma_200 \<leftarrow> getcol df ''SMA_200'';
     current_sma_200 \<leftarrow> iloc sma_200 (- 1);
     Some
       (if fgt current_close current_sma_20 \<and> fgt current_sma_20 current_sma_50
           \<and> fgt current_sma_50 current_sma_200 then
          add_point ''Perfect bullish MA alignment'' st
        else if flt current_close current_sma_20 \<and> flt current_sma_20 current_sma_50
           \<and> flt current_sma_50 current_sma_200 then
          add_point ''Perfect bearish MA alignment'' st
        else st)
   }"

definition cross_analysis :: "frame \<Rightarrow> analysis \<Rightarrow> analysis option" where
  "cross_analysis df st = do {
     st1 \<leftarrow> cross_signals df st;
     ma_alignment df st1
   }"

subsection \<open>The composite recommendation\<close>

definition startswith :: "string \<Rightarrow> string \<Rightarrow> bool" where
  "startswith s p = (take (length p) s = p)"

definition buy_signals :: "string list \<Rightarrow> string list" where
  "buy_signals sigs = filter (\<lambda>s. startswith s ''BUY'') sigs"

definition sell_signals :: "string list \<Rightarrow> string list" where
  "sell_signals sigs = filter (\<lambda>s. startswith s ''SELL'') sigs"

text \<open>The vote of \<open>_signals_and_summary\<close> over the accumulated signals.\<close>

definition overall_signal :: "string list \<Rightarrow> string" where
  "overall_signal sigs =
     (if length (buy_signals sigs) > length (sell_signals sigs) then ''BUY''
      else if length (sell_signals sigs) > length (buy_signals sigs) then ''SELL''
      else ''NEUTRAL'')"

section \<open>The validator and cleaner\<close>

text \<open>
  \<open>DataProcessor._final_data_cleaning\<close> works on the six required columns of
  the frame it is given. A row of these columns is a record; before missing
  values are dropped a date may be \<open>NaT\<close> and a number may be NaN or infinite,
  afterwards every field holds a value. A calendar date is the triple of year,
  month and day, ordered lexicographically.
\<close>

type_synonym date = "nat \<times> nat \<times> nat"

record ('d, 'v) row =
  Date :: 'd
  Open :: 'v
  High :: 'v
  Low :: 'v
  Close :: 'v
  Volume :: 'v

type_synonym raw_row = "(date option, cell) row"
type_synonym bar = "(date, real) row"

text \<open>
  The frame handed to the cleaner: the names of its columns and its rows. The
  field of a row whose column is absent is never read, because the cleaner
  raises before.
\<close>

record raw_frame =
  columns :: "string list"
  rows :: "raw_row list"

datatype py_error = ValueError string

definition required_columns :: "string list" where
  "required_columns = [''Date'', ''Open'', ''High'', ''Low'', ''Close'', ''Volume'']"

text \<open>The text Python prints for a list of strings, as in the f-string of the error.\<close>

fun join :: "string \<Rightarrow> string list \<Rightarrow> string" where
  "join sep [] = []"
| "join sep [x] = x"
| "join sep (x # y # ys) = x @ sep @ join sep (y # ys)"

definition repr_list :: "string list \<Rightarrow> string" where
  "repr_list xs = ''['' @ join '', '' (map (\<lambda>x. [CHR 0x27] @ x @ [CHR 0x27]) xs) @ '']''"

subsection \<open>Infinite values, missing values\<close>

text \<open>\<open>df.replace([np.inf, -np.inf], np.nan)\<close> on one cell and on a row.\<close>

fun replace_inf :: "cell \<Rightarrow> cell" where
  "replace_inf PosInf = NaN"
| "replace_inf NegInf = NaN"
| "replace_inf c = c"

definition replace_inf_row :: "raw_row \<Rightarrow> raw_row" where
  "replace_inf_row r =
     r\<lparr>Open := replace_inf (Open r), High := replace_inf (High r),
       Low := replace_inf (Low r), Close := replace_inf (Close r),
       Volume := replace_inf (Volume r)\<rparr>"

text \<open>
  The columns reach the cleaner as datetime and float columns (both format
  normalizers coerce them), so \<open>pd.to_datetime\<close> and \<open>pd.to_numeric\<close> with
  \<open>errors='coerce'\<close> leave every cell as it is. \<open>dropna\<close> keeps the rows whose
  six fields are all present; the infinities are gone by then.
\<close>

fun num_of :: "cell \<Rightarrow> real option" where
  "num_of (Num x) = Some x"
| "num_of _ = None"

definition dropna_row :: "raw_row \<Rightarrow> bar option" where
  "dropna_row r = do {
     d \<leftarrow> Date r;
     op \<leftarrow> num_of (Open r);
     hi \<leftarrow> num_of (High r);
     lo \<leftarrow> num_of (Low r);
     cl \<leftarrow> num_of (Close r);
     vol \<leftarrow> num_of (Volume r);
     Some \<lparr>Date = d, Open = op, High = hi, Low = lo, Close = cl, Volume = vol\<rparr>
   }"

definition dropna :: "raw_row list \<Rightarrow> bar list" where
  "dropna rs = List.map_filter dropna_row rs"

subsection \<open>Price relationships\<close>

definition invalid_mask :: "bar \<Rightarrow> bool" where
  "invalid_mask r =
     (High r < Low r \<or> High r < Open r \<or> High r < Close r
      \<or> Low r > Open r \<or> Low r > Close r
      \<or> Open r \<le> 0 \<or> High r \<le> 0 \<or> Low r \<le> 0 \<or> Close r \<le> 0
      \<or> Volume r < 0)"

definition drop_invalid :: "bar list \<Rightarrow> bar list" where
  "drop_invalid df =
     (let invalid_count = length (filter invalid_mask df)
      in if invalid_count > 0 then filter (\<lambda>r. \<not> invalid_mask r) df else df)"

subsection \<open>Sorting by date\<close>

text \<open>
  \<open>df.sort_values('Date')\<close>. The sort pandas uses by default, the quicksort of
  numpy, sorts up to 16 rows by insertion, which is stable, and is not stable on
  more rows, so the order it gives to rows of the same date is then not
  determined; the model takes the stable order. Statements that depend on the
  order of the rows are made for series whose dates are distinct, or for two
  rows.
\<close>

definition sort_values_Date :: "bar list \<Rightarrow> bar list" where
  "sort_values_Date df = sort_key Date df"

subsection \<open>Capping extreme values\<close>

text \<open>
  \<open>Series.quantile(p / 100)\<close> with linear interpolation: the value at the
  position \<open>(n - 1) * p / 100\<close> of the sorted column, interpolated between its two
  neighbours. \<open>interp s h\<close> reads the sorted values \<open>s\<close> at the position
  \<open>h / 100\<close>. On an empty column the quantile is NaN, here \<open>None\<close>.
\<close>

definition interp :: "real list \<Rightarrow> nat \<Rightarrow> real" where
  "interp s h =
     (let i = h div 100; g = real (h mod 100) / 100
      in if i + 1 < length s then s ! i + (s ! (i + 1) - s ! i) * g else s ! i)"

definition quantile :: "nat \<Rightarrow> real list \<Rightarrow> real option" where
  "quantile p xs =
     (if xs = [] then None else Some (interp (sort xs) (p * (length xs - 1))))"

text \<open>
  The thresholds \<open>q1 * 0.01\<close> and \<open>q99 * 100\<close> are products of doubles, and the
  product of two doubles is their exact product rounded to a double. Which cells
  lie beyond a threshold depends on that rounding, so the multiplication of the
  machine is a parameter of the capping loop, \<open>mul\<close>: \<open>mul q1 0.01\<close> is the
  double the code obtains for \<open>q1 * 0.01\<close>. Nothing is assumed of \<open>mul\<close> here.
  The percentiles themselves are the exact interpolated values.

  \<open>exact_mul\<close> is the product without rounding. A multiplication
  \<open>rounds_closely\<close> when its product of two non-negative numbers is within a
  thousandth of the exact product; the product of two doubles is within one
  part in \<open>2 ^ 53\<close> of it, unless it overflows or underflows.
\<close>

definition exact_mul :: "real \<Rightarrow> real \<Rightarrow> real" where
  "exact_mul a b = a * b"

definition rounds_closely :: "(real \<Rightarrow> real \<Rightarrow> real) \<Rightarrow> bool" where
  "rounds_closely mul =
     (\<forall>a b. 0 \<le> a \<and> 0 \<le> b \<longrightarrow>
        a * b * (999 / 1000) \<le> mul a b \<and> mul a b \<le> a * b * (1001 / 1000))"

text \<open>
  The body of the loop over the numeric columns, on the values of one column.
  With NaN quantiles every comparison is false and nothing is replaced. The
  second assignment reads the column after the first.
\<close>

definition cap_values :: "(real \<Rightarrow> real \<Rightarrow> real) \<Rightarrow> real list \<Rightarrow> real list" where
  "cap_values mul xs =
     (case (quantile 1 xs, quantile 99 xs) of
        (Some q1, Some q99) \<Rightarrow>
          let extreme_count = length (filter (\<lambda>v. v < mul q1 0.01 \<or> v > mul q99 100) xs)
          in if extreme_count > 0 then
               map (\<lambda>v. if v > mul q99 100 then q99 else v)
                 (map (\<lambda>v. if v < mul q1 0.01 then q1 else v) xs)
             else xs
      | _ \<Rightarrow> xs)"

text \<open>
  The capping of a column as the specification words it, for comparison: with
  \<open>q1\<close> and \<open>q99\<close> the two percentiles of the column, a value below the
  computed \<open>q1 * 0.01\<close> becomes \<open>q1\<close> and a value above the computed
  \<open>q99 * 100\<close> becomes \<open>q99\<close>.
\<close>

definition capped_column :: "(real \<Rightarrow> real \<Rightarrow> real) \<Rightarrow> real list \<Rightarrow> real list" where
  "capped_column mul xs =
     (case (quantile 1 xs, quantile 99 xs) of
        (Some q1, Some q99) \<Rightarrow>
          map (\<lambda>v. if v < mul q1 0.01 then q1 else if v > mul q99 100 then q99 else v) xs
      | _ \<Rightarrow> xs)"

definition cap_Open :: "(real \<Rightarrow> real \<Rightarrow> real) \<Rightarrow> bar list \<Rightarrow> bar list" where
  "cap_Open mul df = map2 (\<lambda>v r. r\<lparr>Open := v\<rparr>) (cap_values mul (map Open df)) df"

definition cap_High :: "(real \<Rightarrow> real \<Rightarrow> real) \<Rightarrow> bar list \<Rightarrow> bar list" where
  "cap_High mul df = map2 (\<lambda>v r. r\<lparr>High := v\<rparr>) (cap_values mul (map High df)) df"

definition cap_Low :: "(real \<Rightarrow> real \<Rightarrow> real) \<Rightarrow> bar list \<Rightarrow> bar list" where
  "cap_Low mul df = map2 (\<lambda>v r. r\<lparr>Low := v\<rparr>) (cap_values mul (map Low df)) df"

definition cap_Close :: "(real \<Rightarrow> real \<Rightarrow> real) \<Rightarrow> bar list \<Rightarrow> bar list" where
  "cap_Close mul df = map2 (\<lambda>v r. r\<lparr>Close := v\<rparr>) (cap_values mul (map Close df)) df"

definition cap_Volume :: "(real \<Rightarrow> real \<Rightarrow> real) \<Rightarrow> bar list \<Rightarrow> bar list" where
  "cap_Volume mul df = map2 (\<lambda>v r. r\<lparr>Volume := v\<rparr>) (cap_values mul (map Volume df)) df"

text \<open>The loop \<open>for col in numeric_cols\<close>, in the order of the list.\<close>

definition cap_extremes :: "(real \<Rightarrow> real \<Rightarrow> real) \<Rightarrow> bar list \<Rightarrow> bar list" where
  "cap_extremes mul df =
     cap_Volume mul (cap_Close mul (cap_Low mul (cap_High mul (cap_Open mul df))))"

subsection \<open>The cleaner and its caller\<close>

text \<open>
  The rows that remain when missing values and invalid price relationships have
  been dropped, and the same rows after the sort, before the capping loop.
\<close>

definition surviving_rows :: "raw_frame \<Rightarrow> bar list" where
  "surviving_rows df = drop_invalid (dropna (map replace_inf_row (rows df)))"

definition sorted_valid_rows :: "raw_frame \<Rightarrow> bar list" where
  "sorted_valid_rows df = sort_values_Date (surviving_rows df)"

definition final_data_cleaning ::
  "(real \<Rightarrow> real \<Rightarrow> real) \<Rightarrow> raw_frame \<Rightarrow> py_error + bar list" where
  "final_data_cleaning mul df =
     (let missing = filter (\<lambda>col. col \<notin> set (columns df)) required_columns
      in if missing \<noteq> [] then
           Inl (ValueError (''Missing required columns after processing: '' @ repr_list missing))
         else Inr (cap_extremes mul (sorted_valid_rows df)))"

text \<open>
  The cleaned frame seen as a frame again: the six required columns, every cell
  present.
\<close>

definition as_frame :: "bar list \<Rightarrow> raw_frame" where
  "as_frame df =
     \<lparr>columns = required_columns,
      rows = map (\<lambda>r. \<lparr>Date = Some (Date r), Open = Num (Open r), High = Num (High r),
                       Low = Num (Low r), Close = Num (Close r), Volume = Num (Volume r)\<rparr>) df\<rparr>"

text \<open>
  \<open>process_uploaded_data\<close> from the point where the format normalizer has
  returned: the cleaner runs, an empty frame is an error, and the \<open>except\<close>
  clause raises the error again after reporting it, so the caller receives it.
\<close>

definition process_uploaded_data ::
  "(real \<Rightarrow> real \<Rightarrow> real) \<Rightarrow> raw_frame \<Rightarrow> py_error + bar list" where
  "process_uploaded_data mul normalized =
     (case final_data_cleaning mul normalized of
        Inl e \<Rightarrow> Inl e
      | Inr df \<Rightarrow>
          if df = [] then Inl (ValueError ''No valid data remaining after processing'')
          else Inr df)"

section \<open>The Indian-format normalizer\<close>

text \<open>
  The frame that \<open>pd.read_csv\<close> returns holds text where a field was quoted or
  carries separators, and numbers or NaN where the reader could parse the
  field; after normalization it holds numbers and timestamps.
\<close>

datatype csv_cell = Str string | Val cell | Stamp date | NaT

type_synonym csv_frame = "(string \<times> csv_cell list) list"

text \<open>
  What the normalizer takes from Python and pandas without fixing it here: the
  text of a cell that is not a string; \<open>pd.to_numeric(..., errors='coerce')\<close>
  on one text, which gives the number read or NaN; and \<open>pd.to_datetime\<close> on a
  column of texts, with \<open>format='%d-%b-%Y'\<close>, with \<open>dayfirst=True\<close> and with
  \<open>infer_datetime_format=True\<close> (\<open>None\<close> when the call raises).
\<close>

record py_env =
  repr :: "csv_cell \<Rightarrow> string"
  to_numeric :: "string \<Rightarrow> cell"
  to_datetime_format :: "string list \<Rightarrow> csv_cell list option"
  to_datetime_dayfirst :: "string list \<Rightarrow> csv_cell list option"
  to_datetime_infer :: "string list \<Rightarrow> csv_cell list option"

subsection \<open>String methods\<close>

definition dquote :: char where
  "dquote = CHR 0x22"

text \<open>\<open>s.replace(c, '')\<close> for a single character \<open>c\<close>.\<close>

definition str_remove :: "char \<Rightarrow> string \<Rightarrow> string" where
  "str_remove c s = filter (\<lambda>x. x \<noteq> c) s"

text \<open>
  \<open>s.strip()\<close> removes the characters for which \<open>str.isspace\<close> holds from both
  ends. A character here is a code point below 256; these are the ones that are
  spaces for Python.
\<close>

definition is_space :: "char \<Rightarrow> bool" where
  "is_space c =
     (c \<in> set [CHR '' '', CHR 0x09, CHR 0x0A, CHR 0x0B, CHR 0x0C, CHR 0x0D,
                 CHR 0x1C, CHR 0x1D, CHR 0x1E, CHR 0x1F, CHR 0x85, CHR 0xA0])"

definition strip :: "string \<Rightarrow> string" where
  "strip s = rev (dropWhile is_space (rev (dropWhile is_space s)))"

text \<open>\<open>astype(str)\<close>: a string stays, any other cell becomes its text.\<close>

definition astype_str :: "py_env \<Rightarrow> csv_cell \<Rightarrow> string" where
  "astype_str env c = (case c of Str s \<Rightarrow> s | _ \<Rightarrow> repr env c)"

text \<open>The cleanup of the header: \<open>strip\<close>, then the quotes and the spaces removed.\<close>

definition clean_column_name :: "string \<Rightarrow> string" where
  "clean_column_name name = str_remove CHR '' '' (str_remove dquote (strip name))"

definition clean_columns :: "csv_frame \<Rightarrow> csv_frame" where
  "clean_columns df = map (\<lambda>(name, c). (clean_column_name name, c)) df"

subsection \<open>Texts that pandas is assumed to read\<close>

text \<open>
  Of the two library parsers only this much is assumed, and only where a
  statement says so. \<open>pd.to_numeric\<close> reads a short plain decimal as its value:
  an optional sign, digits, and an optional point with digits, at least one
  digit and at most 15 characters in all. What it makes of any other text is
  left open.
\<close>

definition digit :: "char \<Rightarrow> nat option" where
  "digit c =
     map_of [(CHR ''0'', 0), (CHR ''1'', 1), (CHR ''2'', 2), (CHR ''3'', 3), (CHR ''4'', 4),
             (CHR ''5'', 5), (CHR ''6'', 6), (CHR ''7'', 7), (CHR ''8'', 8), (CHR ''9'', 9)] c"

definition digits :: "string \<Rightarrow> nat option" where
  "digits s = map_option (foldl (\<lambda>a d. 10 * a + d) 0) (those (map digit s))"

definition unsigned_decimal :: "string \<Rightarrow> real option" where
  "unsigned_decimal s =
     (let ip = takeWhile (\<lambda>c. c \<noteq> CHR ''.'') s;
          fp = drop 1 (dropWhile (\<lambda>c. c \<noteq> CHR ''.'') s)
      in if ip = [] \<and> fp = [] then None
         else do {
           a \<leftarrow> digits ip;
           b \<leftarrow> digits fp;
           Some (real a + real b / 10 ^ length fp)
         })"

definition plain_decimal :: "string \<Rightarrow> real option" where
  "plain_decimal s =
     (if 15 < length s then None
      else case s of
        c # r \<Rightarrow>
          if c = CHR ''-'' then map_option uminus (unsigned_decimal r)
          else if c = CHR ''+'' then unsigned_decimal r
          else unsigned_decimal s
      | [] \<Rightarrow> None)"

definition reads_plain_decimals :: "py_env \<Rightarrow> bool" where
  "reads_plain_decimals env = (\<forall>s x. plain_decimal s = Some x \<longrightarrow> to_numeric env s = Num x)"

text \<open>
  \<open>pd.to_datetime(..., format='%d-%b-%Y')\<close> reads a column in which every text
  is a date of the form day-month-year as those dates: one or two digits of the
  day, the abbreviated English month name in any case, four digits of the year
  between 1678 and 2261, joined by hyphens, with a day that exists in the
  month. What it makes of a column with any other text is left open.
\<close>

fun split_on :: "char \<Rightarrow> string \<Rightarrow> string list" where
  "split_on c [] = [[]]"
| "split_on c (x # xs) =
     (if x = c then [] # split_on c xs
      else (x # hd (split_on c xs)) # tl (split_on c xs))"

definition lower_char :: "char \<Rightarrow> char" where
  "lower_char c =
     (case map_of (zip ''ABCDEFGHIJKLMNOPQRSTUVWXYZ'' ''abcdefghijklmnopqrstuvwxyz'') c of
        Some l \<Rightarrow> l | None \<Rightarrow> c)"

definition month_abbr :: "string \<Rightarrow> nat option" where
  "month_abbr s =
     map_of [(''jan'', 1), (''feb'', 2), (''mar'', 3), (''apr'', 4), (''may'', 5), (''jun'', 6),
             (''jul'', 7), (''aug'', 8), (''sep'', 9), (''oct'', 10), (''nov'', 11), (''dec'', 12)]
       (map lower_char s)"

definition is_leap :: "nat \<Rightarrow> bool" where
  "is_leap y = (y mod 4 = 0 \<and> (y mod 100 \<noteq> 0 \<or> y mod 400 = 0))"

definition days_in_month :: "nat \<Rightarrow> nat \<Rightarrow> nat" where
  "days_in_month y m =
     (if m = 2 then (if is_leap y then 29 else 28)
      else if m \<in> set [4, 6, 9, 11] then 30 else 31)"

definition day_month_year :: "string \<Rightarrow> date option" where
  "day_month_year s =
     (case split_on CHR ''-'' s of
        [ds, bs, ys] \<Rightarrow>
          if length ds \<in> set [1, 2] \<and> length ys = 4 then do {
            d \<leftarrow> digits ds;
            m \<leftarrow> month_abbr bs;
            y \<leftarrow> digits ys;
            if 1 \<le> d \<and> d \<le> days_in_month y m \<and> 1678 \<le> y \<and> y \<le> 2261 then Some (y, m, d)
            else None
          } else None
      | _ \<Rightarrow> None)"

definition reads_day_month_year :: "py_env \<Rightarrow> bool" where
  "reads_day_month_year env =
     (\<forall>texts ds. those (map day_month_year texts) = Some ds \<longrightarrow>
        to_datetime_format env texts = Some (map Stamp ds))"

subsection \<open>Columns of a frame\<close>

text \<open>
  \<open>df[name]\<close> is a series when exactly one column has the name. With two columns
  of the same name it is a frame, on which the string methods and the coercions
  used here raise.
\<close>

definition get_series :: "csv_frame \<Rightarrow> string \<Rightarrow> csv_cell list option" where
  "get_series df name =
     (case filter (\<lambda>(n, c). n = name) df of [(n, c)] \<Rightarrow> Some c | _ \<Rightarrow> None)"

text \<open>\<open>df.rename(columns=mapping)\<close>.\<close>

definition rename_columns :: "(string \<times> string) list \<Rightarrow> csv_frame \<Rightarrow> csv_frame" where
  "rename_columns mapping df =
     map (\<lambda>(n, c). (case map_of mapping n of Some v \<Rightarrow> v | None \<Rightarrow> n, c)) df"

subsection \<open>\<open>DataProcessor._process_indian_format\<close>\<close>

definition column_mapping :: "(string \<times> string) list" where
  "column_mapping =
     [(''Date'', ''Date''), (''OPEN'', ''Open''), (''HIGH'', ''High''), (''LOW'', ''Low''),
      (''close'', ''Close''), (''VOLUME'', ''Volume''), (''PREVCLOSE'', ''PrevClose''),
      (''ltp'', ''LTP'')]"

definition required_cols :: "string list" where
  "required_cols = [''Date'', ''OPEN'', ''HIGH'', ''LOW'', ''close'', ''VOLUME'']"

definition alt_mapping :: "(string \<times> string) list" where
  "alt_mapping =
     [(''Open'', ''OPEN''), (''High'', ''HIGH''), (''Low'', ''LOW''), (''Close'', ''close''),
      (''Volume'', ''VOLUME'')]"

text \<open>The loop over \<open>alt_mapping\<close>, run when a required column is missing.\<close>

fun add_alternatives :: "(string \<times> string) list \<Rightarrow> csv_frame \<Rightarrow> csv_frame option" where
  "add_alternatives [] df = Some df"
| "add_alternatives ((standard, alt) # rest) df =
     (if has_col df standard \<and> \<not> has_col df alt then do {
        c \<leftarrow> get_series df standard;
        add_alternatives rest (set_col alt c df)
      } else add_alternatives rest df)"

text \<open>
  One cell of a numeric column: the text of the cell, the quotes and the commas
  removed, the blanks at both ends stripped, then the coercion.
\<close>

definition clean_numeric_cell :: "py_env \<Rightarrow> csv_cell \<Rightarrow> csv_cell" where
  "clean_numeric_cell env c =
     Val (to_numeric env
            (strip (str_remove CHR '','' (str_remove dquote (astype_str env c)))))"

fun clean_numeric_columns :: "py_env \<Rightarrow> string list \<Rightarrow> csv_frame \<Rightarrow> csv_frame option" where
  "clean_numeric_columns env [] df = Some df"
| "clean_numeric_columns env (col # rest) df =
     (if has_col df col then do {
        s \<leftarrow> get_series df col;
        clean_numeric_columns env rest (set_col col (map (clean_numeric_cell env) s) df)
      } else clean_numeric_columns env rest df)"

definition clean_date_text :: "py_env \<Rightarrow> csv_cell \<Rightarrow> string" where
  "clean_date_text env c = strip (str_remove dquote (astype_str env c))"

text \<open>The nested \<open>try\<close> blocks: the fixed format first, then the two guessing parsers.\<close>

definition parse_dates_indian :: "py_env \<Rightarrow> string list \<Rightarrow> csv_cell list option" where
  "parse_dates_indian env texts =
     (case to_datetime_format env texts of
        Some ds \<Rightarrow> Some ds
      | None \<Rightarrow>
          (case to_datetime_dayfirst env texts of
             Some ds \<Rightarrow> Some ds
           | None \<Rightarrow> to_datetime_infer env texts))"

definition process_indian_format :: "py_env \<Rightarrow> csv_frame \<Rightarrow> csv_frame option" where
  "process_indian_format env df = do {
     let missing_cols = filter (\<lambda>col. \<not> has_col df col) required_cols;
     df1 \<leftarrow> (if missing_cols \<noteq> [] then add_alternatives alt_mapping df else Some df);
     let df2 = rename_columns column_mapping df1;
     df3 \<leftarrow> clean_numeric_columns env [''Open'', ''High'', ''Low'', ''Close'', ''Volume''] df2;
     if has_col df3 ''Date'' then do {
       s \<leftarrow> get_series df3 ''Date'';
       ds \<leftarrow> parse_dates_indian env (map (clean_date_text env) s);
       Some (set_col ''Date'' ds df3)
     } else Some df3
   }"

subsection \<open>\<open>IndianDataLoader.load_indian_csv\<close>\<close>

text \<open>
  The second reader of the Indian format, from the frame \<open>pd.read_csv\<close>
  returned. Rows are selected and reordered by their positions.
\<close>

definition loader_mapping :: "(string \<times> string) list" where
  "loader_mapping =
     [(''Date'', ''Date''), (''OPEN'', ''Open''), (''HIGH'', ''High''), (''LOW'', ''Low''),
      (''close'', ''Close''), (''VOLUME'', ''Volume'')]"

definition csv_rows :: "csv_frame \<Rightarrow> nat" where
  "csv_rows df = (case df of [] \<Rightarrow> 0 | (_, c) # _ \<Rightarrow> length c)"

definition take_rows :: "nat list \<Rightarrow> csv_frame \<Rightarrow> csv_frame" where
  "take_rows idx df = map (\<lambda>(name, c). (name, map (\<lambda>i. c ! i) idx)) df"

text \<open>
  The \<open>.str\<close> accessor exists on a column of texts only: a column the reader
  parsed as numbers raises. Missing cells of a text column stay missing.
\<close>

definition is_text :: "csv_cell \<Rightarrow> bool" where
  "is_text c = (case c of Str _ \<Rightarrow> True | _ \<Rightarrow> False)"

definition str_accessor :: "(string \<Rightarrow> string) \<Rightarrow> csv_cell list \<Rightarrow> csv_cell list option" where
  "str_accessor f s =
     (if s = [] \<or> list_ex is_text s
      then Some (map (\<lambda>c. case c of Str t \<Rightarrow> Str (f t) | _ \<Rightarrow> c) s)
      else None)"

text \<open>The text \<open>pd.to_datetime\<close> sees in a cell: a missing cell reads as missing.\<close>

definition date_text :: "csv_cell \<Rightarrow> string" where
  "date_text c = (case c of Str t \<Rightarrow> t | _ \<Rightarrow> ''nan'')"

definition parse_dates_loader :: "py_env \<Rightarrow> string list \<Rightarrow> csv_cell list option" where
  "parse_dates_loader env texts =
     (case to_datetime_format env texts of
        Some ds \<Rightarrow> Some ds
      | None \<Rightarrow> to_datetime_infer env texts)"

text \<open>One cell of a numeric column in the loader: quotes and commas removed, then coerced.\<close>

definition loader_numeric_cell :: "py_env \<Rightarrow> csv_cell \<Rightarrow> csv_cell" where
  "loader_numeric_cell env c =
     Val (to_numeric env (str_remove CHR '','' (str_remove dquote (astype_str env c))))"

fun loader_numeric_columns :: "py_env \<Rightarrow> string list \<Rightarrow> csv_frame \<Rightarrow> csv_frame option" where
  "loader_numeric_columns env [] df = Some df"
| "loader_numeric_columns env (col # rest) df =
     (if has_col df col then do {
        s \<leftarrow> get_series df col;
        loader_numeric_columns env rest (set_col col (map (loader_numeric_cell env) s) df)
      } else loader_numeric_columns env rest df)"

text \<open>\<open>sort_values('Date')\<close> on timestamps: \<open>NaT\<close> goes last.\<close>

definition date_key :: "csv_cell \<Rightarrow> nat \<times> date" where
  "date_key c = (case c of Stamp d \<Rightarrow> (0, d) | _ \<Rightarrow> (1, (0, 0, 0)))"

definition sort_by_date :: "csv_frame \<Rightarrow> csv_frame option" where
  "sort_by_date df = do {
     dates \<leftarrow> get_series df ''Date'';
     Some (take_rows (sort_key (\<lambda>i. date_key (dates ! i)) [0..<length dates]) df)
   }"

definition is_null :: "csv_cell \<Rightarrow> bool" where
  "is_null c = (case c of Val NaN \<Rightarrow> True | NaT \<Rightarrow> True | _ \<Rightarrow> False)"

text \<open>\<open>df.dropna(subset=names)\<close> and \<open>df.dropna()\<close>.\<close>

definition dropna_subset :: "string list \<Rightarrow> csv_frame \<Rightarrow> csv_frame option" where
  "dropna_subset names df = do {
     cols \<leftarrow> those (map (get_series df) names);
     Some (take_rows (filter (\<lambda>i. \<forall>c\<in>set cols. \<not> is_null (c ! i)) [0..<csv_rows df]) df)
   }"

definition dropna_all :: "csv_frame \<Rightarrow> csv_frame" where
  "dropna_all df =
     take_rows (filter (\<lambda>i. \<forall>c\<in>set (map snd df). \<not> is_null (c ! i)) [0..<csv_rows df]) df"

definition replace_inf_csv :: "csv_frame \<Rightarrow> csv_frame" where
  "replace_inf_csv df =
     map (\<lambda>(name, c). (name, map (\<lambda>x. case x of Val v \<Rightarrow> Val (replace_inf v) | _ \<Rightarrow> x) c)) df"

definition select_columns :: "string list \<Rightarrow> csv_frame \<Rightarrow> csv_frame option" where
  "select_columns names df =
     map_option (zip names) (those (map (get_series df) names))"

text \<open>
  The end of the body of \<open>load_indian_csv\<close>, from the sort on: the rows in
  order of date, the rows with a missing or an infinite value dropped, an
  error when no row is left, and the six columns selected.
\<close>

definition sort_and_select :: "csv_frame \<Rightarrow> csv_frame option" where
  "sort_and_select df3 = do {
     df4 \<leftarrow> sort_by_date df3;
     df5 \<leftarrow> dropna_subset [''Date'', ''Open'', ''High'', ''Low'', ''Close'', ''Volume''] df4;
     let df6 = dropna_all (replace_inf_csv df5);
     if csv_rows df6 = 0 then None
     else select_columns [''Date'', ''Open'', ''High'', ''Low'', ''Close'', ''Volume''] df6
   }"

text \<open>
  The body of \<open>load_indian_csv\<close>, from the frame \<open>pd.read_csv\<close> returned. Every
  exception, the two \<open>ValueError\<close>s it raises itself included, leaves the method
  as an \<open>Exception\<close>: \<open>None\<close>.
\<close>

definition load_indian_csv_body :: "py_env \<Rightarrow> csv_frame \<Rightarrow> csv_frame option" where
  "load_indian_csv_body env raw = do {
     let df = clean_columns raw;
     let missing_columns = filter (\<lambda>col. \<not> has_col df col) (map fst loader_mapping);
     if missing_columns \<noteq> [] then None else do {
       let df1 = rename_columns loader_mapping df;
       dates \<leftarrow> get_series df1 ''Date'';
       cleaned \<leftarrow> str_accessor (\<lambda>t. strip (str_remove dquote t)) dates;
       parsed \<leftarrow> parse_dates_loader env (map date_text cleaned);
       let df2 = set_col ''Date'' parsed df1;
       df3 \<leftarrow> loader_numeric_columns env [''Open'', ''High'', ''Low'', ''Close'', ''Volume''] df2;
       sort_and_select df3
     }
   }"

text \<open>
  The method is decorated with \<open>st.cache_data\<close>: the decorator keeps a table
  from keys to pickled results, the key of a call being a hash of the
  uploaded file (the parameter \<open>key\<close>). On a hit the body does not run and the stored
  frame is returned. On a miss the body runs, with \<open>pd.read_csv\<close> (the
  parameter \<open>read_csv\<close>, \<open>None\<close> when it raises) as its first step, and a
  frame it returns is stored under the key.
\<close>

definition load_indian_csv ::
  "py_env \<Rightarrow> ('f \<Rightarrow> csv_frame option) \<Rightarrow> ('f \<Rightarrow> 'k) \<Rightarrow> ('k \<times> csv_frame) list \<Rightarrow> 'f
     \<Rightarrow> ('k \<times> csv_frame) list \<times> csv_frame option" where
  "load_indian_csv env read_csv key cache uploaded_file =
     (case map_of cache (key uploaded_file) of
        Some stored \<Rightarrow> (cache, Some stored)
      | None \<Rightarrow>
          (case read_csv uploaded_file \<bind> load_indian_csv_body env of
             Some df \<Rightarrow> ((key uploaded_file, df) # cache, Some df)
           | None \<Rightarrow> (cache, None)))"

subsection \<open>The normalization as the specification words it\<close>

text \<open>
  For comparison with the two readers: the frame in which the column \<open>Date\<close>
  holds the parsed dates, every cell of each of the five numeric columns is the
  cleaned and coerced cell, and every other column is as it was.
\<close>

definition numeric_names :: "string list" where
  "numeric_names = [''Open'', ''High'', ''Low'', ''Close'', ''Volume'']"

definition normalized_columns ::
  "(csv_cell \<Rightarrow> csv_cell) \<Rightarrow> csv_cell list \<Rightarrow> csv_frame \<Rightarrow> csv_frame" where
  "normalized_columns clean ds df =
     map (\<lambda>(n, c). (n, if n = ''Date'' then ds
                       else if n \<in> set numeric_names then map clean c else c)) df"

subsection \<open>A stand-in of the library for examples\<close>

text \<open>
  It reads the texts that pandas is assumed to read, as assumed, and nothing
  else: any other text is NaN for it, any other column of dates makes it raise,
  and a cell that is not a text has the empty text. It serves to run the
  readers on the row of the scenario; it is not what pandas does on other
  input.
\<close>

definition example_env :: py_env where
  "example_env =
     \<lparr>repr = (\<lambda>c. []),
      to_numeric = (\<lambda>s. case plain_decimal s of Some x \<Rightarrow> Num x | None \<Rightarrow> NaN),
      to_datetime_format = (\<lambda>texts. map_option (map Stamp) (those (map day_month_year texts))),
      to_datetime_dayfirst = (\<lambda>texts. None),
      to_datetime_infer = (\<lambda>texts. None)\<rparr>"

section \<open>The indicator engine\<close>

subsection \<open>Arithmetic of doubles\<close>

text \<open>
  Finite results are exact; the special values follow IEEE 754. Division of
  numpy doubles by zero does not raise: it gives an infinity, or NaN for
  \<open>0 / 0\<close>.
\<close>

fun fneg :: "cell \<Rightarrow> cell" where
  "fneg (Num a) = Num (- a)"
| "fneg PosInf = NegInf"
| "fneg NegInf = PosInf"
| "fneg NaN = NaN"

fun fadd :: "cell \<Rightarrow> cell \<Rightarrow> cell" where
  "fadd NaN _ = NaN"
| "fadd _ NaN = NaN"
| "fadd (Num a) (Num b) = Num (a + b)"
| "fadd PosInf NegInf = NaN"
| "fadd NegInf PosInf = NaN"
| "fadd PosInf _ = PosInf"
| "fadd _ PosInf = PosInf"
| "fadd NegInf _ = NegInf"
| "fadd _ NegInf = NegInf"

definition fsub :: "cell \<Rightarrow> cell \<Rightarrow> cell" where
  "fsub a b = fadd a (fneg b)"

text \<open>The infinity of the sign of \<open>a\<close>, for \<open>a\<close> not zero.\<close>

definition inf_of_sign :: "real \<Rightarrow> cell" where
  "inf_of_sign a = (if 0 < a then PosInf else NegInf)"

fun fmul :: "cell \<Rightarrow> cell \<Rightarrow> cell" where
  "fmul NaN _ = NaN"
| "fmul _ NaN = NaN"
| "fmul (Num a) (Num b) = Num (a * b)"
| "fmul (Num a) PosInf = (if a = 0 then NaN else inf_of_sign a)"
| "fmul (Num a) NegInf = (if a = 0 then NaN else inf_of_sign (- a))"
| "fmul PosInf (Num b) = (if b = 0 then NaN else inf_of_sign b)"
| "fmul NegInf (Num b) = (if b = 0 then NaN else inf_of_sign (- b))"
| "fmul PosInf PosInf = PosInf"
| "fmul NegInf NegInf = PosInf"
| "fmul PosInf NegInf = NegInf"
| "fmul NegInf PosInf = NegInf"

fun fdiv :: "cell \<Rightarrow> cell \<Rightarrow> cell" where
  "fdiv NaN _ = NaN"
| "fdiv _ NaN = NaN"
| "fdiv (Num a) (Num b) =
     (if b \<noteq> 0 then Num (a / b) else if a = 0 then NaN else inf_of_sign a)"
| "fdiv (Num a) _ = Num 0"
| "fdiv PosInf (Num b) = (if 0 \<le> b then PosInf else NegInf)"
| "fdiv NegInf (Num b) = (if 0 \<le> b then NegInf else PosInf)"
| "fdiv _ _ = NaN"

subsection \<open>Column operations of pandas\<close>

text \<open>Arithmetic of two series of the same index, and of a series and a number.\<close>

definition col_add :: "column \<Rightarrow> column \<Rightarrow> column" where
  "col_add xs ys = map2 fadd xs ys"

definition col_sub :: "column \<Rightarrow> column \<Rightarrow> column" where
  "col_sub xs ys = map2 fsub xs ys"

definition col_mul :: "column \<Rightarrow> column \<Rightarrow> column" where
  "col_mul xs ys = map2 fmul xs ys"

definition col_div :: "column \<Rightarrow> column \<Rightarrow> column" where
  "col_div xs ys = map2 fdiv xs ys"

definition col_scale :: "column \<Rightarrow> real \<Rightarrow> column" where
  "col_scale xs k = map (\<lambda>x. fmul x (Num k)) xs"

definition col_over :: "column \<Rightarrow> real \<Rightarrow> column" where
  "col_over xs k = map (\<lambda>x. fdiv x (Num k)) xs"

text \<open>
  \<open>Series.rolling(window=w)\<close>: the window that ends at row \<open>i\<close> holds the rows
  \<open>i - w + 1\<close> to \<open>i\<close>. pandas turns the infinities of the column into NaN
  before it aggregates, and with the default \<open>min_periods = w\<close> the result is
  NaN while the window is shorter than \<open>w\<close> and whenever it holds a NaN: the
  aggregate is taken only of windows of \<open>w\<close> finite values.
\<close>

definition window_at :: "nat \<Rightarrow> nat \<Rightarrow> column \<Rightarrow> column" where
  "window_at w i xs = take w (drop (i + 1 - w) xs)"

definition rolling :: "nat \<Rightarrow> (column \<Rightarrow> cell) \<Rightarrow> column \<Rightarrow> column" where
  "rolling w agg xs =
     map (\<lambda>i. if i + 1 < w \<or> list_ex (\<lambda>x. \<not> is_finite x) (window_at w i xs) then NaN
               else agg (window_at w i xs))
       [0..<length xs]"

definition fmin :: "cell \<Rightarrow> cell \<Rightarrow> cell" where
  "fmin a b = (if flt b a then b else a)"

definition fmax :: "cell \<Rightarrow> cell \<Rightarrow> cell" where
  "fmax a b = (if flt a b then b else a)"

text \<open>Aggregates of a window of values. On no values the aggregate is NaN.\<close>

definition agg_min :: "column \<Rightarrow> cell" where
  "agg_min xs = (case xs of [] \<Rightarrow> NaN | x # r \<Rightarrow> foldl fmin x r)"

definition agg_max :: "column \<Rightarrow> cell" where
  "agg_max xs = (case xs of [] \<Rightarrow> NaN | x # r \<Rightarrow> foldl fmax x r)"

text \<open>
  The mean of a window is its sum over its length. pandas keeps a running sum
  instead, which gives the same on finite values.
\<close>

definition agg_mean :: "column \<Rightarrow> cell" where
  "agg_mean xs =
     (case xs of [] \<Rightarrow> NaN | x # r \<Rightarrow> fdiv (foldl fadd x r) (Num (real (length xs))))"

text \<open>\<open>Series.max()\<close> and \<open>Series.min()\<close> skip NaN.\<close>

definition series_max :: "column \<Rightarrow> cell" where
  "series_max xs = agg_max (filter (\<lambda>x. \<not> isna x) xs)"

definition series_min :: "column \<Rightarrow> cell" where
  "series_min xs = agg_min (filter (\<lambda>x. \<not> isna x) xs)"

text \<open>\<open>Series.cumsum()\<close>: a NaN stays NaN and is left out of the running sum.\<close>

fun cumsum_from :: "cell \<Rightarrow> column \<Rightarrow> column" where
  "cumsum_from acc [] = []"
| "cumsum_from acc (x # xs) =
     (if isna x then NaN # cumsum_from acc xs
      else fadd acc x # cumsum_from (fadd acc x) xs)"

definition cumsum :: "column \<Rightarrow> column" where
  "cumsum xs = cumsum_from (Num 0) xs"

subsection \<open>The indicators of the \<open>ta\<close> library\<close>

text \<open>
  The library is not part of the program. Its indicators are taken as they
  come: functions from the columns they are given to a column, or to \<open>None\<close>
  when they raise. The windows the program passes are arguments where the
  program names them.
\<close>

record ta_lib =
  sma_indicator :: "nat \<Rightarrow> column \<Rightarrow> column option"
  ema_indicator :: "nat \<Rightarrow> column \<Rightarrow> column option"
  rsi :: "nat \<Rightarrow> column \<Rightarrow> column option"
  macd :: "column \<Rightarrow> column option"
  macd_signal :: "column \<Rightarrow> column option"
  macd_diff :: "column \<Rightarrow> column option"
  bollinger_hband :: "column \<Rightarrow> column option"
  bollinger_mavg :: "column \<Rightarrow> column option"
  bollinger_lband :: "column \<Rightarrow> column option"
  average_true_range :: "column \<Rightarrow> column \<Rightarrow> column \<Rightarrow> column option"
  on_balance_volume :: "column \<Rightarrow> column \<Rightarrow> column option"
  stoch :: "column \<Rightarrow> column \<Rightarrow> column \<Rightarrow> column option"
  stoch_signal :: "column \<Rightarrow> column \<Rightarrow> column \<Rightarrow> column option"

subsection \<open>The stochastic oscillator and VWAP of the program\<close>

text \<open>
  \<open>((Close - Low.rolling(14).min()) / (High.rolling(14).max() -
  Low.rolling(14).min())) * 100\<close>, on the three columns.
\<close>

definition stoch_k :: "column \<Rightarrow> column \<Rightarrow> column \<Rightarrow> column" where
  "stoch_k close high low =
     col_scale
       (col_div (col_sub close (rolling 14 agg_min low))
                (col_sub (rolling 14 agg_max high) (rolling 14 agg_min low)))
       100"

text \<open>
  \<open>(Volume * (High + Low + Close) / 3).cumsum() / Volume.cumsum()\<close>.
\<close>

definition vwap :: "column \<Rightarrow> column \<Rightarrow> column \<Rightarrow> column \<Rightarrow> column" where
  "vwap volume high low close =
     col_div (cumsum (col_over (col_mul volume (col_add (col_add high low) close)) 3))
             (cumsum volume)"

subsection \<open>\<open>ComprehensiveTechnicalAnalysis._calculate_all_indicators\<close>\<close>

text \<open>
  A statement \<open>df_calc[name] = value\<close> of the \<open>try\<close> block: the value is
  computed from the input frame \<open>df\<close> and the working frame \<open>df_calc\<close>, and the
  working frame with the new column is the result. \<open>None\<close> is an exception.
\<close>

type_synonym statement = "frame \<Rightarrow> frame \<Rightarrow> frame option"

definition assign :: "string \<Rightarrow> (frame \<Rightarrow> frame \<Rightarrow> column option) \<Rightarrow> statement" where
  "assign name rhs df df_calc = map_option (\<lambda>v. set_col name v df_calc) (rhs df df_calc)"

definition on_close :: "(column \<Rightarrow> column option) \<Rightarrow> frame \<Rightarrow> frame \<Rightarrow> column option" where
  "on_close f df df_calc = getcol df_calc ''Close'' \<bind> f"

definition indicator_statements :: "ta_lib \<Rightarrow> statement list" where
  "indicator_statements lib =
     [assign ''SMA_20'' (on_close (sma_indicator lib 20)),
      assign ''SMA_50'' (on_close (sma_indicator lib 50)),
      assign ''SMA_200'' (on_close (sma_indicator lib 200)),
      assign ''EMA_20'' (on_close (ema_indicator lib 20)),
      assign ''RSI'' (on_close (rsi lib 14)),
      assign ''MACD'' (on_close (macd lib)),
      assign ''MACD_Signal'' (on_close (macd_signal lib)),
      assign ''MACD_Histogram'' (on_close (macd_diff lib)),
      assign ''Stoch_K'' (\<lambda>df df_calc. do {
        close \<leftarrow> getcol df_calc ''Close'';
        low \<leftarrow> getcol df_calc ''Low'';
        high \<leftarrow> getcol df_calc ''High'';
        Some (stoch_k close high low)
      }),
      assign ''Stoch_D'' (\<lambda>df df_calc. do {
        close \<leftarrow> getcol df_calc ''Close'';
        low \<leftarrow> getcol df_calc ''Low'';
        high \<leftarrow> getcol df_calc ''High'';
        Some (rolling 3 agg_mean (stoch_k close high low))
      }),
      assign ''BB_Upper'' (on_close (bollinger_hband lib)),
      assign ''BB_Middle'' (on_close (bollinger_mavg lib)),
      assign ''BB_Lower'' (on_close (bollinger_lband lib)),
      assign ''ATR'' (\<lambda>df df_calc. do {
        high \<leftarrow> getcol df_calc ''High'';
        low \<leftarrow> getcol df_calc ''Low'';
        close \<leftarrow> getcol df_calc ''Close'';
        average_true_range lib high low close
      }),
      assign ''OBV'' (\<lambda>df df_calc. do {
        close \<leftarrow> getcol df_calc ''Close'';
        volume \<leftarrow> getcol df_calc ''Volume'';
        on_balance_volume lib close volume
      }),
      assign ''VWAP'' (\<lambda>df df_calc.
        if has_col df ''vwap'' then getcol df ''vwap''
        else do {
          volume \<leftarrow> getcol df_calc ''Volume'';
          high \<leftarrow> getcol df_calc ''High'';
          low \<leftarrow> getcol df_calc ''Low'';
          close \<leftarrow> getcol df_calc ''Close'';
          Some (vwap volume high low close)
        })]"



text \<open>
  The frames of the program live in a store and are known by their position in
  it. \<open>df.copy()\<close> puts a new frame of the same content at the end of the
  store. Running the statements writes each result to the working frame; at the
  first exception the run stops, with the store as it is then, and reports
  \<open>False\<close>.
\<close>

type_synonym store = "frame list"

fun run_statements :: "nat \<Rightarrow> nat \<Rightarrow> statement list \<Rightarrow> store \<Rightarrow> store \<times> bool" where
  "run_statements df df_calc [] s = (s, True)"
| "run_statements df df_calc (f # fs) s =
     (case f (s ! df) (s ! df_calc) of
        None \<Rightarrow> (s, False)
      | Some v \<Rightarrow> run_statements df df_calc fs (s[df_calc := v]))"

text \<open>
  \<open>_calculate_all_indicators\<close>: the store after the call and the position of
  the frame it returns, which is the copy, or the input itself when the
  \<open>except\<close> clause was taken.
\<close>

definition calculate_all_indicators :: "ta_lib \<Rightarrow> store \<Rightarrow> nat \<Rightarrow> store \<times> nat" where
  "calculate_all_indicators lib s df =
     (let df_calc = length s;
          (s', completed) = run_statements df df_calc (indicator_statements lib) (s @ [s ! df])
      in (s', if completed then df_calc else df))"

subsection \<open>\<open>TechnicalAnalysis.calculate_indicators\<close> and its caller\<close>

text \<open>
  The body of \<open>calculate_indicators\<close> writes the columns into the frame it is
  given and returns that frame; there is no \<open>try\<close>, so an exception ends the
  call. Its statements read and write the one frame, which stands here for both
  \<open>df\<close> and \<open>df_calc\<close>.
\<close>

definition on_HLC ::
  "(column \<Rightarrow> column \<Rightarrow> column \<Rightarrow> column option) \<Rightarrow> frame \<Rightarrow> frame \<Rightarrow> column option" where
  "on_HLC f df df_calc = do {
     high \<leftarrow> getcol df_calc ''High'';
     low \<leftarrow> getcol df_calc ''Low'';
     close \<leftarrow> getcol df_calc ''Close'';
     f high low close
   }"

definition ta_statements :: "ta_lib \<Rightarrow> statement list" where
  "ta_statements lib =
     [assign ''SMA_20'' (on_close (sma_indicator lib 20)),
      assign ''SMA_50'' (on_close (sma_indicator lib 50)),
      assign ''EMA_12'' (on_close (ema_indicator lib 12)),
      assign ''EMA_26'' (on_close (ema_indicator lib 26)),
      assign ''RSI'' (on_close (rsi lib 14)),
      assign ''MACD'' (on_close (macd lib)),
      assign ''MACD_signal'' (on_close (macd_signal lib)),
      assign ''MACD_histogram'' (on_close (macd_diff lib)),
      assign ''BB_upper'' (on_close (bollinger_hband lib)),
      assign ''BB_middle'' (on_close (bollinger_mavg lib)),
      assign ''BB_lower'' (on_close (bollinger_lband lib)),
      assign ''Volume_SMA''
        (\<lambda>df df_calc. map_option (rolling 20 agg_mean) (getcol df_calc ''Volume'')),
      assign ''Stoch_K'' (on_HLC (stoch lib)),
      assign ''Stoch_D'' (on_HLC (stoch_signal lib))]"


text \<open>
  The method is decorated with \<open>st.cache_data\<close>. The decorator keeps, for the
  function, a table from keys to pickled results. The key of a call is a hash
  of the frame passed (\<open>_self\<close> is left out of it), taken before the body runs;
  the hash is a parameter, \<open>key\<close>. On a hit the body does not run: the frame
  passed stays as it is and the stored result is unpickled, which gives a new
  frame. On a miss the body runs on the frame passed, the frame it returns is
  pickled into the table under the key, and the call returns that same frame.
  An exception of the body leaves the table as it is.
\<close>

type_synonym 'k cache = "('k \<times> frame) list"

definition calculate_indicators ::
  "ta_lib \<Rightarrow> (frame \<Rightarrow> 'k) \<Rightarrow> 'k cache \<Rightarrow> store \<Rightarrow> nat \<Rightarrow> 'k cache \<times> store \<times> nat option" where
  "calculate_indicators lib key cache s df =
     (case map_of cache (key (s ! df)) of
        Some cached \<Rightarrow> (cache, s @ [cached], Some (length s))
      | None \<Rightarrow>
          let (s', completed) = run_statements df df (ta_statements lib) s
          in if completed then ((key (s ! df), s' ! df) # cache, s', Some df)
             else (cache, s', None))"


section \<open>The analysis run\<close>

text \<open>
  The methods of \<open>ComprehensiveTechnicalAnalysis\<close> that \<open>analyze_stock\<close> calls,
  without their drawing: what they read from the frame, which can raise, and
  what they append to the two lists of the instance. Nothing in the class
  catches an exception of a tab, so a raise ends \<open>analyze_stock\<close>; the
  instance keeps what had been appended before the raise.

  The effect of a method on the instance is the state it leaves and whether it
  returned (\<open>False\<close>: it raised). A body whose reads all come before its appends
  is written as a function to \<open>option\<close>, where \<open>None\<close> is a raise at one of the
  reads, with the instance as it was; \<open>guarded\<close> makes the method of it.
  \<open>and_then\<close> runs a second method if the first returned.
\<close>

type_synonym effect = "analysis \<Rightarrow> analysis \<times> bool"

definition guarded :: "(analysis \<Rightarrow> analysis option) \<Rightarrow> effect" where
  "guarded g st = (case g st of Some st' \<Rightarrow> (st', True) | None \<Rightarrow> (st, False))"

definition and_then :: "effect \<Rightarrow> effect \<Rightarrow> effect" where
  "and_then g h st = (case g st of (st1, ok) \<Rightarrow> if ok then h st1 else (st1, False))"

text \<open>The columns a chart takes from the frame.\<close>

definition reads :: "frame \<Rightarrow> string list \<Rightarrow> unit option" where
  "reads df names = (if list_all (has_col df) names then Some () else None)"

text \<open>\<open>df[name].iloc[-1]\<close>.\<close>

definition last_of :: "frame \<Rightarrow> string \<Rightarrow> cell option" where
  "last_of df name = getcol df name \<bind> (\<lambda>c. iloc c (- 1))"

text \<open>\<open>df[name].iloc[-k] if len(df) >= k else current\<close>.\<close>

definition earlier_of :: "frame \<Rightarrow> string \<Rightarrow> nat \<Rightarrow> cell \<Rightarrow> cell option" where
  "earlier_of df name k current =
     (if k \<le> nrows df then getcol df name \<bind> (\<lambda>c. iloc c (- int k)) else Some current)"

subsection \<open>Trend\<close>

definition fifty_two_week_analysis :: "frame \<Rightarrow> analysis \<Rightarrow> analysis option" where
  "fifty_two_week_analysis df st = do {
     current_price \<leftarrow> last_of df ''Close'';
     week_52_high \<leftarrow>
       (if has_col df ''52WH'' \<and> has_col df ''52WL'' then last_of df ''52WH''
        else map_option series_max (getcol df ''High''));
     week_52_low \<leftarrow>
       (if has_col df ''52WH'' \<and> has_col df ''52WL'' then last_of df ''52WL''
        else map_option series_min (getcol df ''Low''));
     let range_position =
       fmul (fdiv (fsub current_price week_52_low) (fsub week_52_high week_52_low)) (Num 100)
     in Some
       (if fgt range_position (Num 80) then
          add_point ''Near 52-week high, potential breakout'' st
        else if flt range_position (Num 20) then
          add_point ''Near 52-week low, at support levels'' st
        else st)
   }"

text \<open>
  \<open>_trend_analysis\<close>: the candlestick chart, the support and resistance levels,
  which are computed from \<open>High\<close> and \<open>Low\<close> and only displayed, and the 52-week
  analysis.
\<close>

definition trend_analysis :: "frame \<Rightarrow> effect" where
  "trend_analysis df =
     guarded (\<lambda>st. do {
       reads df [''Date'', ''Open'', ''High'', ''Low'', ''Close''];
       fifty_two_week_analysis df st
     })"

subsection \<open>Moving averages\<close>

text \<open>
  \<open>_moving_averages_analysis\<close>: the chart, then \<open>_cross_analysis\<close>, whose first
  part can append before its second part reads.
\<close>

definition moving_averages_analysis :: "frame \<Rightarrow> effect" where
  "moving_averages_analysis df =
     and_then
       (guarded (\<lambda>st. do {
          reads df [''Date'', ''Close'', ''SMA_20'', ''SMA_50'', ''SMA_200'', ''EMA_20''];
          cross_signals df st
        }))
       (guarded (ma_alignment df))"

subsection \<open>Momentum\<close>

text \<open>
  \<open>_rsi_analysis\<close> reads the RSI of five days ago after it has appended.
\<close>

definition rsi_analysis :: "frame \<Rightarrow> effect" where
  "rsi_analysis df =
     and_then
       (guarded (\<lambda>st. do {
          current_rsi \<leftarrow> last_of df ''RSI'';
          reads df [''Date''];
          Some
            (if fgt current_rsi (Num 70) then
               add_point ''RSI indicates overbought condition''
                 (add_signal ''SELL - RSI Overbought'' st)
             else if flt current_rsi (Num 30) then
               add_point ''RSI indicates oversold condition''
                 (add_signal ''BUY - RSI Oversold'' st)
             else add_point ''RSI in neutral zone'' st)
        }))
       (guarded (\<lambda>st. do {
          current_rsi \<leftarrow> last_of df ''RSI'';
          rsi_5_days_ago \<leftarrow> earlier_of df ''RSI'' 6 current_rsi;
          Some st
        }))"

definition macd_analysis :: "frame \<Rightarrow> analysis \<Rightarrow> analysis option" where
  "macd_analysis df st = do {
     reads df [''Date'', ''MACD'', ''MACD_Signal'', ''MACD_Histogram''];
     current_macd \<leftarrow> last_of df ''MACD'';
     current_signal \<leftarrow> last_of df ''MACD_Signal'';
     current_histogram \<leftarrow> last_of df ''MACD_Histogram'';
     if 1 < nrows df then do {
       prev_macd \<leftarrow> getcol df ''MACD'' \<bind> (\<lambda>c. iloc c (- 2));
       prev_signal \<leftarrow> getcol df ''MACD_Signal'' \<bind> (\<lambda>c. iloc c (- 2));
       Some
         (if fle prev_macd prev_signal \<and> fgt current_macd current_signal then
            add_point ''MACD shows bullish crossover''
              (add_signal ''BUY - MACD Bullish Crossover'' st)
          else if fge prev_macd prev_signal \<and> flt current_macd current_signal then
            add_point ''MACD shows bearish crossover''
              (add_signal ''SELL - MACD Bearish Crossover'' st)
          else st)
     } else Some st
   }"

definition stochastic_analysis :: "frame \<Rightarrow> analysis \<Rightarrow> analysis option" where
  "stochastic_analysis df st = do {
     current_k \<leftarrow> last_of df ''Stoch_K'';
     current_d \<leftarrow> last_of df ''Stoch_D'';
     reads df [''Date''];
     Some
       (if fgt current_k (Num 80) \<and> fgt current_d (Num 80) then
          add_signal ''SELL - Stochastic Overbought'' st
        else if flt current_k (Num 20) \<and> flt current_d (Num 20) then
          add_signal ''BUY - Stochastic Oversold'' st
        else st)
   }"

definition momentum_analysis :: "frame \<Rightarrow> effect" where
  "momentum_analysis df =
     and_then (rsi_analysis df)
       (and_then (guarded (macd_analysis df)) (guarded (stochastic_analysis df)))"

subsection \<open>Volatility\<close>

definition bollinger_bands_analysis :: "frame \<Rightarrow> analysis \<Rightarrow> analysis option" where
  "bollinger_bands_analysis df st = do {
     reads df [''Date'', ''Close'', ''BB_Upper'', ''BB_Lower'', ''BB_Middle''];
     current_close \<leftarrow> last_of df ''Close'';
     current_upper \<leftarrow> last_of df ''BB_Upper'';
     current_lower \<leftarrow> last_of df ''BB_Lower'';
     current_middle \<leftarrow> last_of df ''BB_Middle'';
     Some
       (if fgt current_close current_upper then
          add_point ''Price above Bollinger upper band'' st
        else if flt current_close current_lower then
          add_point ''Price below Bollinger lower band''
            (add_signal ''BUY - Price below Bollinger lower band'' st)
        else st)
   }"

definition atr_analysis :: "frame \<Rightarrow> analysis \<Rightarrow> analysis option" where
  "atr_analysis df st = do {
     current_atr \<leftarrow> last_of df ''ATR'';
     current_price \<leftarrow> last_of df ''Close'';
     let atr_percentage = fmul (fdiv current_atr current_price) (Num 100);
     reads df [''Date''];
     atr_10_days_ago \<leftarrow> earlier_of df ''ATR'' 11 current_atr;
     Some
       (if fgt atr_percentage (Num 3) then add_point ''High volatility environment'' st
        else if flt atr_percentage (Num 1) then add_point ''Low volatility consolidation'' st
        else st)
   }"

definition volatility_analysis :: "frame \<Rightarrow> effect" where
  "volatility_analysis df =
     and_then (guarded (bollinger_bands_analysis df)) (guarded (atr_analysis df))"

subsection \<open>Volume\<close>

text \<open>
  \<open>_volume_chart\<close> begins with \<open>df['Volume_MA'] = df['Volume'].rolling(window=20).mean()\<close>,
  which adds a column to the frame under analysis.
\<close>

definition with_volume_ma :: "frame \<Rightarrow> frame option" where
  "with_volume_ma df =
     map_option (\<lambda>v. set_col ''Volume_MA'' (rolling 20 agg_mean v) df) (getcol df ''Volume'')"

definition volume_chart :: "frame \<Rightarrow> analysis \<Rightarrow> analysis option" where
  "volume_chart df st = do {
     reads df [''Date'', ''Close'', ''Open'', ''Volume'', ''Volume_MA''];
     current_volume \<leftarrow> last_of df ''Volume'';
     avg_volume \<leftarrow> getcol df ''Volume'' \<bind> (\<lambda>v. iloc (rolling 20 agg_mean v) (- 1));
     let volume_ratio = fdiv current_volume avg_volume
     in Some
       (if fgt volume_ratio (Num 2) then
          add_point ''High trading volume indicates strong interest'' st
        else if flt volume_ratio (Num 0.5) then
          add_point ''Low volume suggests weak participation'' st
        else st)
   }"

definition vwap_analysis :: "frame \<Rightarrow> analysis \<Rightarrow> analysis option" where
  "vwap_analysis df st = do {
     current_close \<leftarrow> last_of df ''Close'';
     current_vwap \<leftarrow> last_of df ''VWAP'';
     reads df [''Date''];
     Some
       (if fgt current_close current_vwap then add_point ''Price trading above VWAP'' st
        else add_point ''Price trading below VWAP'' st)
   }"

definition obv_analysis :: "frame \<Rightarrow> analysis \<Rightarrow> analysis option" where
  "obv_analysis df st = do {
     reads df [''Date'', ''Close'', ''OBV''];
     current_obv \<leftarrow> last_of df ''OBV'';
     obv_10_days_ago \<leftarrow> earlier_of df ''OBV'' 11 current_obv;
     current_close \<leftarrow> last_of df ''Close'';
     price_10_days_ago \<leftarrow> earlier_of df ''Close'' 11 current_close;
     let obv_rising = fgt current_obv obv_10_days_ago;
         price_rising = fgt current_close price_10_days_ago
     in Some
       (if price_rising \<and> obv_rising then
          add_point ''OBV confirms bullish price momentum'' st
        else if \<not> price_rising \<and> \<not> obv_rising then
          add_point ''OBV confirms bearish price momentum'' st
        else if price_rising \<and> \<not> obv_rising then
          add_point ''OBV shows bearish divergence''
            (add_signal ''SELL - OBV bearish divergence'' st)
        else if \<not> price_rising \<and> obv_rising then
          add_point ''OBV shows bullish divergence''
            (add_signal ''BUY - OBV bullish divergence'' st)
        else st)
   }"

definition liquidity_analysis :: "frame \<Rightarrow> analysis \<Rightarrow> analysis option" where
  "liquidity_analysis df st =
     (if \<not> has_col df ''Nooftrades'' then Some st
      else do {
        current_trades \<leftarrow> last_of df ''Nooftrades'';
        avg_trades \<leftarrow> getcol df ''Nooftrades'' \<bind> (\<lambda>v. iloc (rolling 20 agg_mean v) (- 1));
        reads df [''Date''];
        let trades_ratio =
          (if fgt avg_trades (Num 0) then fdiv current_trades avg_trades else Num 1)
        in Some
          (if fgt trades_ratio (Num 1.5) then
             add_point ''High liquidity with increased trading activity'' st
           else if flt trades_ratio (Num 0.7) then
             add_point ''Lower liquidity with reduced trading activity'' st
           else st)
      })"

text \<open>
  \<open>_volume_analysis\<close>: the frame it leaves, which has the column \<open>Volume_MA\<close>
  once \<open>_volume_chart\<close> has made its assignment, the instance and whether it
  returned.
\<close>

definition volume_analysis :: "frame \<Rightarrow> analysis \<Rightarrow> frame \<times> analysis \<times> bool" where
  "volume_analysis df st =
     (case with_volume_ma df of
        None \<Rightarrow> (df, st, False)
      | Some df1 \<Rightarrow>
          (df1,
           and_then (guarded (volume_chart df1))
             (and_then (guarded (vwap_analysis df1))
                (and_then (guarded (obv_analysis df1)) (guarded (liquidity_analysis df1)))) st))"

subsection \<open>Signals and summary\<close>

text \<open>
  \<open>_signals_and_summary\<close> changes neither list. It reads the last values it
  prints and shows the signals by direction and the recommendation.
\<close>

definition signals_and_summary ::
  "frame \<Rightarrow> analysis \<Rightarrow> (string list \<times> string list \<times> string) option" where
  "signals_and_summary df st = do {
     current_price \<leftarrow> last_of df ''Close'';
     current_rsi \<leftarrow> last_of df ''RSI'';
     current_macd \<leftarrow> last_of df ''MACD'';
     current_signal \<leftarrow> last_of df ''MACD_Signal'';
     current_atr \<leftarrow> last_of df ''ATR'';
     Some (buy_signals (signals st), sell_signals (signals st), overall_signal (signals st))
   }"

subsection \<open>\<open>analyze_stock\<close>\<close>

text \<open>
  The six tabs in their order, on the frame with indicators: the frame as the
  tabs leave it, the instance, and whether all tabs returned. The volume tab
  adds the column \<open>Volume_MA\<close> to the frame, and the summary reads the frame
  after that.
\<close>

definition run_tabs :: "frame \<Rightarrow> analysis \<Rightarrow> frame \<times> analysis \<times> bool" where
  "run_tabs df st =
     (case and_then (trend_analysis df)
             (and_then (moving_averages_analysis df)
                (and_then (momentum_analysis df) (volatility_analysis df))) st of
        (st4, False) \<Rightarrow> (df, st4, False)
      | (st4, True) \<Rightarrow>
          (case volume_analysis df st4 of
             (df1, st5, False) \<Rightarrow> (df1, st5, False)
           | (df1, st5, True) \<Rightarrow>
               (df1, guarded (\<lambda>st. map_option (\<lambda>summary. st) (signals_and_summary df1 st)) st5)))"

text \<open>
  \<open>analyze_stock\<close> on the frame at position \<open>df\<close> of the store, for an instance in
  the state \<open>st\<close>: the store and the state of the instance after the call, and
  whether the call returned. An empty frame or a missing required column ends
  the call before any analysis.
\<close>

definition analyze_stock ::
  "ta_lib \<Rightarrow> store \<Rightarrow> nat \<Rightarrow> analysis \<Rightarrow> store \<times> analysis \<times> bool" where
  "analyze_stock lib s df st =
     (if s ! df = [] \<or> nrows (s ! df) = 0 then (s, st, True)
      else if filter (\<lambda>col. \<not> has_col (s ! df) col)
                [''Date'', ''Open'', ''High'', ''Low'', ''Close'', ''Volume''] \<noteq> []
      then (s, st, True)
      else
        (let (s1, df_analysis) = calculate_all_indicators lib s df
         in case run_tabs (s1 ! df_analysis) st of
              (df1, st1) \<Rightarrow> (s1[df_analysis := df1], st1)))"

text \<open>
  For the proofs: the statements run on frames as values, and the frame that
  \<open>_calculate_all_indicators\<close> returns as a function of its argument.
\<close>

fun exec_statements :: "frame \<Rightarrow> statement list \<Rightarrow> frame \<Rightarrow> frame \<times> bool" where
  "exec_statements df [] c = (c, True)"
| "exec_statements df (f # fs) c =
     (case f df c of None \<Rightarrow> (c, False) | Some v \<Rightarrow> exec_statements df fs v)"

definition indicator_frame :: "ta_lib \<Rightarrow> frame \<Rightarrow> frame" where
  "indicator_frame lib df =
     (case exec_statements df (indicator_statements lib) df of
        (c, True) \<Rightarrow> c
      | (c, False) \<Rightarrow> df)"

text \<open>What a call of \<open>analyze_stock\<close> does to the instance, from the frame alone.\<close>

definition instance_after :: "ta_lib \<Rightarrow> frame \<Rightarrow> effect" where
  "instance_after lib f st =
     (if f = [] \<or> nrows f = 0 then (st, True)
      else if filter (\<lambda>col. \<not> has_col f col)
                [''Date'', ''Open'', ''High'', ''Low'', ''Close'', ''Volume''] \<noteq> []
      then (st, True)
      else snd (run_tabs (indicator_frame lib f) st))"

definition extend :: "string list \<times> string list \<Rightarrow> analysis \<Rightarrow> analysis" where
  "extend d st = st\<lparr>signals := signals st @ fst d, summary_points := summary_points st @ snd d\<rparr>"

text \<open>
  A body that leaves the instance with its two lists extended by lists that do
  not depend on what the lists held before, or raises whatever they held; and
  a method that extends the two lists by such lists and returns or raises
  whatever they held.
\<close>

definition body_appends :: "(analysis \<Rightarrow> analysis option) \<Rightarrow> bool" where
  "body_appends g =
     (\<exists>r. \<forall>st. g st =
        map_option
          (\<lambda>(n, p). st\<lparr>signals := signals st @ n, summary_points := summary_points st @ p\<rparr>) r)"

definition appends :: "effect \<Rightarrow> bool" where
  "appends g = (\<exists>d ok. \<forall>st. g st = (extend d st, ok))"

subsection \<open>Series and stand-ins of the library for examples\<close>

text \<open>
  Two bars with rising closes, and the library as it answers on a series of
  fewer than twelve rows with rising closes: every moving average, the RSI, the
  MACD, the bands and the stochastic oscillator are NaN in every row, because
  no window is full; the constructor of \<open>AverageTrueRange\<close> raises
  \<open>IndexError\<close> on fewer than 14 rows; and the on-balance volume is the running
  sum of the volume.
\<close>

definition two_bars :: frame where
  "two_bars =
     [(''Date'', [Num 1, Num 2]), (''Open'', [Num 100, Num 104]),
      (''High'', [Num 106, Num 111]), (''Low'', [Num 99, Num 103]),
      (''Close'', [Num 105, Num 110]), (''Volume'', [Num 1000, Num 1500])]"

definition warmup_lib :: ta_lib where
  "warmup_lib =
     \<lparr>sma_indicator = (\<lambda>w c. Some (map (\<lambda>x. NaN) c)),
      ema_indicator = (\<lambda>w c. Some (map (\<lambda>x. NaN) c)),
      rsi = (\<lambda>w c. Some (map (\<lambda>x. NaN) c)),
      macd = (\<lambda>c. Some (map (\<lambda>x. NaN) c)),
      macd_signal = (\<lambda>c. Some (map (\<lambda>x. NaN) c)),
      macd_diff = (\<lambda>c. Some (map (\<lambda>x. NaN) c)),
      bollinger_hband = (\<lambda>c. Some (map (\<lambda>x. NaN) c)),
      bollinger_mavg = (\<lambda>c. Some (map (\<lambda>x. NaN) c)),
      bollinger_lband = (\<lambda>c. Some (map (\<lambda>x. NaN) c)),
      average_true_range = (\<lambda>h l c. None),
      on_balance_volume = (\<lambda>c v. Some (cumsum v)),
      stoch = (\<lambda>h l c. Some (map (\<lambda>x. NaN) c)),
      stoch_signal = (\<lambda>h l c. Some (map (\<lambda>x. NaN) c))\<rparr>"

text \<open>
  Sixteen bars: the close rises by one from 100 to 115, the high is one above
  the close and the low one below, the volume is 1000. On this series the
  library answers as follows. The averages over 20, 50 and 200 rows, the MACD
  with its slow window of 26 and the bands over 20 rows are NaN in every row.
  The RSI over 14 rows is NaN in the first 13 rows and 100 from then on, because
  no close falls. The true range of every row is 2, so the ATR over 14 rows is
  2 from row 14 on; the library gives 0 in the rows before. The on-balance
  volume adds the volume of every row, because no close falls. The stochastic
  oscillator of the library is the formula of the program with the signal as
  the mean of three rows.
\<close>

definition rising_series :: frame where
  "rising_series =
     [(''Date'', map Num [1, 2, 3, 4, 5, 6, 7, 8, 9, 10, 11, 12, 13, 14, 15, 16]),
      (''Open'', map Num [100, 101, 102, 103, 104, 105, 106, 107, 108, 109, 110, 111, 112,
         113, 114, 115]),
      (''High'', map Num [101, 102, 103, 104, 105, 106, 107, 108, 109, 110, 111, 112, 113,
         114, 115, 116]),
      (''Low'', map Num [99, 100, 101, 102, 103, 104, 105, 106, 107, 108, 109, 110, 111,
         112, 113, 114]),
      (''Close'', map Num [100, 101, 102, 103, 104, 105, 106, 107, 108, 109, 110, 111, 112,
         113, 114, 115]),
      (''Volume'', map Num [1000, 1000, 1000, 1000, 1000, 1000, 1000, 1000, 1000, 1000, 1000,
         1000, 1000, 1000, 1000, 1000])]"

definition rising_lib :: ta_lib where
  "rising_lib =
     \<lparr>sma_indicator = (\<lambda>w c. Some (rolling w agg_mean c)),
      ema_indicator = (\<lambda>w c. Some (map (\<lambda>x. NaN) c)),
      rsi = (\<lambda>w c. Some (map (\<lambda>i. if i + 1 < w then NaN else Num 100) [0..<length c])),
      macd = (\<lambda>c. Some (map (\<lambda>x. NaN) c)),
      macd_signal = (\<lambda>c. Some (map (\<lambda>x. NaN) c)),
      macd_diff = (\<lambda>c. Some (map (\<lambda>x. NaN) c)),
      bollinger_hband = (\<lambda>c. Some (map (\<lambda>x. NaN) c)),
      bollinger_mavg = (\<lambda>c. Some (map (\<lambda>x. NaN) c)),
      bollinger_lband = (\<lambda>c. Some (map (\<lambda>x. NaN) c)),
      average_true_range =
        (\<lambda>h l c. if length c < 14 then None
                 else Some (map (\<lambda>i. if i + 1 < 14 then Num 0 else Num 2) [0..<length c])),
      on_balance_volume = (\<lambda>c v. Some (cumsum v)),
      stoch = (\<lambda>h l c. Some (stoch_k c h l)),
      stoch_signal = (\<lambda>h l c. Some (rolling 3 agg_mean (stoch_k c h l)))\<rparr>"

section \<open>Properties of the signal engine\<close>

subsection \<open>Reading the last rows\<close>

lemma iloc_neg:
  "0 < k \<Longrightarrow> k \<le> length xs \<Longrightarrow> iloc xs (- int k) = Some (xs ! (length xs - k))"
  by (auto simp: iloc_def nat_diff_distrib' of_nat_diff)

lemma getcol_tail:
  "getcol (tail k df) name = map_option (\<lambda>c. drop (length c - k) c) (getcol df name)"
  by (simp add: getcol_def tail_def map_of_map)

lemma nrows_tail: "frame_rows df n \<Longrightarrow> nrows (tail k df) = min n k"
  by (cases df) (auto simp: frame_rows_def nrows_def tail_def)

lemma getcol_length: "frame_rows df n \<Longrightarrow> getcol df name = Some c \<Longrightarrow> length c = n"
  by (auto simp: frame_rows_def getcol_def list_all_iff dest!: map_of_SomeD)

lemma iloc_recent:
  assumes "length c = n" "0 < k" "k \<le> n" "k \<le> 10"
  shows "iloc (drop (length c - 10) c) (- int k) = Some (c ! (n - k))"
proof -
  have "k \<le> length (drop (length c - 10) c)" using assms by auto
  from iloc_neg[OF assms(2) this] show ?thesis using assms by (auto simp: min_def)
qed

lemma iloc_last:
  assumes "frame_rows df n" "1 \<le> n" "getcol df name = Some c"
  shows "iloc c (- 1) = Some (c ! (n - 1))"
  using iloc_neg[of 1 c] getcol_length[OF assms(1,3)] assms(2) by simp

lemma fle_not_fgt: "fle a b \<Longrightarrow> \<not> fgt a b"
  unfolding fgt_def by (induction a b rule: fle.induct) auto

lemma isna_not_fgt: "isna a \<or> isna b \<Longrightarrow> \<not> fgt a b"
  unfolding fgt_def by (cases a; cases b) auto

subsection \<open>The crossover rule\<close>

lemma cross_signals_eq:
  assumes wf: "frame_rows df n" and n: "2 \<le> n"
    and c50: "getcol df ''SMA_50'' = Some s50" and c200: "getcol df ''SMA_200'' = Some s200"
  shows "cross_signals df st = Some
          (if \<not> fgt (s50 ! (n - 2)) (s200 ! (n - 2)) \<and> fgt (s50 ! (n - 1)) (s200 ! (n - 1)) then
             add_point ''Golden Cross bullish signal''
               (add_signal ''BUY - Golden Cross detected'' st)
           else if fgt (s50 ! (n - 2)) (s200 ! (n - 2)) \<and> \<not> fgt (s50 ! (n - 1)) (s200 ! (n - 1)) then
             add_point ''Death Cross bearish signal''
               (add_signal ''SELL - Death Cross detected'' st)
           else st)"
proof -
  have l50: "length s50 = n" and l200: "length s200 = n"
    using wf c50 c200 by (auto dest: getcol_length)
  have a: "iloc (drop (length s50 - 10) s50) (- 2) = Some (s50 ! (n - 2))"
    using iloc_recent[OF l50, of 2] n by simp
  have b: "iloc (drop (length s50 - 10) s50) (- 1) = Some (s50 ! (n - 1))"
    using iloc_recent[OF l50, of 1] n by simp
  have c: "iloc (drop (length s200 - 10) s200) (- 2) = Some (s200 ! (n - 2))"
    using iloc_recent[OF l200, of 2] n by simp
  have d: "iloc (drop (length s200 - 10) s200) (- 1) = Some (s200 ! (n - 1))"
    using iloc_recent[OF l200, of 1] n by simp
  have r: "1 < nrows (tail 10 df)" using nrows_tail[OF wf, of 10] n by simp
  show ?thesis
    unfolding cross_signals_def Let_def
    by (simp only: r if_True getcol_tail c50 c200 option.map bind.bind_lunit a b c d)
qed

lemma ma_alignment_signals:
  assumes wf: "frame_rows df n" and n: "1 \<le> n"
    and c50: "getcol df ''SMA_50'' = Some s50" and c200: "getcol df ''SMA_200'' = Some s200"
    and ccl: "getcol df ''Close'' = Some cl" and c20: "getcol df ''SMA_20'' = Some s20"
  shows "\<exists>st'. ma_alignment df st = Some st' \<and> signals st' = signals st"
proof -
  note i = iloc_last[OF wf n]
  show ?thesis
    by (simp add: ma_alignment_def c50 c200 ccl c20 i[OF c50] i[OF c200] i[OF ccl] i[OF c20]
        add_point_def)
qed

text \<open>
  Claim C3, as the code has it. On a frame of at least two rows that carries the
  columns the method reads, \<open>_cross_analysis\<close> completes, and
  \<^item> when SMA_50 is below or equal to SMA_200 on the second-to-last row and
    strictly above it on the last row, it appends exactly the one signal
    \<open>BUY - Golden Cross detected\<close> and no Death Cross;
  \<^item> a null on the last row rules out the Golden Cross, a null on the
    second-to-last row rules out the Death Cross, and nulls on both rows leave
    the signal list as it was.
  A null on the second-to-last row alone does not suppress the Golden Cross: the
  comparison with NaN is false, which the method reads as "not above".
\<close>

theorem golden_cross_rule:
  assumes wf: "frame_rows df n" and n: "2 \<le> n"
    and c50: "getcol df ''SMA_50'' = Some s50" and c200: "getcol df ''SMA_200'' = Some s200"
    and ccl: "getcol df ''Close'' = Some cl" and c20: "getcol df ''SMA_20'' = Some s20"
  shows "\<exists>st'. cross_analysis df st = Some st'
    \<and> (fle (s50 ! (n - 2)) (s200 ! (n - 2)) \<and> fgt (s50 ! (n - 1)) (s200 ! (n - 1))
        \<longrightarrow> signals st' = signals st @ [''BUY - Golden Cross detected''])
    \<and> (isna (s50 ! (n - 1)) \<or> isna (s200 ! (n - 1))
        \<longrightarrow> signals st' = signals st
          \<or> signals st' = signals st @ [''SELL - Death Cross detected''])
    \<and> (isna (s50 ! (n - 2)) \<or> isna (s200 ! (n - 2))
        \<longrightarrow> signals st' = signals st
          \<or> signals st' = signals st @ [''BUY - Golden Cross detected''])
    \<and> ((isna (s50 ! (n - 1)) \<or> isna (s200 ! (n - 1)))
        \<and> (isna (s50 ! (n - 2)) \<or> isna (s200 ! (n - 2)))
        \<longrightarrow> signals st' = signals st)"
proof -
  let ?st1 = "if \<not> fgt (s50 ! (n - 2)) (s200 ! (n - 2)) \<and> fgt (s50 ! (n - 1)) (s200 ! (n - 1)) then
             add_point ''Golden Cross bullish signal''
               (add_signal ''BUY - Golden Cross detected'' st)
           else if fgt (s50 ! (n - 2)) (s200 ! (n - 2)) \<and> \<not> fgt (s50 ! (n - 1)) (s200 ! (n - 1)) then
             add_point ''Death Cross bearish signal''
               (add_signal ''SELL - Death Cross detected'' st)
           else st"
  have n1: "1 \<le> n" using n by simp
  have cs: "cross_signals df st = Some ?st1"
    by (rule cross_signals_eq[OF wf n c50 c200])
  obtain st' where m: "ma_alignment df ?st1 = Some st'" and s: "signals st' = signals ?st1"
    using ma_alignment_signals[OF wf n1 c50 c200 ccl c20] by blast
  have run: "cross_analysis df st = Some st'"
    unfolding cross_analysis_def cs bind.bind_lunit by (rule m)
  have g: "signals st' = signals st @ [''BUY - Golden Cross detected'']"
    if "fle (s50 ! (n - 2)) (s200 ! (n - 2))" "fgt (s50 ! (n - 1)) (s200 ! (n - 1))"
    using that s by (simp add: fle_not_fgt add_point_def add_signal_def)
  have l: "signals st' = signals st \<or> signals st' = signals st @ [''SELL - Death Cross detected'']"
    if "isna (s50 ! (n - 1)) \<or> isna (s200 ! (n - 1))"
    using isna_not_fgt[OF that] s by (simp add: add_point_def add_signal_def)
  have p: "signals st' = signals st \<or> signals st' = signals st @ [''BUY - Golden Cross detected'']"
    if "isna (s50 ! (n - 2)) \<or> isna (s200 ! (n - 2))"
    using isna_not_fgt[OF that] s by (simp add: add_point_def add_signal_def)
  have b: "signals st' = signals st"
    if "isna (s50 ! (n - 1)) \<or> isna (s200 ! (n - 1))" "isna (s50 ! (n - 2)) \<or> isna (s200 ! (n - 2))"
    using isna_not_fgt[OF that(1)] isna_not_fgt[OF that(2)] s by simp
  from run g l p b show ?thesis by blast
qed

text \<open>
  The rule at a frame of two rows where SMA_50 moves from 10 (below 11) to 12
  (above 11): the run appends the Golden Cross and nothing else.
\<close>

theorem golden_cross_rule_witness:
  "map_option signals
     (cross_analysis
        [(''Close'', [Num 100, Num 101]), (''SMA_20'', [Num 99, Num 102]),
         (''SMA_50'', [Num 10, Num 12]), (''SMA_200'', [Num 11, Num 11])] init)
   = Some [''BUY - Golden Cross detected'']"
proof -
  let ?df = "[(''Close'', [Num 100, Num 101]), (''SMA_20'', [Num 99, Num 102]),
         (''SMA_50'', [Num 10, Num 12]), (''SMA_200'', [Num 11, Num 11])]"
  have wf: "frame_rows ?df 2" by (simp add: frame_rows_def)
  have c50: "getcol ?df ''SMA_50'' = Some [Num 10, Num 12]" by (simp add: getcol_def)
  have c200: "getcol ?df ''SMA_200'' = Some [Num 11, Num 11]" by (simp add: getcol_def)
  have ccl: "getcol ?df ''Close'' = Some [Num 100, Num 101]" by (simp add: getcol_def)
  have c20: "getcol ?df ''SMA_20'' = Some [Num 99, Num 102]" by (simp add: getcol_def)
  have prev: "fle ([Num 10, Num 12] ! (2 - 2)) ([Num 11, Num 11] ! (2 - 2))" by simp
  have curr: "fgt ([Num 10, Num 12] ! (2 - 1)) ([Num 11, Num 11] ! (2 - 1))"
    by (simp add: fgt_def)
  from golden_cross_rule[OF wf order_refl c50 c200 ccl c20, of init] prev curr
  obtain st' where "cross_analysis ?df init = Some st'"
    and "signals st' = signals init @ [''BUY - Golden Cross detected'']"
    by blast
  then show ?thesis by (simp add: init_def)
qed

text \<open>
  The claim as the specification states it fails: with SMA_200 null on the
  second-to-last row and SMA_50 above SMA_200 on the last row, the method still
  appends the Golden Cross.
\<close>

theorem golden_cross_null_counterexample:
  "cross_analysis
     [(''Close'', [Num 100, Num 101]), (''SMA_20'', [Num 99, Num 102]),
      (''SMA_50'', [Num 10, Num 12]), (''SMA_200'', [NaN, Num 11])] init
   = Some \<lparr>signals = [''BUY - Golden Cross detected''],
            summary_points = [''Golden Cross bullish signal'']\<rparr>"
  by (simp add: cross_analysis_def cross_signals_def ma_alignment_def tail_def nrows_def
      getcol_def iloc_def fgt_def add_signal_def add_point_def init_def)

subsection \<open>The vote\<close>

text \<open>
  Claim C4. For every accumulated signal list the recommendation is BUY when the
  signals starting with BUY strictly outnumber those starting with SELL, SELL
  when the SELL signals strictly outnumber the BUY signals, and NEUTRAL when the
  two counts are equal, which includes the list without any signal.
\<close>

theorem recommendation_majority:
  "(length (buy_signals sigs) > length (sell_signals sigs)
      \<longrightarrow> overall_signal sigs = ''BUY'')
   \<and> (length (sell_signals sigs) > length (buy_signals sigs)
      \<longrightarrow> overall_signal sigs = ''SELL'')
   \<and> (length (buy_signals sigs) = length (sell_signals sigs)
      \<longrightarrow> overall_signal sigs = ''NEUTRAL'')
   \<and> overall_signal [] = ''NEUTRAL''"
  by (simp add: overall_signal_def buy_signals_def sell_signals_def)

theorem recommendation_majority_witness:
  "overall_signal [''BUY - RSI Oversold'', ''SELL - Death Cross detected'',
       ''BUY - MACD Bullish Crossover''] = ''BUY''
   \<and> overall_signal [''SELL - RSI Overbought''] = ''SELL''
   \<and> overall_signal [''BUY - RSI Oversold'', ''SELL - Death Cross detected'']
       = ''NEUTRAL''"
proof -
  have b: "length (buy_signals [''BUY - RSI Oversold'', ''SELL - Death Cross detected'',
       ''BUY - MACD Bullish Crossover''])
     > length (sell_signals [''BUY - RSI Oversold'', ''SELL - Death Cross detected'',
       ''BUY - MACD Bullish Crossover''])"
    by (simp add: buy_signals_def sell_signals_def startswith_def)
  have s: "length (sell_signals [''SELL - RSI Overbought''])
     > length (buy_signals [''SELL - RSI Overbought''])"
    by (simp add: buy_signals_def sell_signals_def startswith_def)
  have e: "length (buy_signals [''BUY - RSI Oversold'', ''SELL - Death Cross detected''])
     = length (sell_signals [''BUY - RSI Oversold'', ''SELL - Death Cross detected''])"
    by (simp add: buy_signals_def sell_signals_def startswith_def)
  from b s e show ?thesis
    using recommendation_majority [of "[''BUY - RSI Oversold'',
        ''SELL - Death Cross detected'', ''BUY - MACD Bullish Crossover'']"]
      recommendation_majority [of "[''SELL - RSI Overbought'']"]
      recommendation_majority [of "[''BUY - RSI Oversold'',
        ''SELL - Death Cross detected'']"]
    by blast
qed

section \<open>Properties of the validator and cleaner\<close>

subsection \<open>Quantiles\<close>

lemma quantile_None: "quantile p xs = None \<longleftrightarrow> xs = []"
  by (simp add: quantile_def)

lemma quantile_SomeD:
  "quantile p xs = Some q \<Longrightarrow> xs \<noteq> [] \<and> q = interp (sort xs) (p * (length xs - 1))"
  by (auto simp: quantile_def split: if_splits)

lemma interp_lower:
  assumes "sorted s" "h div 100 < length s"
  shows "s ! (h div 100) \<le> interp s h"
proof (cases "h div 100 + 1 < length s")
  case True
  then have "s ! (h div 100) \<le> s ! (h div 100 + 1)"
    using assms(1) by (simp add: sorted_nth_mono)
  then have "0 \<le> (s ! (h div 100 + 1) - s ! (h div 100)) * (real (h mod 100) / 100)"
    by simp
  with True show ?thesis by (simp add: interp_def Let_def)
next
  case False
  then show ?thesis by (simp add: interp_def Let_def)
qed

lemma interp_upper:
  assumes "sorted s" "h div 100 + 1 < length s"
  shows "interp s h \<le> s ! (h div 100 + 1)"
proof -
  let ?d = "s ! (h div 100 + 1) - s ! (h div 100)"
  have d: "0 \<le> ?d" using assms by (simp add: sorted_nth_mono)
  have "real (h mod 100) / 100 \<le> 1" by simp
  then have "?d * (real (h mod 100) / 100) \<le> ?d * 1"
    using d by (rule mult_left_mono)
  then show ?thesis using assms(2) by (simp add: interp_def Let_def)
qed

lemma interp_mono:
  assumes s: "sorted s" and le: "h \<le> h'" and len: "h' div 100 < length s"
  shows "interp s h \<le> interp s h'"
proof -
  have ii: "h div 100 \<le> h' div 100" using le by (rule div_le_mono)
  show ?thesis
  proof (cases "h div 100 = h' div 100")
    case True
    have "h mod 100 \<le> h' mod 100"
    proof -
      have "h = 100 * (h div 100) + h mod 100" "h' = 100 * (h' div 100) + h' mod 100" by simp_all
      with True le show ?thesis by linarith
    qed
    then have g: "real (h mod 100) / 100 \<le> real (h' mod 100) / 100" by simp
    show ?thesis
    proof (cases "h' div 100 + 1 < length s")
      case T: True
      have d: "0 \<le> s ! (h' div 100 + 1) - s ! (h' div 100)"
        using s T by (simp add: sorted_nth_mono)
      from mult_left_mono[OF g d] T True show ?thesis by (simp add: interp_def Let_def)
    next
      case False
      with True show ?thesis by (simp add: interp_def Let_def)
    qed
  next
    case False
    with ii have lt: "h div 100 + 1 \<le> h' div 100" by simp
    with len have a: "h div 100 + 1 < length s" by simp
    have "interp s h \<le> s ! (h div 100 + 1)" by (rule interp_upper[OF s a])
    also have "\<dots> \<le> s ! (h' div 100)" using s lt len by (simp add: sorted_nth_mono)
    also have "\<dots> \<le> interp s h'" by (rule interp_lower[OF s len])
    finally show ?thesis .
  qed
qed

lemma pos_in_range:
  assumes "p \<le> 100" "xs \<noteq> []"
  shows "(p * (length xs - 1)) div 100 < length xs"
proof -
  have "p * (length xs - 1) \<le> 100 * (length xs - 1)" using assms(1) by simp
  then have "(p * (length xs - 1)) div 100 \<le> length xs - 1"
    by (metis div_le_mono nonzero_mult_div_cancel_left zero_neq_numeral)
  moreover have "0 < length xs" using assms(2) by simp
  ultimately show ?thesis by linarith
qed

lemma quantile_mono:
  assumes "p \<le> p'" "p' \<le> 100" "quantile p xs = Some q" "quantile p' xs = Some q'"
  shows "q \<le> q'"
proof -
  have ne: "xs \<noteq> []" using assms(3) by (auto dest: quantile_SomeD)
  have "interp (sort xs) (p * (length xs - 1)) \<le> interp (sort xs) (p' * (length xs - 1))"
    using pos_in_range[OF assms(2) ne] assms(1) by (intro interp_mono) simp_all
  then show ?thesis using assms(3,4) by (auto dest!: quantile_SomeD)
qed

lemma quantile_above_member:
  assumes "quantile p xs = Some q" "p \<le> 100"
  shows "\<exists>x\<in>set xs. x \<le> q"
proof -
  have ne: "xs \<noteq> []" using assms(1) by (auto dest: quantile_SomeD)
  let ?h = "p * (length xs - 1)"
  have r: "?h div 100 < length (sort xs)" using pos_in_range[OF assms(2) ne] by simp
  then have m: "sort xs ! (?h div 100) \<in> set xs"
    by (metis nth_mem set_sort)
  have "sort xs ! (?h div 100) \<le> interp (sort xs) ?h" using r by (intro interp_lower) simp_all
  then show ?thesis using assms(1) m by (auto dest!: quantile_SomeD)
qed

lemma quantile_lower:
  assumes "quantile p xs = Some q" "p \<le> 100" "\<forall>x\<in>set xs. lo \<le> x"
  shows "lo \<le> q"
  using quantile_above_member[OF assms(1,2)] assms(3) by fastforce

lemma quantile_pos:
  assumes "quantile p xs = Some q" "p \<le> 100" "\<forall>x\<in>set xs. 0 < x"
  shows "0 < q"
  using quantile_above_member[OF assms(1,2)] assms(3) by fastforce

subsection \<open>Capping one column\<close>

lemma length_cap_values: "length (cap_values mul xs) = length xs"
  by (simp add: cap_values_def Let_def split: option.splits)

lemma cap_values_nonneg_spec:
  assumes nn: "\<forall>x\<in>set xs. 0 \<le> x" and up: "\<forall>x\<ge>0. x \<le> mul x 100"
  shows "cap_values mul xs = capped_column mul xs"
proof (cases "xs = []")
  case True
  then show ?thesis by (simp add: cap_values_def capped_column_def quantile_def)
next
  case False
  then obtain q1 q99 where q1: "quantile 1 xs = Some q1" and q99: "quantile 99 xs = Some q99"
    by (auto simp: quantile_def)
  have le: "q1 \<le> q99" using quantile_mono[OF _ _ q1 q99] by simp
  have "0 \<le> q1" using quantile_lower[OF q1 _ nn] by simp
  with le have "0 \<le> q99" by simp
  with up have "q99 \<le> mul q99 100" by simp
  with le have ok: "\<not> q1 > mul q99 100" by simp
  have a: "map (\<lambda>v. if v > mul q99 100 then q99 else v)
          (map (\<lambda>v. if v < mul q1 0.01 then q1 else v) xs)
        = map (\<lambda>v. if v < mul q1 0.01 then q1 else if v > mul q99 100 then q99 else v) xs"
    using ok by auto
  have b: "map (\<lambda>v. if v < mul q1 0.01 then q1 else if v > mul q99 100 then q99 else v) xs = xs"
    if "filter (\<lambda>v. v < mul q1 0.01 \<or> v > mul q99 100) xs = []"
    using that by (auto simp: filter_empty_conv intro!: map_idI)
  show ?thesis
    unfolding cap_values_def capped_column_def q1 q99 using a b
    by (auto simp add: Let_def)
qed

lemma cap_values_members:
  assumes "y \<in> set (cap_values mul xs)"
  shows "y \<in> set xs \<or> quantile 1 xs = Some y \<or> quantile 99 xs = Some y"
  using assms by (auto simp: cap_values_def Let_def split: option.splits if_splits)

lemma cap_values_pos:
  assumes "\<forall>x\<in>set xs. 0 < x" "y \<in> set (cap_values mul xs)"
  shows "0 < y"
  using cap_values_members[OF assms(2)] assms(1) quantile_pos[of _ xs y]
  by auto

lemma cap_values_nonneg:
  assumes "\<forall>x\<in>set xs. 0 \<le> x" "y \<in> set (cap_values mul xs)"
  shows "0 \<le> y"
  using cap_values_members[OF assms(2)] assms(1) quantile_lower[of _ xs y 0]
  by auto

subsection \<open>The capping loop on rows\<close>

lemma length_cap_cols [simp]:
  "length (cap_Open mul df) = length df" "length (cap_High mul df) = length df"
  "length (cap_Low mul df) = length df" "length (cap_Close mul df) = length df"
  "length (cap_Volume mul df) = length df"
  by (simp_all add: cap_Open_def cap_High_def cap_Low_def cap_Close_def cap_Volume_def
      length_cap_values)

lemma length_cap_extremes [simp]: "length (cap_extremes mul df) = length df"
  by (simp add: cap_extremes_def)

lemma map2_update_Open:
  "length vs = length df \<Longrightarrow>
   map Open (map2 (\<lambda>v r. r\<lparr>Open := v\<rparr>) vs df) = vs
    \<and> map Date (map2 (\<lambda>v r. r\<lparr>Open := v\<rparr>) vs df) = map Date df
    \<and> map High (map2 (\<lambda>v r. r\<lparr>Open := v\<rparr>) vs df) = map High df
    \<and> map Low (map2 (\<lambda>v r. r\<lparr>Open := v\<rparr>) vs df) = map Low df
    \<and> map Close (map2 (\<lambda>v r. r\<lparr>Open := v\<rparr>) vs df) = map Close df
    \<and> map Volume (map2 (\<lambda>v r. r\<lparr>Open := v\<rparr>) vs df) = map Volume df"
  by (induction vs df rule: list_induct2) simp_all

lemma map2_update_High:
  "length vs = length df \<Longrightarrow>
   map High (map2 (\<lambda>v r. r\<lparr>High := v\<rparr>) vs df) = vs
    \<and> map Date (map2 (\<lambda>v r. r\<lparr>High := v\<rparr>) vs df) = map Date df
    \<and> map Open (map2 (\<lambda>v r. r\<lparr>High := v\<rparr>) vs df) = map Open df
    \<and> map Low (map2 (\<lambda>v r. r\<lparr>High := v\<rparr>) vs df) = map Low df
    \<and> map Close (map2 (\<lambda>v r. r\<lparr>High := v\<rparr>) vs df) = map Close df
    \<and> map Volume (map2 (\<lambda>v r. r\<lparr>High := v\<rparr>) vs df) = map Volume df"
  by (induction vs df rule: list_induct2) simp_all

lemma map2_update_Low:
  "length vs = length df \<Longrightarrow>
   map Low (map2 (\<lambda>v r. r\<lparr>Low := v\<rparr>) vs df) = vs
    \<and> map Date (map2 (\<lambda>v r. r\<lparr>Low := v\<rparr>) vs df) = map Date df
    \<and> map Open (map2 (\<lambda>v r. r\<lparr>Low := v\<rparr>) vs df) = map Open df
    \<and> map High (map2 (\<lambda>v r. r\<lparr>Low := v\<rparr>) vs df) = map High df
    \<and> map Close (map2 (\<lambda>v r. r\<lparr>Low := v\<rparr>) vs df) = map Close df
    \<and> map Volume (map2 (\<lambda>v r. r\<lparr>Low := v\<rparr>) vs df) = map Volume df"
  by (induction vs df rule: list_induct2) simp_all

lemma map2_update_Close:
  "length vs = length df \<Longrightarrow>
   map Close (map2 (\<lambda>v r. r\<lparr>Close := v\<rparr>) vs df) = vs
    \<and> map Date (map2 (\<lambda>v r. r\<lparr>Close := v\<rparr>) vs df) = map Date df
    \<and> map Open (map2 (\<lambda>v r. r\<lparr>Close := v\<rparr>) vs df) = map Open df
    \<and> map High (map2 (\<lambda>v r. r\<lparr>Close := v\<rparr>) vs df) = map High df
    \<and> map Low (map2 (\<lambda>v r. r\<lparr>Close := v\<rparr>) vs df) = map Low df
    \<and> map Volume (map2 (\<lambda>v r. r\<lparr>Close := v\<rparr>) vs df) = map Volume df"
  by (induction vs df rule: list_induct2) simp_all

lemma map2_update_Volume:
  "length vs = length df \<Longrightarrow>
   map Volume (map2 (\<lambda>v r. r\<lparr>Volume := v\<rparr>) vs df) = vs
    \<and> map Date (map2 (\<lambda>v r. r\<lparr>Volume := v\<rparr>) vs df) = map Date df
    \<and> map Open (map2 (\<lambda>v r. r\<lparr>Volume := v\<rparr>) vs df) = map Open df
    \<and> map High (map2 (\<lambda>v r. r\<lparr>Volume := v\<rparr>) vs df) = map High df
    \<and> map Low (map2 (\<lambda>v r. r\<lparr>Volume := v\<rparr>) vs df) = map Low df
    \<and> map Close (map2 (\<lambda>v r. r\<lparr>Volume := v\<rparr>) vs df) = map Close df"
  by (induction vs df rule: list_induct2) simp_all

lemma cap_Open_cols:
  "map Open (cap_Open mul df) = cap_values mul (map Open df)"
  "map Date (cap_Open mul df) = map Date df"
  "map High (cap_Open mul df) = map High df"
  "map Low (cap_Open mul df) = map Low df"
  "map Close (cap_Open mul df) = map Close df"
  "map Volume (cap_Open mul df) = map Volume df"
  using map2_update_Open[of "cap_values mul (map Open df)" df]
  by (simp_all only: cap_Open_def length_cap_values length_map)

lemma cap_High_cols:
  "map High (cap_High mul df) = cap_values mul (map High df)"
  "map Date (cap_High mul df) = map Date df"
  "map Open (cap_High mul df) = map Open df"
  "map Low (cap_High mul df) = map Low df"
  "map Close (cap_High mul df) = map Close df"
  "map Volume (cap_High mul df) = map Volume df"
  using map2_update_High[of "cap_values mul (map High df)" df]
  by (simp_all only: cap_High_def length_cap_values length_map)

lemma cap_Low_cols:
  "map Low (cap_Low mul df) = cap_values mul (map Low df)"
  "map Date (cap_Low mul df) = map Date df"
  "map Open (cap_Low mul df) = map Open df"
  "map High (cap_Low mul df) = map High df"
  "map Close (cap_Low mul df) = map Close df"
  "map Volume (cap_Low mul df) = map Volume df"
  using map2_update_Low[of "cap_values mul (map Low df)" df]
  by (simp_all only: cap_Low_def length_cap_values length_map)

lemma cap_Close_cols:
  "map Close (cap_Close mul df) = cap_values mul (map Close df)"
  "map Date (cap_Close mul df) = map Date df"
  "map Open (cap_Close mul df) = map Open df"
  "map High (cap_Close mul df) = map High df"
  "map Low (cap_Close mul df) = map Low df"
  "map Volume (cap_Close mul df) = map Volume df"
  using map2_update_Close[of "cap_values mul (map Close df)" df]
  by (simp_all only: cap_Close_def length_cap_values length_map)

lemma cap_Volume_cols:
  "map Volume (cap_Volume mul df) = cap_values mul (map Volume df)"
  "map Date (cap_Volume mul df) = map Date df"
  "map Open (cap_Volume mul df) = map Open df"
  "map High (cap_Volume mul df) = map High df"
  "map Low (cap_Volume mul df) = map Low df"
  "map Close (cap_Volume mul df) = map Close df"
  using map2_update_Volume[of "cap_values mul (map Volume df)" df]
  by (simp_all only: cap_Volume_def length_cap_values length_map)

lemma cap_extremes_cols:
  "map Date (cap_extremes mul df) = map Date df"
  "map Open (cap_extremes mul df) = cap_values mul (map Open df)"
  "map High (cap_extremes mul df) = cap_values mul (map High df)"
  "map Low (cap_extremes mul df) = cap_values mul (map Low df)"
  "map Close (cap_extremes mul df) = cap_values mul (map Close df)"
  "map Volume (cap_extremes mul df) = cap_values mul (map Volume df)"
  unfolding cap_extremes_def
  by (simp_all add: cap_Open_cols cap_High_cols cap_Low_cols cap_Close_cols cap_Volume_cols)

subsection \<open>The rows before the capping loop\<close>

lemma drop_invalid_filter: "drop_invalid df = filter (\<lambda>r. \<not> invalid_mask r) df"
proof (cases "filter invalid_mask df = []")
  case True
  then have "filter (\<lambda>r. \<not> invalid_mask r) df = df"
    by (auto simp: filter_empty_conv intro: filter_True)
  with True show ?thesis by (simp add: drop_invalid_def)
next
  case False
  then show ?thesis by (simp add: drop_invalid_def)
qed

lemma sorted_valid_rows_valid: "r \<in> set (sorted_valid_rows df) \<Longrightarrow> \<not> invalid_mask r"
  by (simp add: sorted_valid_rows_def surviving_rows_def sort_values_Date_def drop_invalid_filter)

lemma sorted_valid_rows_sorted: "sorted (map Date (sorted_valid_rows df))"
  by (simp add: sorted_valid_rows_def sort_values_Date_def)

lemma length_sorted_valid_rows: "length (sorted_valid_rows df) = length (surviving_rows df)"
  by (simp add: sorted_valid_rows_def sort_values_Date_def)

lemma final_data_cleaning_Inr:
  "final_data_cleaning mul df = Inr out \<Longrightarrow> out = cap_extremes mul (sorted_valid_rows df)"
  by (auto simp: final_data_cleaning_def Let_def split: if_splits)

lemma final_data_cleaning_columns:
  "set required_columns \<subseteq> set (columns df) \<Longrightarrow>
   final_data_cleaning mul df = Inr (cap_extremes mul (sorted_valid_rows df))"
  by (auto simp: final_data_cleaning_def Let_def filter_empty_conv)

lemma invalid_maskD:
  "\<not> invalid_mask r \<Longrightarrow>
   Low r \<le> Open r \<and> Open r \<le> High r \<and> Low r \<le> Close r \<and> Close r \<le> High r
   \<and> 0 < Open r \<and> 0 < High r \<and> 0 < Low r \<and> 0 < Close r \<and> 0 \<le> Volume r"
  by (auto simp: invalid_mask_def)

lemma col_pos_after_cap:
  assumes "\<forall>r\<in>set df. 0 < f r" "map f (cap_extremes mul df) = cap_values mul (map f df)"
    "r \<in> set (cap_extremes mul df)"
  shows "0 < f r"
proof -
  have "f r \<in> set (map f (cap_extremes mul df))" using assms(3) by simp
  then have "f r \<in> set (cap_values mul (map f df))" by (simp only: assms(2))
  then show ?thesis using assms(1) by (intro cap_values_pos[of "map f df"]) auto
qed

lemma col_nonneg_after_cap:
  assumes "\<forall>r\<in>set df. 0 \<le> f r" "map f (cap_extremes mul df) = cap_values mul (map f df)"
    "r \<in> set (cap_extremes mul df)"
  shows "0 \<le> f r"
proof -
  have "f r \<in> set (map f (cap_extremes mul df))" using assms(3) by simp
  then have "f r \<in> set (cap_values mul (map f df))" by (simp only: assms(2))
  then show ?thesis using assms(1) by (intro cap_values_nonneg[of "map f df"]) auto
qed


lemma dropna_as_frame: "dropna (map replace_inf_row (rows (as_frame out))) = out"
  by (induction out) (simp_all add: as_frame_def dropna_def List.map_filter_def dropna_row_def replace_inf_row_def)

lemma drop_invalid_id: "\<forall>r\<in>set df. \<not> invalid_mask r \<Longrightarrow> drop_invalid df = df"
  by (simp add: drop_invalid_filter)


lemma uncapped_run_is_fixed:
  assumes "final_data_cleaning mul df = Inr out" "out = sorted_valid_rows df"
  shows "(\<forall>r\<in>set out. \<not> invalid_mask r) \<and> cap_extremes mul out = out"
  using assms final_data_cleaning_Inr[OF assms(1)] sorted_valid_rows_valid by auto


subsection \<open>Runs on concrete frames\<close>

lemmas cleaner_defs =
  final_data_cleaning_def process_uploaded_data_def required_columns_def sorted_valid_rows_def
  surviving_rows_def replace_inf_row_def dropna_def dropna_row_def List.map_filter_def
  drop_invalid_def invalid_mask_def sort_values_Date_def cap_extremes_def cap_Open_def
  cap_High_def cap_Low_def cap_Close_def cap_Volume_def cap_values_def quantile_def interp_def
  as_frame_def

lemma exact_mul_rounds_closely: "rounds_closely exact_mul"
  by (simp add: rounds_closely_def exact_mul_def)

lemma close_low:
  assumes "rounds_closely mul" "0 \<le> q"
  shows "q * (999 / 100000) \<le> mul q (1 / 100)" "mul q (1 / 100) \<le> q * (1001 / 100000)"
  using assms(1)[unfolded rounds_closely_def, rule_format, of q "1 / 100"] assms(2)
  by simp_all

lemma close_high:
  assumes "rounds_closely mul" "0 \<le> q"
  shows "q * (999 / 10) \<le> mul q 100" "mul q 100 \<le> q * (1001 / 10)"
  using assms(1)[unfolded rounds_closely_def, rule_format, of q 100] assms(2)
  by simp_all

text \<open>
  The examples hold for every multiplication that rounds closely, so for that
  of the machine: every value in them is far from both thresholds of its
  column. First two ordinary bars, given in descending order of date: nothing
  is dropped or capped.
\<close>

lemma ordinary_thresholds:
  assumes c: "rounds_closely mul"
  shows "mul (1001 / 100) (1 / 100) < 10" "11 < mul (1099 / 100) 100"
    "mul (1201 / 100) (1 / 100) < 12" "13 < mul (1299 / 100) 100"
    "mul (901 / 100) (1 / 100) < 9" "10 < mul (999 / 100) 100"
    "mul (1101 / 100) (1 / 100) < 11" "12 < mul (1199 / 100) 100"
    "mul (201 / 2) (1 / 100) < 100" "150 < mul (299 / 2) 100"
  using close_low[OF c, of "1001 / 100"] close_high[OF c, of "1099 / 100"]
    close_low[OF c, of "1201 / 100"] close_high[OF c, of "1299 / 100"]
    close_low[OF c, of "901 / 100"] close_high[OF c, of "999 / 100"]
    close_low[OF c, of "1101 / 100"] close_high[OF c, of "1199 / 100"]
    close_low[OF c, of "201 / 2"] close_high[OF c, of "299 / 2"]
  by simp_all

lemma run_ordinary:
  assumes "rounds_closely mul"
  shows "final_data_cleaning mul
     \<lparr>columns = [''Date'', ''Open'', ''High'', ''Low'', ''Close'', ''Volume''],
        rows =
          [\<lparr>Date = Some (2025, 8, 20), Open = Num 11, High = Num 13, Low = Num 10,
              Close = Num 12, Volume = Num 150\<rparr>,
           \<lparr>Date = Some (2025, 8, 19), Open = Num 10, High = Num 12, Low = Num 9,
              Close = Num 11, Volume = Num 100\<rparr>]\<rparr>
   = Inr
       [\<lparr>Date = (2025, 8, 19), Open = 10, High = 12, Low = 9, Close = 11, Volume = 100\<rparr>,
        \<lparr>Date = (2025, 8, 20), Open = 11, High = 13, Low = 10, Close = 12, Volume = 150\<rparr>]"
  using ordinary_thresholds[OF assms] by (simp add: cleaner_defs)

text \<open>
  Two valid bars whose prices differ by a factor of 10000. The first percentile
  of \<open>Low\<close> is \<open>1 + 0.01 * 9999 = 100.99\<close>, and \<open>1\<close> is below the computed
  \<open>100.99 * 0.01\<close>, so the loop sets the first \<open>Low\<close> to \<open>100.99\<close>; no other
  value is extreme.
\<close>

lemma capped_thresholds:
  assumes c: "rounds_closely mul"
  shows "mul (5099 / 50) (1 / 100) < 2" "10000 < mul (495001 / 50) 100"
    "mul (10297 / 100) (1 / 100) < 3" "10000 < mul (990003 / 100) 100"
    "1 < mul (10099 / 100) (1 / 100)" "mul (10099 / 100) (1 / 100) < 10000"
    "10000 < mul (990001 / 100) 100"
    "mul 10 (1 / 100) < 10" "10 < mul 10 100"
    "mul 10000 (1 / 100) < 10000" "10000 < mul 10000 100"
  using close_low[OF c, of "5099 / 50"] close_high[OF c, of "495001 / 50"]
    close_low[OF c, of "10297 / 100"] close_high[OF c, of "990003 / 100"]
    close_low[OF c, of "10099 / 100"] close_high[OF c, of "990001 / 100"]
    close_low[OF c, of 10] close_high[OF c, of 10]
    close_low[OF c, of 10000] close_high[OF c, of 10000]
  by simp_all

lemma run_capped:
  assumes "rounds_closely mul"
  shows "final_data_cleaning mul
     \<lparr>columns = [''Date'', ''Open'', ''High'', ''Low'', ''Close'', ''Volume''],
        rows =
          [\<lparr>Date = Some (2025, 8, 19), Open = Num 2, High = Num 3, Low = Num 1,
              Close = Num 2, Volume = Num 10\<rparr>,
           \<lparr>Date = Some (2025, 8, 20), Open = Num 10000, High = Num 10000,
              Low = Num 10000, Close = Num 10000, Volume = Num 10\<rparr>]\<rparr>
   = Inr
       [\<lparr>Date = (2025, 8, 19), Open = 2, High = 3, Low = 10099 / 100, Close = 2,
           Volume = 10\<rparr>,
        \<lparr>Date = (2025, 8, 20), Open = 10000, High = 10000, Low = 10000, Close = 10000,
           Volume = 10\<rparr>]"
  using capped_thresholds[OF assms] by (simp add: cleaner_defs)

text \<open>
  The result of that run, cleaned again: the row whose \<open>Low\<close> was lifted above
  its \<open>Open\<close> is dropped as invalid.
\<close>

lemma run_capped_again:
  assumes "rounds_closely mul"
  shows "final_data_cleaning mul (as_frame
       [\<lparr>Date = (2025, 8, 19), Open = 2, High = 3, Low = 10099 / 100, Close = 2,
           Volume = 10\<rparr>,
        \<lparr>Date = (2025, 8, 20), Open = 10000, High = 10000, Low = 10000, Close = 10000,
           Volume = 10\<rparr>])
   = Inr
       [\<lparr>Date = (2025, 8, 20), Open = 10000, High = 10000, Low = 10000, Close = 10000,
           Volume = 10\<rparr>]"
  using capped_thresholds[OF assms] by (simp add: cleaner_defs)

text \<open>Two valid bars of the same date: both are kept.\<close>

lemma run_same_date:
  assumes "rounds_closely mul"
  shows "final_data_cleaning mul
     \<lparr>columns = [''Date'', ''Open'', ''High'', ''Low'', ''Close'', ''Volume''],
        rows =
          [\<lparr>Date = Some (2025, 8, 19), Open = Num 10, High = Num 12, Low = Num 9,
              Close = Num 11, Volume = Num 100\<rparr>,
           \<lparr>Date = Some (2025, 8, 19), Open = Num 11, High = Num 13, Low = Num 10,
              Close = Num 12, Volume = Num 150\<rparr>]\<rparr>
   = Inr
       [\<lparr>Date = (2025, 8, 19), Open = 10, High = 12, Low = 9, Close = 11, Volume = 100\<rparr>,
        \<lparr>Date = (2025, 8, 19), Open = 11, High = 13, Low = 10, Close = 12, Volume = 150\<rparr>]"
  using ordinary_thresholds[OF assms] by (simp add: cleaner_defs)

text \<open>Capping the two ordinary bars changes nothing.\<close>

lemma ordinary_uncapped:
  assumes "rounds_closely mul"
  shows "cap_extremes mul
       [\<lparr>Date = (2025, 8, 19), Open = 10, High = 12, Low = 9, Close = 11, Volume = 100\<rparr>,
        \<lparr>Date = (2025, 8, 20), Open = 11, High = 13, Low = 10, Close = 12, Volume = 150\<rparr>]
     = [\<lparr>Date = (2025, 8, 19), Open = 10, High = 12, Low = 9, Close = 11, Volume = 100\<rparr>,
        \<lparr>Date = (2025, 8, 20), Open = 11, High = 13, Low = 10, Close = 12, Volume = 150\<rparr>]"
  using ordinary_thresholds[OF assms] by (simp add: cleaner_defs)

text \<open>A high below the low, a missing date and an infinite high: no row survives.\<close>

lemma surviving_none:
  "surviving_rows
     \<lparr>columns = [''Date'', ''Open'', ''High'', ''Low'', ''Close'', ''Volume''],
        rows =
          [\<lparr>Date = Some (2025, 8, 19), Open = Num 10, High = Num 8, Low = Num 9,
              Close = Num 11, Volume = Num 100\<rparr>,
           \<lparr>Date = None, Open = Num 10, High = Num 12, Low = Num 9,
              Close = Num 11, Volume = Num 100\<rparr>,
           \<lparr>Date = Some (2025, 8, 21), Open = Num 10, High = PosInf, Low = Num 9,
              Close = Num 11, Volume = Num 100\<rparr>]\<rparr>
   = []"
  by (simp add: cleaner_defs)

subsection \<open>The invariant of the cleaned series\<close>

text \<open>
  Claim C1, as the code has it. For every series returned by
  \<open>_final_data_cleaning\<close>: the dates are in ascending order, where rows of the
  same date are all kept, so the order is not strict; Open, High, Low and Close
  are strictly positive and Volume is not negative in every row; and
  \<open>Low \<le> Open \<le> High\<close>, \<open>Low \<le> Close \<le> High\<close> hold in every row that stands
  in the output as it stood before the capping loop.
\<close>

theorem cleaned_rows_invariant:
  assumes "final_data_cleaning mul df = Inr out"
  shows "sorted (map Date out)
    \<and> (\<forall>r\<in>set out. 0 < Open r \<and> 0 < High r \<and> 0 < Low r \<and> 0 < Close r \<and> 0 \<le> Volume r)
    \<and> (\<forall>r\<in>set out. r \<in> set (sorted_valid_rows df) \<longrightarrow>
          Low r \<le> Open r \<and> Open r \<le> High r \<and> Low r \<le> Close r \<and> Close r \<le> High r)"
proof -
  let ?pre = "sorted_valid_rows df"
  have out: "out = cap_extremes mul ?pre" using assms by (rule final_data_cleaning_Inr)
  have v: "\<not> invalid_mask r" if "r \<in> set ?pre" for r
    using that by (rule sorted_valid_rows_valid)
  have dates: "sorted (map Date out)"
    by (simp add: out cap_extremes_cols sorted_valid_rows_sorted)
  have pos: "0 < Open r \<and> 0 < High r \<and> 0 < Low r \<and> 0 < Close r \<and> 0 \<le> Volume r"
    if r: "r \<in> set out" for r
  proof -
    have r': "r \<in> set (cap_extremes mul ?pre)" using r by (simp add: out)
    have "0 < Open r"
      using v r' by (intro col_pos_after_cap[of ?pre Open]) (auto dest: invalid_maskD simp: cap_extremes_cols)
    moreover have "0 < High r"
      using v r' by (intro col_pos_after_cap[of ?pre High]) (auto dest: invalid_maskD simp: cap_extremes_cols)
    moreover have "0 < Low r"
      using v r' by (intro col_pos_after_cap[of ?pre Low]) (auto dest: invalid_maskD simp: cap_extremes_cols)
    moreover have "0 < Close r"
      using v r' by (intro col_pos_after_cap[of ?pre Close]) (auto dest: invalid_maskD simp: cap_extremes_cols)
    moreover have "0 \<le> Volume r"
      using v r' by (intro col_nonneg_after_cap[of ?pre Volume]) (auto dest: invalid_maskD simp: cap_extremes_cols)
    ultimately show ?thesis by simp
  qed
  have rel: "Low r \<le> Open r \<and> Open r \<le> High r \<and> Low r \<le> Close r \<and> Close r \<le> High r"
    if "r \<in> set ?pre" for r
    using invalid_maskD[OF v[OF that]] by simp
  from dates pos rel show ?thesis by blast
qed

theorem cleaned_rows_invariant_witness:
  "sorted (map Date
       ([\<lparr>Date = (2025, 8, 19), Open = 10, High = 12, Low = 9, Close = 11, Volume = 100\<rparr>,
        \<lparr>Date = (2025, 8, 20), Open = 11, High = 13, Low = 10, Close = 12, Volume = 150\<rparr>] :: bar list))
   \<and> list_all (\<lambda>r. 0 < Open r \<and> 0 < High r \<and> 0 < Low r \<and> 0 < Close r \<and> 0 \<le> Volume r)
       ([\<lparr>Date = (2025, 8, 19), Open = 10, High = 12, Low = 9, Close = 11, Volume = 100\<rparr>,
        \<lparr>Date = (2025, 8, 20), Open = 11, High = 13, Low = 10, Close = 12, Volume = 150\<rparr>] :: bar list)"
  unfolding list_all_iff
  using cleaned_rows_invariant[OF run_ordinary[OF exact_mul_rounds_closely]] by blast

text \<open>
  The claim as the specification states it fails twice. The cleaner has no step
  that removes a second row of the same date, so the dates of its result need
  not be strictly ascending; and the capping loop treats each column on its own,
  so it can lift a \<open>Low\<close> above the \<open>Open\<close> of its row.
\<close>

theorem cleaned_rows_counterexample:
  "final_data_cleaning exact_mul
     \<lparr>columns = [''Date'', ''Open'', ''High'', ''Low'', ''Close'', ''Volume''],
        rows =
          [\<lparr>Date = Some (2025, 8, 19), Open = Num 10, High = Num 12, Low = Num 9,
              Close = Num 11, Volume = Num 100\<rparr>,
           \<lparr>Date = Some (2025, 8, 19), Open = Num 11, High = Num 13, Low = Num 10,
              Close = Num 12, Volume = Num 150\<rparr>]\<rparr>
   = Inr
       [\<lparr>Date = (2025, 8, 19), Open = 10, High = 12, Low = 9, Close = 11, Volume = 100\<rparr>,
        \<lparr>Date = (2025, 8, 19), Open = 11, High = 13, Low = 10, Close = 12, Volume = 150\<rparr>]
   \<and> final_data_cleaning exact_mul
     \<lparr>columns = [''Date'', ''Open'', ''High'', ''Low'', ''Close'', ''Volume''],
        rows =
          [\<lparr>Date = Some (2025, 8, 19), Open = Num 2, High = Num 3, Low = Num 1,
              Close = Num 2, Volume = Num 10\<rparr>,
           \<lparr>Date = Some (2025, 8, 20), Open = Num 10000, High = Num 10000,
              Low = Num 10000, Close = Num 10000, Volume = Num 10\<rparr>]\<rparr>
   = Inr
       [\<lparr>Date = (2025, 8, 19), Open = 2, High = 3, Low = 10099 / 100, Close = 2,
           Volume = 10\<rparr>,
        \<lparr>Date = (2025, 8, 20), Open = 10000, High = 10000, Low = 10000, Close = 10000,
           Volume = 10\<rparr>]"
  using run_same_date[OF exact_mul_rounds_closely] run_capped[OF exact_mul_rounds_closely]
  by (rule conjI)

subsection \<open>The capping step\<close>

text \<open>
  The decision at a threshold follows the rounding of the product. For the
  column \<open>[0.7, 6930.7]\<close> the first percentile is \<open>70\<close>; when the machine
  rounds \<open>70 * 0.01\<close> to a double above \<open>0.7\<close> the first cell is capped, and
  when it rounds it to \<open>0.7\<close> or below the cell stays.
\<close>

lemma capping_follows_rounding:
  assumes "mul 70 (1 / 100) > 7 / 10" "mul 70 (1 / 100) < 1"
    "mul (68614 / 10) 100 \<ge> 69307 / 10"
  shows "cap_values mul [7 / 10, 69307 / 10] = [70, 69307 / 10]"
  using assms by (simp add: cap_values_def quantile_def interp_def)

lemma capping_without_rounding:
  "cap_values exact_mul [7 / 10, 69307 / 10] = [7 / 10, 69307 / 10]"
  by (simp add: cap_values_def quantile_def interp_def exact_mul_def)

text \<open>
  Claim C2. Let \<open>mul\<close> be the multiplication of the machine, of which only this
  is assumed: the computed hundredfold of a non-negative number is not below
  the number (a product rounded to the nearest double is monotone, so it has
  this property). For each of the five numeric columns the result of the
  cleaner is the column as it stood after the sort, with every value below the
  computed threshold \<open>q1 * 0.01\<close> replaced by \<open>q1\<close> and every value above the
  computed threshold \<open>q99 * 100\<close> replaced by \<open>q99\<close>, where \<open>q1\<close> and \<open>q99\<close>
  are the 1st and 99th percentile of that column; no row is dropped and the
  dates are unchanged.
\<close>

theorem capping_columns:
  assumes run: "final_data_cleaning mul df = Inr out"
    and up: "\<forall>x\<ge>0. x \<le> mul x 100"
  shows "length out = length (sorted_valid_rows df)
    \<and> map Date out = map Date (sorted_valid_rows df)
    \<and> map Open out = capped_column mul (map Open (sorted_valid_rows df))
    \<and> map High out = capped_column mul (map High (sorted_valid_rows df))
    \<and> map Low out = capped_column mul (map Low (sorted_valid_rows df))
    \<and> map Close out = capped_column mul (map Close (sorted_valid_rows df))
    \<and> map Volume out = capped_column mul (map Volume (sorted_valid_rows df))"
proof -
  let ?pre = "sorted_valid_rows df"
  have out: "out = cap_extremes mul ?pre" using run by (rule final_data_cleaning_Inr)
  have v: "\<not> invalid_mask r" if "r \<in> set ?pre" for r
    using that by (rule sorted_valid_rows_valid)
  have nn: "0 \<le> Open r \<and> 0 \<le> High r \<and> 0 \<le> Low r \<and> 0 \<le> Close r \<and> 0 \<le> Volume r"
    if "r \<in> set ?pre" for r
    using invalid_maskD[OF v[OF that]] by simp
  have o: "cap_values mul (map Open ?pre) = capped_column mul (map Open ?pre)"
    using nn up by (intro cap_values_nonneg_spec) simp_all
  have h: "cap_values mul (map High ?pre) = capped_column mul (map High ?pre)"
    using nn up by (intro cap_values_nonneg_spec) simp_all
  have l: "cap_values mul (map Low ?pre) = capped_column mul (map Low ?pre)"
    using nn up by (intro cap_values_nonneg_spec) simp_all
  have c: "cap_values mul (map Close ?pre) = capped_column mul (map Close ?pre)"
    using nn up by (intro cap_values_nonneg_spec) simp_all
  have vl: "cap_values mul (map Volume ?pre) = capped_column mul (map Volume ?pre)"
    using nn up by (intro cap_values_nonneg_spec) simp_all
  show ?thesis
    by (simp only: out length_cap_extremes cap_extremes_cols o h l c vl simp_thms)
qed

theorem capping_columns_witness:
  "map Low
       ([\<lparr>Date = (2025, 8, 19), Open = 2, High = 3, Low = 10099 / 100, Close = 2,
           Volume = 10\<rparr>,
        \<lparr>Date = (2025, 8, 20), Open = 10000, High = 10000, Low = 10000, Close = 10000,
           Volume = 10\<rparr>] :: bar list)
   = capped_column exact_mul (map Low (sorted_valid_rows
     \<lparr>columns = [''Date'', ''Open'', ''High'', ''Low'', ''Close'', ''Volume''],
        rows =
          [\<lparr>Date = Some (2025, 8, 19), Open = Num 2, High = Num 3, Low = Num 1,
              Close = Num 2, Volume = Num 10\<rparr>,
           \<lparr>Date = Some (2025, 8, 20), Open = Num 10000, High = Num 10000,
              Low = Num 10000, Close = Num 10000, Volume = Num 10\<rparr>]\<rparr>))
   \<and> capped_column exact_mul [1, 10000] = [10099 / 100, 10000]"
proof -
  have up: "\<forall>x\<ge>0. x \<le> exact_mul x 100" by (simp add: exact_mul_def)
  have "capped_column exact_mul [1, 10000] = [10099 / 100, 10000]"
    by (simp add: capped_column_def quantile_def interp_def exact_mul_def)
  then show ?thesis
    using capping_columns[OF run_capped[OF exact_mul_rounds_closely] up] by simp
qed

subsection \<open>Running the cleaner twice\<close>

text \<open>
  Claim C5, as the code has it. Running the cleaner on its own result returns
  that result again whenever the result still satisfies the price
  relationships in every row, contains no value that is extreme against its own
  percentiles (capping it changes nothing), and has distinct dates. This is the
  case in particular when the first run capped nothing. Distinct dates are
  required because the order in which pandas leaves rows of the same date is
  not determined.
\<close>

theorem cleaning_idempotent:
  assumes run: "final_data_cleaning mul df = Inr out"
    and valid: "\<forall>r\<in>set out. \<not> invalid_mask r"
    and fixed: "cap_extremes mul out = out"
    and dates: "distinct (map Date out)"
  shows "final_data_cleaning mul (as_frame out) = Inr out"
proof -
  have "out = cap_extremes mul (sorted_valid_rows df)" using run by (rule final_data_cleaning_Inr)
  then have "map Date out = map Date (sorted_valid_rows df)" by (simp add: cap_extremes_cols)
  then have s: "sorted (map Date out)" by (simp add: sorted_valid_rows_sorted)
  have "surviving_rows (as_frame out) = out"
    by (simp add: surviving_rows_def dropna_as_frame drop_invalid_id[OF valid])
  then have "sorted_valid_rows (as_frame out) = out"
    using s by (simp add: sorted_valid_rows_def sort_values_Date_def sort_key_id_if_sorted)
  moreover have "set required_columns \<subseteq> set (columns (as_frame out))"
    by (simp add: as_frame_def)
  ultimately show ?thesis
    by (simp add: final_data_cleaning_columns fixed)
qed

theorem cleaning_idempotent_witness:
  "final_data_cleaning exact_mul (as_frame
       [\<lparr>Date = (2025, 8, 19), Open = 10, High = 12, Low = 9, Close = 11, Volume = 100\<rparr>,
        \<lparr>Date = (2025, 8, 20), Open = 11, High = 13, Low = 10, Close = 12, Volume = 150\<rparr>])
   = Inr
       [\<lparr>Date = (2025, 8, 19), Open = 10, High = 12, Low = 9, Close = 11, Volume = 100\<rparr>,
        \<lparr>Date = (2025, 8, 20), Open = 11, High = 13, Low = 10, Close = 12, Volume = 150\<rparr>]"
proof -
  let ?out = "[\<lparr>Date = (2025, 8, 19), Open = 10, High = 12, Low = 9, Close = 11, Volume = 100\<rparr>,
        \<lparr>Date = (2025, 8, 20), Open = 11, High = 13, Low = 10, Close = 12, Volume = 150\<rparr>] :: bar list"
  have valid: "\<forall>r\<in>set ?out. \<not> invalid_mask r" by (simp add: invalid_mask_def)
  have fixed: "cap_extremes exact_mul ?out = ?out"
    by (rule ordinary_uncapped[OF exact_mul_rounds_closely])
  have dates: "distinct (map Date ?out)" by simp
  show ?thesis
    by (rule cleaning_idempotent[OF run_ordinary[OF exact_mul_rounds_closely] valid fixed dates])
qed

text \<open>
  The claim as the specification states it fails: the result of the first run on
  the two bars above holds the row whose \<open>Low\<close> was lifted to \<open>100.99\<close>, above
  its \<open>Open\<close>; the second run drops that row as invalid.
\<close>

theorem cleaning_idempotent_counterexample:
  "final_data_cleaning exact_mul
     \<lparr>columns = [''Date'', ''Open'', ''High'', ''Low'', ''Close'', ''Volume''],
        rows =
          [\<lparr>Date = Some (2025, 8, 19), Open = Num 2, High = Num 3, Low = Num 1,
              Close = Num 2, Volume = Num 10\<rparr>,
           \<lparr>Date = Some (2025, 8, 20), Open = Num 10000, High = Num 10000,
              Low = Num 10000, Close = Num 10000, Volume = Num 10\<rparr>]\<rparr>
   = Inr
       [\<lparr>Date = (2025, 8, 19), Open = 2, High = 3, Low = 10099 / 100, Close = 2,
           Volume = 10\<rparr>,
        \<lparr>Date = (2025, 8, 20), Open = 10000, High = 10000, Low = 10000, Close = 10000,
           Volume = 10\<rparr>]
   \<and> final_data_cleaning exact_mul (as_frame
       [\<lparr>Date = (2025, 8, 19), Open = 2, High = 3, Low = 10099 / 100, Close = 2,
           Volume = 10\<rparr>,
        \<lparr>Date = (2025, 8, 20), Open = 10000, High = 10000, Low = 10000, Close = 10000,
           Volume = 10\<rparr>])
   = Inr
       [\<lparr>Date = (2025, 8, 20), Open = 10000, High = 10000, Low = 10000, Close = 10000,
           Volume = 10\<rparr>]"
proof
  show "final_data_cleaning exact_mul
     \<lparr>columns = [''Date'', ''Open'', ''High'', ''Low'', ''Close'', ''Volume''],
        rows =
          [\<lparr>Date = Some (2025, 8, 19), Open = Num 2, High = Num 3, Low = Num 1,
              Close = Num 2, Volume = Num 10\<rparr>,
           \<lparr>Date = Some (2025, 8, 20), Open = Num 10000, High = Num 10000,
              Low = Num 10000, Close = Num 10000, Volume = Num 10\<rparr>]\<rparr>
   = Inr
       [\<lparr>Date = (2025, 8, 19), Open = 2, High = 3, Low = 10099 / 100, Close = 2,
           Volume = 10\<rparr>,
        \<lparr>Date = (2025, 8, 20), Open = 10000, High = 10000, Low = 10000, Close = 10000,
           Volume = 10\<rparr>]"
    by (rule run_capped[OF exact_mul_rounds_closely])
  show "final_data_cleaning exact_mul (as_frame
       [\<lparr>Date = (2025, 8, 19), Open = 2, High = 3, Low = 10099 / 100, Close = 2,
           Volume = 10\<rparr>,
        \<lparr>Date = (2025, 8, 20), Open = 10000, High = 10000, Low = 10000, Close = 10000,
           Volume = 10\<rparr>])
   = Inr
       [\<lparr>Date = (2025, 8, 20), Open = 10000, High = 10000, Low = 10000, Close = 10000,
           Volume = 10\<rparr>]"
    by (rule run_capped_again[OF exact_mul_rounds_closely])
qed

subsection \<open>The empty series\<close>

text \<open>
  Claim C6. On a frame that has the six required columns,
  \<open>process_uploaded_data\<close> fails with the error "No valid data remaining after
  processing" when no row remains after the rows with missing values and the
  rows with invalid price relationships have been dropped, and otherwise
  returns a series that is not empty, with as many rows as remained. It never
  returns an empty series: the error reaches the caller.
\<close>

theorem empty_series_error:
  assumes cols: "set required_columns \<subseteq> set (columns df)"
  shows "(surviving_rows df = [] \<longrightarrow>
            process_uploaded_data mul df
              = Inl (ValueError ''No valid data remaining after processing''))
       \<and> (surviving_rows df \<noteq> [] \<longrightarrow>
            (\<exists>out. process_uploaded_data mul df = Inr out \<and> out \<noteq> []
               \<and> length out = length (surviving_rows df)))
       \<and> process_uploaded_data mul df \<noteq> Inr []"
proof -
  let ?out = "cap_extremes mul (sorted_valid_rows df)"
  have run: "final_data_cleaning mul df = Inr ?out" by (rule final_data_cleaning_columns[OF cols])
  have len: "length ?out = length (surviving_rows df)"
    by (simp add: length_sorted_valid_rows)
  then have e: "?out = [] \<longleftrightarrow> surviving_rows df = []" by (metis length_0_conv)
  show ?thesis using len e by (auto simp: process_uploaded_data_def run)
qed

theorem empty_series_error_witness:
  "process_uploaded_data exact_mul
     \<lparr>columns = [''Date'', ''Open'', ''High'', ''Low'', ''Close'', ''Volume''],
        rows =
          [\<lparr>Date = Some (2025, 8, 19), Open = Num 10, High = Num 8, Low = Num 9,
              Close = Num 11, Volume = Num 100\<rparr>,
           \<lparr>Date = None, Open = Num 10, High = Num 12, Low = Num 9,
              Close = Num 11, Volume = Num 100\<rparr>,
           \<lparr>Date = Some (2025, 8, 21), Open = Num 10, High = PosInf, Low = Num 9,
              Close = Num 11, Volume = Num 100\<rparr>]\<rparr>
   = Inl (ValueError ''No valid data remaining after processing'')"
proof -
  let ?df = "\<lparr>columns = [''Date'', ''Open'', ''High'', ''Low'', ''Close'', ''Volume''],
        rows =
          [\<lparr>Date = Some (2025, 8, 19), Open = Num 10, High = Num 8, Low = Num 9,
              Close = Num 11, Volume = Num 100\<rparr>,
           \<lparr>Date = None, Open = Num 10, High = Num 12, Low = Num 9,
              Close = Num 11, Volume = Num 100\<rparr>,
           \<lparr>Date = Some (2025, 8, 21), Open = Num 10, High = PosInf, Low = Num 9,
              Close = Num 11, Volume = Num 100\<rparr>]\<rparr>"
  have cols: "set required_columns \<subseteq> set (columns ?df)"
    by (simp add: required_columns_def)
  from empty_series_error[OF cols] surviving_none show ?thesis by blast
qed

section \<open>Properties of the Indian-format normalizer\<close>

lemmas normalizer_defs =
  process_indian_format_def load_indian_csv_body_def sort_and_select_def required_cols_def
  has_col_def column_mapping_def loader_mapping_def rename_columns_def get_series_def
  set_col_def clean_numeric_cell_def loader_numeric_cell_def astype_str_def str_remove_def
  dquote_def strip_def is_space_def clean_date_text_def parse_dates_indian_def
  parse_dates_loader_def clean_columns_def clean_column_name_def str_accessor_def is_text_def
  date_text_def sort_by_date_def date_key_def take_rows_def dropna_subset_def dropna_all_def
  is_null_def replace_inf_csv_def select_columns_def csv_rows_def

lemmas reader_defs =
  plain_decimal_def unsigned_decimal_def digits_def digit_def day_month_year_def
  month_abbr_def lower_char_def days_in_month_def is_leap_def

subsection \<open>Columns of a frame with distinct names\<close>

lemma get_series_distinct:
  assumes "distinct (map fst df)" "(n, c) \<in> set df"
  shows "get_series df n = Some c"
  using assms
proof (induction df)
  case Nil
  then show ?case by simp
next
  case (Cons a df)
  obtain m d where a: "a = (m, d)" by (cases a)
  have none: "filter (\<lambda>(k, c). k = m) df = []"
    using Cons.prems(1) a by (force simp: filter_empty_conv)
  show ?case
  proof (cases "n = m")
    case True
    then have "c = d" using Cons.prems a by (auto simp: rev_image_eqI)
    then show ?thesis using True none by (simp add: get_series_def a)
  next
    case False
    then have "get_series df n = Some c" using Cons.prems a by (intro Cons.IH) auto
    then show ?thesis using False by (simp add: get_series_def a)
  qed
qed

lemma get_series_member: "get_series df n = Some c \<Longrightarrow> (n, c) \<in> set df"
proof -
  assume g: "get_series df n = Some c"
  then have "filter (\<lambda>(k, c). k = n) df = [(n, c)]"
    by (auto simp: get_series_def split: list.splits prod.splits)
      (metis (mono_tags, lifting) case_prodD filter_eq_ConsD list.set_intros(1) mem_Collect_eq
        set_filter)
  then have "(n, c) \<in> set (filter (\<lambda>(k, c). k = n) df)" by simp
  then show ?thesis by simp
qed

lemma get_series_has_col: "get_series df n = Some c \<Longrightarrow> has_col df n"
  using get_series_member[of df n c] by (force simp: has_col_def)

lemma has_col_get_series:
  assumes "distinct (map fst df)" "has_col df n"
  shows "\<exists>c. get_series df n = Some c"
proof -
  from assms(2) obtain c where "(n, c) \<in> set df" by (auto simp: has_col_def)
  then show ?thesis using get_series_distinct[OF assms(1)] by blast
qed

lemma set_col_existing:
  "has_col df n \<Longrightarrow> set_col n v df = map (\<lambda>(m, c). (m, if m = n then v else c)) df"
  by (auto simp: set_col_def)

lemma names_map_columns: "map fst (map (\<lambda>(n, c). (n, g n c)) df) = map fst df"
  by (induction df) auto

lemma has_col_map_columns: "has_col (map (\<lambda>(n, c). (n, g n c)) df) m = has_col df m"
  by (simp add: has_col_def names_map_columns del: map_map)

lemma get_series_map_columns:
  "get_series (map (\<lambda>(n, c). (n, g n c)) df) m = map_option (g m) (get_series df m)"
proof -
  have "filter (\<lambda>(k, c). k = m) (map (\<lambda>(n, c). (n, g n c)) df)
      = map (\<lambda>(n, c). (n, g m c)) (filter (\<lambda>(k, c). k = m) df)"
    by (induction df) auto
  then show ?thesis
    by (auto simp: get_series_def split: list.splits)
qed

lemma replace_own_column:
  assumes "distinct (map fst df)" "get_series df col = Some s"
  shows "map (\<lambda>(m, c). (m, if m = col then f s else c)) df
       = map (\<lambda>(m, c). (m, if m = col then f c else c)) df"
proof (rule map_cong[OF refl])
  fix x assume x: "x \<in> set df"
  obtain m c where mc: "x = (m, c)" by (cases x)
  have "c = s" if "m = col"
    using get_series_distinct[OF assms(1), of m c] x mc that assms(2) by simp
  then show "(case x of (m, c) \<Rightarrow> (m, if m = col then f s else c))
      = (case x of (m, c) \<Rightarrow> (m, if m = col then f c else c))"
    by (simp add: mc)
qed

subsection \<open>The loops over the numeric columns\<close>

lemma clean_numeric_columns_all:
  assumes "distinct (map fst df)" "distinct cols"
  shows "clean_numeric_columns env cols df
       = Some (map (\<lambda>(n, c). (n, if n \<in> set cols then map (clean_numeric_cell env) c else c)) df)"
  using assms
proof (induction cols arbitrary: df)
  case Nil
  then show ?case by (simp add: case_prod_unfold)
next
  case (Cons col rest)
  let ?f = "map (clean_numeric_cell env)"
  show ?case
  proof (cases "has_col df col")
    case False
    then have "\<forall>x\<in>set df. fst x \<noteq> col" by (auto simp: has_col_def)
    then have "map (\<lambda>(n, c). (n, if n \<in> set (col # rest) then ?f c else c)) df
        = map (\<lambda>(n, c). (n, if n \<in> set rest then ?f c else c)) df"
      by (intro map_cong) auto
    then show ?thesis using False Cons by simp
  next
    case True
    then obtain s where s: "get_series df col = Some s"
      using has_col_get_series[OF Cons.prems(1)] by blast
    let ?df' = "map (\<lambda>(m, c). (m, if m = col then ?f c else c)) df"
    have sc: "set_col col (?f s) df = ?df'"
      using replace_own_column[OF Cons.prems(1) s, of ?f] by (simp add: set_col_existing[OF True])
    have d: "distinct (map fst ?df')" using Cons.prems(1) by (simp only: names_map_columns)
    have "clean_numeric_columns env rest ?df'
        = Some (map (\<lambda>(n, c). (n, if n \<in> set rest then ?f c else c)) ?df')"
      using Cons.prems(2) by (intro Cons.IH[OF d]) simp
    also have "map (\<lambda>(n, c). (n, if n \<in> set rest then ?f c else c)) ?df'
        = map (\<lambda>(n, c). (n, if n \<in> set (col # rest) then ?f c else c)) df"
      using Cons.prems(2) by (auto simp: case_prod_unfold)
    finally show ?thesis using True s sc by simp
  qed
qed

lemma loader_numeric_columns_all:
  assumes "distinct (map fst df)" "distinct cols"
  shows "loader_numeric_columns env cols df
       = Some (map (\<lambda>(n, c). (n, if n \<in> set cols then map (loader_numeric_cell env) c else c)) df)"
  using assms
proof (induction cols arbitrary: df)
  case Nil
  then show ?case by (simp add: case_prod_unfold)
next
  case (Cons col rest)
  let ?f = "map (loader_numeric_cell env)"
  show ?case
  proof (cases "has_col df col")
    case False
    then have "\<forall>x\<in>set df. fst x \<noteq> col" by (auto simp: has_col_def)
    then have "map (\<lambda>(n, c). (n, if n \<in> set (col # rest) then ?f c else c)) df
        = map (\<lambda>(n, c). (n, if n \<in> set rest then ?f c else c)) df"
      by (intro map_cong) auto
    then show ?thesis using False Cons by simp
  next
    case True
    then obtain s where s: "get_series df col = Some s"
      using has_col_get_series[OF Cons.prems(1)] by blast
    let ?df' = "map (\<lambda>(m, c). (m, if m = col then ?f c else c)) df"
    have sc: "set_col col (?f s) df = ?df'"
      using replace_own_column[OF Cons.prems(1) s, of ?f] by (simp add: set_col_existing[OF True])
    have d: "distinct (map fst ?df')" using Cons.prems(1) by (simp only: names_map_columns)
    have "loader_numeric_columns env rest ?df'
        = Some (map (\<lambda>(n, c). (n, if n \<in> set rest then ?f c else c)) ?df')"
      using Cons.prems(2) by (intro Cons.IH[OF d]) simp
    also have "map (\<lambda>(n, c). (n, if n \<in> set rest then ?f c else c)) ?df'
        = map (\<lambda>(n, c). (n, if n \<in> set (col # rest) then ?f c else c)) df"
      using Cons.prems(2) by (auto simp: case_prod_unfold)
    finally show ?thesis using True s sc by simp
  qed
qed

subsection \<open>The readers on a whole frame\<close>

lemma processor_normalizes:
  assumes req: "list_all (has_col df) required_cols"
    and names: "distinct (map fst (rename_columns column_mapping df))"
    and dates: "get_series (rename_columns column_mapping df) ''Date'' = Some dcol"
    and parse: "to_datetime_format env (map (clean_date_text env) dcol) = Some ds"
  shows "process_indian_format env df
       = Some (normalized_columns (clean_numeric_cell env) ds
                 (rename_columns column_mapping df))"
proof -
  let ?df2 = "rename_columns column_mapping df"
  let ?cols = "[''Open'', ''High'', ''Low'', ''Close'', ''Volume'']"
  let ?g = "\<lambda>n c. if n \<in> set ?cols then map (clean_numeric_cell env) c else c"
  let ?df3 = "map (\<lambda>(n, c). (n, ?g n c)) ?df2"
  have m: "filter (\<lambda>col. \<not> has_col df col) required_cols = []"
    using req by (auto simp: filter_empty_conv list_all_iff)
  have n3: "clean_numeric_columns env ?cols ?df2 = Some ?df3"
    by (rule clean_numeric_columns_all[OF names]) simp
  have h3: "has_col ?df3 ''Date''"
    using get_series_has_col[OF dates] by (simp only: has_col_map_columns)
  have g3: "get_series ?df3 ''Date'' = Some dcol"
    by (simp only: get_series_map_columns dates) simp
  have p: "parse_dates_indian env (map (clean_date_text env) dcol) = Some ds"
    by (simp add: parse_dates_indian_def parse)
  have final: "set_col ''Date'' ds ?df3 = normalized_columns (clean_numeric_cell env) ds ?df2"
    unfolding set_col_existing[OF h3] normalized_columns_def numeric_names_def
    by (auto simp: case_prod_unfold)
  show ?thesis
    by (simp only: process_indian_format_def Let_def m n3 h3 g3 p final simp_thms if_True
        if_False bind.bind_lunit)
qed

lemma loader_normalizes:
  assumes req: "list_all (has_col (clean_columns raw)) (map fst loader_mapping)"
    and names: "distinct (map fst (rename_columns loader_mapping (clean_columns raw)))"
    and dates: "get_series (rename_columns loader_mapping (clean_columns raw)) ''Date''
                  = Some dcol"
    and texts: "str_accessor (\<lambda>t. strip (str_remove dquote t)) dcol = Some cleaned"
    and parse: "to_datetime_format env (map date_text cleaned) = Some ds"
  shows "load_indian_csv_body env raw
       = sort_and_select (normalized_columns (loader_numeric_cell env) ds
                            (rename_columns loader_mapping (clean_columns raw)))"
proof -
  let ?df1 = "rename_columns loader_mapping (clean_columns raw)"
  let ?cols = "[''Open'', ''High'', ''Low'', ''Close'', ''Volume'']"
  let ?df2 = "map (\<lambda>(m, c). (m, if m = ''Date'' then ds else c)) ?df1"
  have m: "filter (\<lambda>col. \<not> has_col (clean_columns raw) col) (map fst loader_mapping) = []"
    using req by (auto simp: filter_empty_conv list_all_iff)
  have p: "parse_dates_loader env (map date_text cleaned) = Some ds"
    by (simp add: parse_dates_loader_def parse)
  have s2: "set_col ''Date'' ds ?df1 = ?df2"
    by (rule set_col_existing[OF get_series_has_col[OF dates]])
  have d2: "distinct (map fst ?df2)" using names by (simp only: names_map_columns)
  have n3: "loader_numeric_columns env ?cols ?df2
      = Some (map (\<lambda>(n, c). (n, if n \<in> set ?cols then map (loader_numeric_cell env) c else c))
                ?df2)"
    by (rule loader_numeric_columns_all[OF d2]) simp
  have final: "map (\<lambda>(n, c). (n, if n \<in> set ?cols then map (loader_numeric_cell env) c else c))
                ?df2
      = normalized_columns (loader_numeric_cell env) ds ?df1"
    unfolding normalized_columns_def numeric_names_def by (auto simp: case_prod_unfold)
  show ?thesis
    by (simp only: load_indian_csv_body_def Let_def m dates texts p s2 n3 final simp_thms
        if_True if_False bind.bind_lunit)
qed

lemma cached_loader:
  "(map_of cache (key upload) = None \<longrightarrow>
      snd (load_indian_csv env read_csv key cache upload)
        = read_csv upload \<bind> load_indian_csv_body env)
   \<and> (\<forall>stored. map_of cache (key upload) = Some stored \<longrightarrow>
         load_indian_csv env read_csv key cache upload = (cache, Some stored))"
  by (auto simp: load_indian_csv_def split: option.splits)

subsection \<open>The row of the scenario\<close>

lemma format_first_indian:
  "to_datetime_format env texts = Some ds \<Longrightarrow> parse_dates_indian env texts = Some ds"
  by (simp add: parse_dates_indian_def)

lemma format_first_loader:
  "to_datetime_format env texts = Some ds \<Longrightarrow> parse_dates_loader env texts = Some ds"
  by (simp add: parse_dates_loader_def)

lemma scenario_texts:
  assumes "reads_plain_decimals env" "reads_day_month_year env"
  shows "to_numeric env ''1390.00'' = Num 1390" "to_numeric env ''1421.00'' = Num 1421"
    "to_numeric env ''1389.10'' = Num (13891 / 10)"
    "to_numeric env ''1420.10'' = Num (14201 / 10)"
    "to_numeric env ''14384719'' = Num 14384719"
    "to_datetime_format env [''19-Aug-2025''] = Some [Stamp (2025, 8, 19)]"
proof -
  have n: "plain_decimal s = Some x \<Longrightarrow> to_numeric env s = Num x" for s x
    using assms(1) by (simp add: reads_plain_decimals_def)
  show "to_numeric env ''1390.00'' = Num 1390" by (rule n) (simp add: reader_defs)
  show "to_numeric env ''1421.00'' = Num 1421" by (rule n) (simp add: reader_defs)
  show "to_numeric env ''1389.10'' = Num (13891 / 10)" by (rule n) (simp add: reader_defs)
  show "to_numeric env ''1420.10'' = Num (14201 / 10)" by (rule n) (simp add: reader_defs)
  show "to_numeric env ''14384719'' = Num 14384719" by (rule n) (simp add: reader_defs)
  have "those (map day_month_year [''19-Aug-2025'']) = Some [(2025, 8, 19)]"
    by (simp add: reader_defs)
  then have "to_datetime_format env [''19-Aug-2025''] = Some (map Stamp [(2025, 8, 19)])"
    using assms(2) unfolding reads_day_month_year_def by blast
  then show "to_datetime_format env [''19-Aug-2025''] = Some [Stamp (2025, 8, 19)]" by simp
qed

text \<open>The row of the scenario, once as the reader delivers it and once with the
  quotes still in the cells, under both readers.\<close>

lemma scenario_processor:
  assumes "reads_plain_decimals env" "reads_day_month_year env"
  shows "process_indian_format env
     [(''Date'', [Str ''19-Aug-2025'']), (''OPEN'', [Str ''1,390.00'']),
      (''HIGH'', [Str ''1,421.00'']), (''LOW'', [Str ''1,389.10'']),
      (''close'', [Str ''1,420.10'']), (''VOLUME'', [Str ''1,43,84,719''])]
   = Some
     [(''Date'', [Stamp (2025, 8, 19)]), (''Open'', [Val (Num 1390)]),
      (''High'', [Val (Num 1421)]), (''Low'', [Val (Num (13891 / 10))]),
      (''Close'', [Val (Num (14201 / 10))]), (''Volume'', [Val (Num 14384719)])]"
  by (simp add: normalizer_defs scenario_texts[OF assms])

lemma scenario_processor_quoted:
  assumes "reads_plain_decimals env" "reads_day_month_year env"
  shows "process_indian_format env
     [(''Date'', [Str (dquote # ''19-Aug-2025'' @ [dquote])]),
      (''OPEN'', [Str (dquote # ''1,390.00'' @ [dquote])]),
      (''HIGH'', [Str (dquote # ''1,421.00'' @ [dquote])]),
      (''LOW'', [Str (dquote # ''1,389.10'' @ [dquote])]),
      (''close'', [Str (dquote # ''1,420.10'' @ [dquote])]),
      (''VOLUME'', [Str (dquote # ''1,43,84,719'' @ [dquote])])]
   = Some
     [(''Date'', [Stamp (2025, 8, 19)]), (''Open'', [Val (Num 1390)]),
      (''High'', [Val (Num 1421)]), (''Low'', [Val (Num (13891 / 10))]),
      (''Close'', [Val (Num (14201 / 10))]), (''Volume'', [Val (Num 14384719)])]"
  by (simp add: normalizer_defs scenario_texts[OF assms])

lemma scenario_loader:
  assumes "reads_plain_decimals env" "reads_day_month_year env"
  shows "load_indian_csv_body env
     [(''Date'', [Str ''19-Aug-2025'']), (''OPEN'', [Str ''1,390.00'']),
      (''HIGH'', [Str ''1,421.00'']), (''LOW'', [Str ''1,389.10'']),
      (''close'', [Str ''1,420.10'']), (''VOLUME'', [Str ''1,43,84,719''])]
   = Some
     [(''Date'', [Stamp (2025, 8, 19)]), (''Open'', [Val (Num 1390)]),
      (''High'', [Val (Num 1421)]), (''Low'', [Val (Num (13891 / 10))]),
      (''Close'', [Val (Num (14201 / 10))]), (''Volume'', [Val (Num 14384719)])]"
  by (simp add: normalizer_defs scenario_texts[OF assms])

lemma scenario_loader_quoted:
  assumes "reads_plain_decimals env" "reads_day_month_year env"
  shows "load_indian_csv_body env
     [(''Date'', [Str (dquote # ''19-Aug-2025'' @ [dquote])]),
      (''OPEN'', [Str (dquote # ''1,390.00'' @ [dquote])]),
      (''HIGH'', [Str (dquote # ''1,421.00'' @ [dquote])]),
      (''LOW'', [Str (dquote # ''1,389.10'' @ [dquote])]),
      (''close'', [Str (dquote # ''1,420.10'' @ [dquote])]),
      (''VOLUME'', [Str (dquote # ''1,43,84,719'' @ [dquote])])]
   = Some
     [(''Date'', [Stamp (2025, 8, 19)]), (''Open'', [Val (Num 1390)]),
      (''High'', [Val (Num 1421)]), (''Low'', [Val (Num (13891 / 10))]),
      (''Close'', [Val (Num (14201 / 10))]), (''Volume'', [Val (Num 14384719)])]"
  by (simp add: normalizer_defs scenario_texts[OF assms])

lemma example_env_reads:
  "reads_plain_decimals example_env" "reads_day_month_year example_env"
  by (simp_all add: reads_plain_decimals_def reads_day_month_year_def example_env_def)

subsection \<open>What the two readers do to a frame\<close>

text \<open>
  Claim C7. Both readers of the Indian format clean every cell of each of the
  five numeric columns, in every row, before they coerce it: on a frame that
  has the six columns of the format and no two columns of one name after the
  renaming, \<open>_process_indian_format\<close> returns the renamed frame in which every
  cell of a numeric column is the coerced text of the cell with every quote and
  every comma removed and the blanks at its ends stripped, and the column
  \<open>Date\<close> holds the dates that \<open>pd.to_datetime\<close> reads with the format
  day-month(abbreviated)-year whenever it reads the column with that format,
  whatever the guessing parsers would say. The body of \<open>load_indian_csv\<close> makes
  the same frame, without the stripping of blanks, and sorts it, drops rows and
  selects the six columns; the method returns the result of its body on a cache
  miss and the stored frame on a hit. A comma or a quote anywhere in the text of
  a numeric cell does not change what the cell is coerced to, and a cell whose
  cleaned text is a short plain decimal becomes that number, provided pandas
  reads short plain decimals as their value. Provided also that pandas reads
  dates of the form day-month-year with the format, the row of the scenario,
  with or without the quotes in its cells, normalizes to the date 2025-08-19
  and the numbers 1390.00, 1421.00, 1389.10, 1420.10 and 14384719.
\<close>

theorem indian_normalization:
  assumes num: "reads_plain_decimals env" and dat: "reads_day_month_year env"
  shows "(list_all (has_col df) required_cols
        \<and> distinct (map fst (rename_columns column_mapping df))
        \<and> get_series (rename_columns column_mapping df) ''Date'' = Some dcol
        \<and> to_datetime_format env (map (clean_date_text env) dcol) = Some ds
      \<longrightarrow> process_indian_format env df
            = Some (normalized_columns (clean_numeric_cell env) ds
                      (rename_columns column_mapping df)))
   \<and> (list_all (has_col (clean_columns raw)) (map fst loader_mapping)
        \<and> distinct (map fst (rename_columns loader_mapping (clean_columns raw)))
        \<and> get_series (rename_columns loader_mapping (clean_columns raw)) ''Date'' = Some lcol
        \<and> str_accessor (\<lambda>t. strip (str_remove dquote t)) lcol = Some cleaned
        \<and> to_datetime_format env (map date_text cleaned) = Some lds
      \<longrightarrow> load_indian_csv_body env raw
            = sort_and_select (normalized_columns (loader_numeric_cell env) lds
                                 (rename_columns loader_mapping (clean_columns raw))))
   \<and> (map_of cache (key upload) = None \<longrightarrow>
        snd (load_indian_csv env read_csv key cache upload)
          = read_csv upload \<bind> load_indian_csv_body env)
   \<and> (\<forall>stored. map_of cache (key upload) = Some stored \<longrightarrow>
        load_indian_csv env read_csv key cache upload = (cache, Some stored))
   \<and> clean_numeric_cell env (Str t)
       = Val (to_numeric env (strip (str_remove CHR '','' (str_remove dquote t))))
   \<and> loader_numeric_cell env (Str t)
       = Val (to_numeric env (str_remove CHR '','' (str_remove dquote t)))
   \<and> (\<forall>x. plain_decimal (strip (str_remove CHR '','' (str_remove dquote t))) = Some x
         \<longrightarrow> clean_numeric_cell env (Str t) = Val (Num x))
   \<and> (\<forall>x. plain_decimal (str_remove CHR '','' (str_remove dquote t)) = Some x
         \<longrightarrow> loader_numeric_cell env (Str t) = Val (Num x))
   \<and> clean_numeric_cell env (Str (a @ CHR '','' # b)) = clean_numeric_cell env (Str (a @ b))
   \<and> clean_numeric_cell env (Str (a @ dquote # b)) = clean_numeric_cell env (Str (a @ b))
   \<and> loader_numeric_cell env (Str (a @ CHR '','' # b)) = loader_numeric_cell env (Str (a @ b))
   \<and> loader_numeric_cell env (Str (a @ dquote # b)) = loader_numeric_cell env (Str (a @ b))
   \<and> (to_datetime_format env texts \<noteq> None \<longrightarrow>
        parse_dates_indian env texts = to_datetime_format env texts
        \<and> parse_dates_loader env texts = to_datetime_format env texts)
   \<and> process_indian_format env
     [(''Date'', [Str ''19-Aug-2025'']), (''OPEN'', [Str ''1,390.00'']),
      (''HIGH'', [Str ''1,421.00'']), (''LOW'', [Str ''1,389.10'']),
      (''close'', [Str ''1,420.10'']), (''VOLUME'', [Str ''1,43,84,719''])]
   = Some
     [(''Date'', [Stamp (2025, 8, 19)]), (''Open'', [Val (Num 1390)]),
      (''High'', [Val (Num 1421)]), (''Low'', [Val (Num (13891 / 10))]),
      (''Close'', [Val (Num (14201 / 10))]), (''Volume'', [Val (Num 14384719)])]
   \<and> process_indian_format env
     [(''Date'', [Str (dquote # ''19-Aug-2025'' @ [dquote])]),
      (''OPEN'', [Str (dquote # ''1,390.00'' @ [dquote])]),
      (''HIGH'', [Str (dquote # ''1,421.00'' @ [dquote])]),
      (''LOW'', [Str (dquote # ''1,389.10'' @ [dquote])]),
      (''close'', [Str (dquote # ''1,420.10'' @ [dquote])]),
      (''VOLUME'', [Str (dquote # ''1,43,84,719'' @ [dquote])])]
   = Some
     [(''Date'', [Stamp (2025, 8, 19)]), (''Open'', [Val (Num 1390)]),
      (''High'', [Val (Num 1421)]), (''Low'', [Val (Num (13891 / 10))]),
      (''Close'', [Val (Num (14201 / 10))]), (''Volume'', [Val (Num 14384719)])]
   \<and> load_indian_csv_body env
     [(''Date'', [Str ''19-Aug-2025'']), (''OPEN'', [Str ''1,390.00'']),
      (''HIGH'', [Str ''1,421.00'']), (''LOW'', [Str ''1,389.10'']),
      (''close'', [Str ''1,420.10'']), (''VOLUME'', [Str ''1,43,84,719''])]
   = Some
     [(''Date'', [Stamp (2025, 8, 19)]), (''Open'', [Val (Num 1390)]),
      (''High'', [Val (Num 1421)]), (''Low'', [Val (Num (13891 / 10))]),
      (''Close'', [Val (Num (14201 / 10))]), (''Volume'', [Val (Num 14384719)])]
   \<and> load_indian_csv_body env
     [(''Date'', [Str (dquote # ''19-Aug-2025'' @ [dquote])]),
      (''OPEN'', [Str (dquote # ''1,390.00'' @ [dquote])]),
      (''HIGH'', [Str (dquote # ''1,421.00'' @ [dquote])]),
      (''LOW'', [Str (dquote # ''1,389.10'' @ [dquote])]),
      (''close'', [Str (dquote # ''1,420.10'' @ [dquote])]),
      (''VOLUME'', [Str (dquote # ''1,43,84,719'' @ [dquote])])]
   = Some
     [(''Date'', [Stamp (2025, 8, 19)]), (''Open'', [Val (Num 1390)]),
      (''High'', [Val (Num 1421)]), (''Low'', [Val (Num (13891 / 10))]),
      (''Close'', [Val (Num (14201 / 10))]), (''Volume'', [Val (Num 14384719)])]"
proof -
  have A: "list_all (has_col df) required_cols
        \<and> distinct (map fst (rename_columns column_mapping df))
        \<and> get_series (rename_columns column_mapping df) ''Date'' = Some dcol
        \<and> to_datetime_format env (map (clean_date_text env) dcol) = Some ds
      \<longrightarrow> process_indian_format env df
            = Some (normalized_columns (clean_numeric_cell env) ds
                      (rename_columns column_mapping df))"
    using processor_normalizes by blast
  have B: "list_all (has_col (clean_columns raw)) (map fst loader_mapping)
        \<and> distinct (map fst (rename_columns loader_mapping (clean_columns raw)))
        \<and> get_series (rename_columns loader_mapping (clean_columns raw)) ''Date'' = Some lcol
        \<and> str_accessor (\<lambda>t. strip (str_remove dquote t)) lcol = Some cleaned
        \<and> to_datetime_format env (map date_text cleaned) = Some lds
      \<longrightarrow> load_indian_csv_body env raw
            = sort_and_select (normalized_columns (loader_numeric_cell env) lds
                                 (rename_columns loader_mapping (clean_columns raw)))"
    using loader_normalizes by blast
  have C1: "map_of cache (key upload) = None \<longrightarrow>
        snd (load_indian_csv env read_csv key cache upload)
          = read_csv upload \<bind> load_indian_csv_body env"
    and C2: "\<forall>stored. map_of cache (key upload) = Some stored \<longrightarrow>
        load_indian_csv env read_csv key cache upload = (cache, Some stored)"
    using cached_loader[of cache key upload env read_csv] by blast+
  have e1: "clean_numeric_cell env (Str t)
       = Val (to_numeric env (strip (str_remove CHR '','' (str_remove dquote t))))"
    by (simp add: clean_numeric_cell_def astype_str_def)
  have e2: "loader_numeric_cell env (Str t)
       = Val (to_numeric env (str_remove CHR '','' (str_remove dquote t)))"
    by (simp add: loader_numeric_cell_def astype_str_def)
  have v1: "\<forall>x. plain_decimal (strip (str_remove CHR '','' (str_remove dquote t))) = Some x
         \<longrightarrow> clean_numeric_cell env (Str t) = Val (Num x)"
    using num by (simp add: e1 reads_plain_decimals_def)
  have v2: "\<forall>x. plain_decimal (str_remove CHR '','' (str_remove dquote t)) = Some x
         \<longrightarrow> loader_numeric_cell env (Str t) = Val (Num x)"
    using num by (simp add: e2 reads_plain_decimals_def)
  have comma: "str_remove CHR '','' (str_remove dquote (a @ CHR '','' # b))
      = str_remove CHR '','' (str_remove dquote (a @ b))"
    by (simp add: str_remove_def dquote_def)
  have quote: "str_remove CHR '','' (str_remove dquote (a @ dquote # b))
      = str_remove CHR '','' (str_remove dquote (a @ b))"
    by (simp add: str_remove_def)
  have c1: "clean_numeric_cell env (Str (a @ CHR '','' # b)) = clean_numeric_cell env (Str (a @ b))"
    by (simp add: clean_numeric_cell_def astype_str_def comma)
  have c2: "clean_numeric_cell env (Str (a @ dquote # b)) = clean_numeric_cell env (Str (a @ b))"
    by (simp add: clean_numeric_cell_def astype_str_def quote)
  have l1: "loader_numeric_cell env (Str (a @ CHR '','' # b)) = loader_numeric_cell env (Str (a @ b))"
    by (simp add: loader_numeric_cell_def astype_str_def comma)
  have l2: "loader_numeric_cell env (Str (a @ dquote # b)) = loader_numeric_cell env (Str (a @ b))"
    by (simp add: loader_numeric_cell_def astype_str_def quote)
  have d: "to_datetime_format env texts \<noteq> None \<longrightarrow>
        parse_dates_indian env texts = to_datetime_format env texts
        \<and> parse_dates_loader env texts = to_datetime_format env texts"
    by (auto simp: format_first_indian format_first_loader)
  show ?thesis
    by (intro conjI A B C1 C2 e1 e2 v1 v2 c1 c2 l1 l2 d scenario_processor[OF num dat]
        scenario_processor_quoted[OF num dat] scenario_loader[OF num dat]
        scenario_loader_quoted[OF num dat])
qed

text \<open>
  With the stand-in of the library: a frame of two rows, on which both numeric
  cells of every column are cleaned, and the row of the scenario.
\<close>

theorem indian_normalization_witness:
  "process_indian_format example_env
     [(''Date'', [Str ''19-Aug-2025'', Str ''20-Aug-2025'']),
      (''OPEN'', [Str ''1,390.00'', Str ''1,400.50'']),
      (''HIGH'', [Str ''1,421.00'', Str ''1,425.00'']),
      (''LOW'', [Str ''1,389.10'', Str ''1,399.00'']),
      (''close'', [Str ''1,420.10'', Str ''1,410.00'']),
      (''VOLUME'', [Str ''1,43,84,719'', Str ''98,76,543''])]
   = Some
     [(''Date'', [Stamp (2025, 8, 19), Stamp (2025, 8, 20)]),
      (''Open'', [Val (Num 1390), Val (Num (2801 / 2))]),
      (''High'', [Val (Num 1421), Val (Num 1425)]),
      (''Low'', [Val (Num (13891 / 10)), Val (Num 1399)]),
      (''Close'', [Val (Num (14201 / 10)), Val (Num 1410)]),
      (''Volume'', [Val (Num 14384719), Val (Num 9876543)])]
   \<and> process_indian_format example_env
     [(''Date'', [Str ''19-Aug-2025'']), (''OPEN'', [Str ''1,390.00'']),
      (''HIGH'', [Str ''1,421.00'']), (''LOW'', [Str ''1,389.10'']),
      (''close'', [Str ''1,420.10'']), (''VOLUME'', [Str ''1,43,84,719''])]
   = Some
     [(''Date'', [Stamp (2025, 8, 19)]), (''Open'', [Val (Num 1390)]),
      (''High'', [Val (Num 1421)]), (''Low'', [Val (Num (13891 / 10))]),
      (''Close'', [Val (Num (14201 / 10))]), (''Volume'', [Val (Num 14384719)])]
   \<and> load_indian_csv_body example_env
     [(''Date'', [Str (dquote # ''19-Aug-2025'' @ [dquote])]),
      (''OPEN'', [Str (dquote # ''1,390.00'' @ [dquote])]),
      (''HIGH'', [Str (dquote # ''1,421.00'' @ [dquote])]),
      (''LOW'', [Str (dquote # ''1,389.10'' @ [dquote])]),
      (''close'', [Str (dquote # ''1,420.10'' @ [dquote])]),
      (''VOLUME'', [Str (dquote # ''1,43,84,719'' @ [dquote])])]
   = Some
     [(''Date'', [Stamp (2025, 8, 19)]), (''Open'', [Val (Num 1390)]),
      (''High'', [Val (Num 1421)]), (''Low'', [Val (Num (13891 / 10))]),
      (''Close'', [Val (Num (14201 / 10))]), (''Volume'', [Val (Num 14384719)])]"
proof -
  let ?df = "[(''Date'', [Str ''19-Aug-2025'', Str ''20-Aug-2025'']),
      (''OPEN'', [Str ''1,390.00'', Str ''1,400.50'']),
      (''HIGH'', [Str ''1,421.00'', Str ''1,425.00'']),
      (''LOW'', [Str ''1,389.10'', Str ''1,399.00'']),
      (''close'', [Str ''1,420.10'', Str ''1,410.00'']),
      (''VOLUME'', [Str ''1,43,84,719'', Str ''98,76,543''])]"
  let ?dcol = "[Str ''19-Aug-2025'', Str ''20-Aug-2025'']"
  let ?ds = "[Stamp (2025, 8, 19), Stamp (2025, 8, 20)]"
  note inst = indian_normalization[OF example_env_reads, where df = ?df and dcol = ?dcol
      and ds = ?ds and raw = "[]" and lcol = "[]" and cleaned = "[]" and lds = "[]"
      and cache = "[]" and key = "\<lambda>u::nat. u" and upload = 0 and read_csv = "\<lambda>u. None"
      and t = "[]" and a = "[]" and b = "[]" and texts = "[]"]
  have h1: "list_all (has_col ?df) required_cols"
    by (simp add: has_col_def required_cols_def)
  have h2: "distinct (map fst (rename_columns column_mapping ?df))"
    by (simp add: rename_columns_def column_mapping_def)
  have h3: "get_series (rename_columns column_mapping ?df) ''Date'' = Some ?dcol"
    by (simp add: rename_columns_def column_mapping_def get_series_def)
  have h4: "to_datetime_format example_env (map (clean_date_text example_env) ?dcol) = Some ?ds"
    by (simp add: example_env_def reader_defs clean_date_text_def astype_str_def strip_def
        is_space_def str_remove_def dquote_def)
  have "process_indian_format example_env ?df
      = Some (normalized_columns (clean_numeric_cell example_env) ?ds
                (rename_columns column_mapping ?df))"
    using inst h1 h2 h3 h4 by blast
  moreover have "normalized_columns (clean_numeric_cell example_env) ?ds
                (rename_columns column_mapping ?df)
      = [(''Date'', [Stamp (2025, 8, 19), Stamp (2025, 8, 20)]),
      (''Open'', [Val (Num 1390), Val (Num (2801 / 2))]),
      (''High'', [Val (Num 1421), Val (Num 1425)]),
      (''Low'', [Val (Num (13891 / 10)), Val (Num 1399)]),
      (''Close'', [Val (Num (14201 / 10)), Val (Num 1410)]),
      (''Volume'', [Val (Num 14384719), Val (Num 9876543)])]"
    by (simp add: normalized_columns_def numeric_names_def rename_columns_def column_mapping_def
        clean_numeric_cell_def astype_str_def strip_def is_space_def str_remove_def dquote_def
        example_env_def reader_defs)
  ultimately have two: "process_indian_format example_env ?df = Some
     [(''Date'', [Stamp (2025, 8, 19), Stamp (2025, 8, 20)]),
      (''Open'', [Val (Num 1390), Val (Num (2801 / 2))]),
      (''High'', [Val (Num 1421), Val (Num 1425)]),
      (''Low'', [Val (Num (13891 / 10)), Val (Num 1399)]),
      (''Close'', [Val (Num (14201 / 10)), Val (Num 1410)]),
      (''Volume'', [Val (Num 14384719), Val (Num 9876543)])]"
    by simp
  from inst have "process_indian_format example_env
     [(''Date'', [Str ''19-Aug-2025'']), (''OPEN'', [Str ''1,390.00'']),
      (''HIGH'', [Str ''1,421.00'']), (''LOW'', [Str ''1,389.10'']),
      (''close'', [Str ''1,420.10'']), (''VOLUME'', [Str ''1,43,84,719''])]
   = Some
     [(''Date'', [Stamp (2025, 8, 19)]), (''Open'', [Val (Num 1390)]),
      (''High'', [Val (Num 1421)]), (''Low'', [Val (Num (13891 / 10))]),
      (''Close'', [Val (Num (14201 / 10))]), (''Volume'', [Val (Num 14384719)])]" by blast
  moreover from inst have "load_indian_csv_body example_env
     [(''Date'', [Str (dquote # ''19-Aug-2025'' @ [dquote])]),
      (''OPEN'', [Str (dquote # ''1,390.00'' @ [dquote])]),
      (''HIGH'', [Str (dquote # ''1,421.00'' @ [dquote])]),
      (''LOW'', [Str (dquote # ''1,389.10'' @ [dquote])]),
      (''close'', [Str (dquote # ''1,420.10'' @ [dquote])]),
      (''VOLUME'', [Str (dquote # ''1,43,84,719'' @ [dquote])])]
   = Some
     [(''Date'', [Stamp (2025, 8, 19)]), (''Open'', [Val (Num 1390)]),
      (''High'', [Val (Num 1421)]), (''Low'', [Val (Num (13891 / 10))]),
      (''Close'', [Val (Num (14201 / 10))]), (''Volume'', [Val (Num 14384719)])]" by blast
  ultimately show ?thesis using two by blast
qed

section \<open>Properties of the indicator engine\<close>

subsection \<open>Order of doubles\<close>

lemma finite_not_nan: "is_finite a \<Longrightarrow> \<not> isna a"
  by (cases a) auto

lemma fle_refl: "\<not> isna a \<Longrightarrow> fle a a"
  by (cases a) auto

lemma fle_trans: "fle a b \<Longrightarrow> fle b c \<Longrightarrow> fle a c"
  by (cases a; cases b; cases c) auto

lemma fle_antisym: "fle a b \<Longrightarrow> fle b a \<Longrightarrow> a = b"
  by (cases a; cases b) auto

lemma fle_not_nan: "fle a b \<Longrightarrow> \<not> isna a \<and> \<not> isna b"
  by (cases a; cases b) auto

lemma feq_same: "feq a b \<Longrightarrow> a = b \<and> \<not> isna a"
  by (cases a; cases b) auto

lemma fmin_le: "\<not> isna a \<Longrightarrow> \<not> isna b \<Longrightarrow> fle (fmin a b) a \<and> fle (fmin a b) b \<and> \<not> isna (fmin a b)"
  by (cases a; cases b) (auto simp: fmin_def)

lemma fmax_ge: "\<not> isna a \<Longrightarrow> \<not> isna b \<Longrightarrow> fle a (fmax a b) \<and> fle b (fmax a b) \<and> \<not> isna (fmax a b)"
  by (cases a; cases b) (auto simp: fmax_def)

lemma foldl_fmin_le:
  assumes "\<not> isna a" "\<forall>x\<in>set xs. \<not> isna x"
  shows "fle (foldl fmin a xs) a \<and> (\<forall>x\<in>set xs. fle (foldl fmin a xs) x) \<and> \<not> isna (foldl fmin a xs)"
  using assms
proof (induction xs arbitrary: a)
  case Nil
  then show ?case by (simp add: fle_refl)
next
  case (Cons y ys)
  have m: "fle (fmin a y) a" "fle (fmin a y) y" "\<not> isna (fmin a y)"
    using fmin_le[of a y] Cons.prems by auto
  have ih: "fle (foldl fmin (fmin a y) ys) (fmin a y)"
    "\<forall>x\<in>set ys. fle (foldl fmin (fmin a y) ys) x" "\<not> isna (foldl fmin (fmin a y) ys)"
    using Cons.IH[of "fmin a y"] m(3) Cons.prems(2) by auto
  show ?case using ih m by (auto intro: fle_trans)
qed

lemma foldl_fmax_ge:
  assumes "\<not> isna a" "\<forall>x\<in>set xs. \<not> isna x"
  shows "fle a (foldl fmax a xs) \<and> (\<forall>x\<in>set xs. fle x (foldl fmax a xs)) \<and> \<not> isna (foldl fmax a xs)"
  using assms
proof (induction xs arbitrary: a)
  case Nil
  then show ?case by (simp add: fle_refl)
next
  case (Cons y ys)
  have m: "fle a (fmax a y)" "fle y (fmax a y)" "\<not> isna (fmax a y)"
    using fmax_ge[of a y] Cons.prems by auto
  have ih: "fle (fmax a y) (foldl fmax (fmax a y) ys)"
    "\<forall>x\<in>set ys. fle x (foldl fmax (fmax a y) ys)" "\<not> isna (foldl fmax (fmax a y) ys)"
    using Cons.IH[of "fmax a y"] m(3) Cons.prems(2) by auto
  show ?case using ih m by (auto intro: fle_trans)
qed

lemma agg_min_le: "\<forall>x\<in>set xs. \<not> isna x \<Longrightarrow> x \<in> set xs \<Longrightarrow> fle (agg_min xs) x"
  using foldl_fmin_le by (cases xs) (auto simp: agg_min_def)

lemma agg_max_ge: "\<forall>x\<in>set xs. \<not> isna x \<Longrightarrow> x \<in> set xs \<Longrightarrow> fle x (agg_max xs)"
  using foldl_fmax_ge by (cases xs) (auto simp: agg_max_def)

subsection \<open>Rolling windows\<close>

lemma length_rolling [simp]: "length (rolling w agg xs) = length xs"
  by (simp add: rolling_def)

lemma rolling_nth:
  "i < length xs \<Longrightarrow> rolling w agg xs ! i =
     (if i + 1 < w \<or> list_ex (\<lambda>x. \<not> is_finite x) (window_at w i xs) then NaN
      else agg (window_at w i xs))"
  by (simp add: rolling_def)

lemma last_in_window:
  assumes "i < length xs" "0 < w"
  shows "xs ! i \<in> set (window_at w i xs)"
proof -
  let ?k = "i + 1 - w"
  have k: "?k \<le> i" using assms(2) by linarith
  have "xs ! i = drop ?k xs ! (i - ?k)" using assms k by simp
  moreover have "i - ?k < w" using assms(2) by linarith
  moreover have "i - ?k < length (drop ?k xs)" using assms by simp
  ultimately show ?thesis
    unfolding window_at_def by (metis in_set_conv_nth length_take min_less_iff_conj nth_take)
qed

lemma rolling_min_le:
  assumes "i < length xs" "0 < w" "\<not> isna (rolling w agg_min xs ! i)"
  shows "fle (rolling w agg_min xs ! i) (xs ! i)"
proof -
  from assms(3) have a: "\<not> list_ex (\<lambda>x. \<not> is_finite x) (window_at w i xs)"
    and r: "rolling w agg_min xs ! i = agg_min (window_at w i xs)"
    by (auto simp: rolling_nth[OF assms(1)] split: if_splits)
  from a have "\<forall>x\<in>set (window_at w i xs). \<not> isna x"
    by (auto simp: list_ex_iff dest: finite_not_nan)
  from agg_min_le[OF this last_in_window[OF assms(1,2)]] show ?thesis by (simp add: r)
qed

lemma rolling_max_ge:
  assumes "i < length xs" "0 < w" "\<not> isna (rolling w agg_max xs ! i)"
  shows "fle (xs ! i) (rolling w agg_max xs ! i)"
proof -
  from assms(3) have a: "\<not> list_ex (\<lambda>x. \<not> is_finite x) (window_at w i xs)"
    and r: "rolling w agg_max xs ! i = agg_max (window_at w i xs)"
    by (auto simp: rolling_nth[OF assms(1)] split: if_splits)
  from a have "\<forall>x\<in>set (window_at w i xs). \<not> isna x"
    by (auto simp: list_ex_iff dest: finite_not_nan)
  from agg_max_ge[OF this last_in_window[OF assms(1,2)]] show ?thesis by (simp add: r)
qed

subsection \<open>The stochastic oscillator at a zero range\<close>

lemma stoch_k_nth:
  assumes "i < length close" "length high = length close" "length low = length close"
  shows "stoch_k close high low ! i =
     fmul (fdiv (fsub (close ! i) (rolling 14 agg_min low ! i))
                (fsub (rolling 14 agg_max high ! i) (rolling 14 agg_min low ! i))) (Num 100)"
  using assms by (simp add: stoch_k_def col_scale_def col_div_def col_sub_def)

lemma zero_range_value:
  assumes "feq hi lo"
  shows "fmul (fdiv (fsub c lo) (fsub hi lo)) (Num 100) =
     (case (c, lo) of
        (Num x, Num l) \<Rightarrow> if x = l then NaN else if l < x then PosInf else NegInf
      | (PosInf, Num l) \<Rightarrow> PosInf
      | (NegInf, Num l) \<Rightarrow> NegInf
      | _ \<Rightarrow> NaN)"
  using assms by (cases hi; cases lo; cases c) (auto simp: fsub_def inf_of_sign_def)

lemmas indicator_defs =
  stoch_k_def col_scale_def col_div_def col_sub_def col_add_def col_mul_def col_over_def
  rolling_def window_at_def agg_min_def agg_max_def agg_mean_def fmin_def fmax_def fsub_def
  inf_of_sign_def cumsum_def vwap_def


text \<open>
  Claim C10, as the code has it. At every row where the rolling maximum of High
  over 14 rows equals the rolling minimum of Low, the value of \<open>Stoch_K\<close> is
  never a finite number, and computing it raises nothing: it is NaN when the
  close of the row equals that minimum, which is the case whenever
  \<open>Low \<le> Close \<le> High\<close> holds in the row, it is \<open>+inf\<close> when the close is above
  and \<open>-inf\<close> when it is below. The infinities are not missing values.
\<close>

theorem stochastic_zero_range:
  assumes len: "i < length close" "length high = length close" "length low = length close"
    and zero: "feq (rolling 14 agg_max high ! i) (rolling 14 agg_min low ! i)"
  shows "\<not> is_finite (stoch_k close high low ! i)
    \<and> (fle (low ! i) (close ! i) \<and> fle (close ! i) (high ! i)
        \<longrightarrow> stoch_k close high low ! i = NaN)
    \<and> (\<forall>x l. close ! i = Num x \<and> rolling 14 agg_min low ! i = Num l
        \<longrightarrow> stoch_k close high low ! i
            = (if x = l then NaN else if l < x then PosInf else NegInf))"
proof -
  let ?hi = "rolling 14 agg_max high ! i" and ?lo = "rolling 14 agg_min low ! i"
  let ?k = "stoch_k close high low ! i"
  have same: "?hi = ?lo" and nn: "\<not> isna ?lo" "\<not> isna ?hi"
    using feq_same[OF zero] by auto
  have k: "?k = (case (close ! i, ?lo) of
        (Num x, Num l) \<Rightarrow> if x = l then NaN else if l < x then PosInf else NegInf
      | (PosInf, Num l) \<Rightarrow> PosInf
      | (NegInf, Num l) \<Rightarrow> NegInf
      | _ \<Rightarrow> NaN)"
    unfolding stoch_k_nth[OF len] by (rule zero_range_value[OF zero])
  have a: "\<not> is_finite ?k"
    unfolding k by (cases "close ! i"; cases ?lo) auto
  have b: "?k = NaN" if c: "fle (low ! i) (close ! i)" "fle (close ! i) (high ! i)"
  proof -
    have il: "i < length low" and ih: "i < length high" using len by auto
    have "fle ?lo (low ! i)" by (rule rolling_min_le[OF il _ nn(1)]) simp
    then have l1: "fle ?lo (close ! i)" using c(1) by (rule fle_trans)
    have "fle (high ! i) ?hi" by (rule rolling_max_ge[OF ih _ nn(2)]) simp
    with c(2) have "fle (close ! i) ?hi" by (rule fle_trans)
    then have "fle (close ! i) ?lo" by (simp add: same)
    then have "close ! i = ?lo" using fle_antisym[OF _ l1] by simp
    then show ?thesis unfolding k by (cases ?lo) auto
  qed
  have c: "?k = (if x = l then NaN else if l < x then PosInf else NegInf)"
    if "close ! i = Num x" "?lo = Num l" for x l
    unfolding k using that by simp
  from a b c show ?thesis by blast
qed

lemma flat_high:
  "rolling 14 agg_max
     [Num 3, Num 3, Num 3, Num 3, Num 3, Num 3, Num 3, Num 3, Num 3, Num 3, Num 3, Num 3,
     Num 3, Num 3] ! 13 = Num 3"
  by (simp add: indicator_defs)

lemma flat_low:
  "rolling 14 agg_min
     [Num 3, Num 3, Num 3, Num 3, Num 3, Num 3, Num 3, Num 3, Num 3, Num 3, Num 3, Num 3,
     Num 3, Num 3] ! 13 = Num 3"
  by (simp add: indicator_defs)


text \<open>Fourteen rows with High and Low at 3 and all closes at 3: \<open>0 / 0\<close>, NaN.\<close>

theorem stochastic_zero_range_witness:
  "stoch_k (map Num [3, 3, 3, 3, 3, 3, 3, 3, 3, 3, 3, 3, 3, 3])
       (map Num [3, 3, 3, 3, 3, 3, 3, 3, 3, 3, 3, 3, 3, 3])
       (map Num [3, 3, 3, 3, 3, 3, 3, 3, 3, 3, 3, 3, 3, 3]) ! 13 = NaN"
proof -
  let ?h = "map Num [3, 3, 3, 3, 3, 3, 3, 3, 3, 3, 3, 3, 3, 3]"
  have z: "feq (rolling 14 agg_max ?h ! 13) (rolling 14 agg_min ?h ! 13)"
    by (simp add: flat_high flat_low)
  have "fle (?h ! 13) (?h ! 13)" by simp
  with stochastic_zero_range[of 13 ?h ?h ?h, OF _ _ _ z] show ?thesis by simp
qed

text \<open>
  The claim as the specification states it fails: fourteen rows with High and
  Low at 3 and the last close at 5 give \<open>(5 - 3) / 0 * 100\<close>, which is
  \<open>+inf\<close> and not missing.
\<close>

theorem stochastic_zero_range_counterexample:
  "feq (rolling 14 agg_max (map Num [3, 3, 3, 3, 3, 3, 3, 3, 3, 3, 3, 3, 3, 3]) ! 13)
       (rolling 14 agg_min (map Num [3, 3, 3, 3, 3, 3, 3, 3, 3, 3, 3, 3, 3, 3]) ! 13)
   \<and> stoch_k (map Num [3, 3, 3, 3, 3, 3, 3, 3, 3, 3, 3, 3, 3, 5])
       (map Num [3, 3, 3, 3, 3, 3, 3, 3, 3, 3, 3, 3, 3, 3])
       (map Num [3, 3, 3, 3, 3, 3, 3, 3, 3, 3, 3, 3, 3, 3]) ! 13 = PosInf"
proof -
  let ?h = "map Num [3, 3, 3, 3, 3, 3, 3, 3, 3, 3, 3, 3, 3, 3]"
  let ?c = "map Num [3, 3, 3, 3, 3, 3, 3, 3, 3, 3, 3, 3, 3, 5]"
  have "stoch_k ?c ?h ?h ! 13 = PosInf"
    by (simp add: stoch_k_nth flat_high flat_low fsub_def inf_of_sign_def)
  then show ?thesis by (simp add: flat_high flat_low)
qed

subsection \<open>Columns of a frame\<close>




subsection \<open>Statements that assign columns\<close>








subsection \<open>The input frame of the indicator computation\<close>




text \<open>
  A second call on a frame of the same content finds the result of the first in
  the table: the frame it is given, at position 1, keeps its six columns, and
  the result is a third frame.
\<close>

lemma second_call_is_hit:
  "(case calculate_indicators warmup_lib (\<lambda>f. f) [] [two_bars] 0 of
      (cache', s', r) \<Rightarrow>
        (case calculate_indicators warmup_lib (\<lambda>f. f) cache' (s' @ [two_bars]) 1 of
           (cache'', s'', r') \<Rightarrow>
             r' = Some 2 \<and> s'' ! 1 = two_bars \<and> s'' ! 2 = s' ! 0 \<and> cache'' = cache'))"
  by (simp add: calculate_indicators_def ta_statements_def assign_def on_close_def on_HLC_def
      getcol_def has_col_def set_col_def warmup_lib_def two_bars_def indicator_defs)

section \<open>Properties of the analysis run\<close>

subsection \<open>Bodies that append\<close>

lemma body_appends_iff: "body_appends g \<longleftrightarrow> (\<exists>r. \<forall>st. g st = map_option (\<lambda>d. extend d st) r)"
  by (simp add: body_appends_def extend_def case_prod_unfold)

lemma extend_extend: "extend e (extend d st) = extend (fst d @ fst e, snd d @ snd e) st"
  by (simp add: extend_def)

lemma body_appendsI: "(\<And>st. g st = map_option (\<lambda>d. extend d st) r) \<Longrightarrow> body_appends g"
  unfolding body_appends_iff by blast

lemma body_appends_Some: "body_appends (\<lambda>st. Some st)"
  by (rule body_appendsI[where r = "Some ([], [])"]) (simp add: extend_def)

lemma body_appends_None: "body_appends (\<lambda>st. None)"
  by (rule body_appendsI[where r = None]) simp

lemma body_appends_add_signal:
  assumes "body_appends (\<lambda>st. Some (F st))"
  shows "body_appends (\<lambda>st. Some (add_signal x (F st)))"
proof -
  from assms obtain r where r: "\<And>st. Some (F st) = map_option (\<lambda>d. extend d st) r"
    unfolding body_appends_iff by blast
  then obtain d where d: "r = Some d" by (cases r) auto
  have "F st = extend d st" for st using r[of st] d by simp
  then show ?thesis
    by (intro body_appendsI[where r = "Some (fst d @ [x], snd d)"])
      (simp add: extend_def add_signal_def)
qed

lemma body_appends_add_point:
  assumes "body_appends (\<lambda>st. Some (F st))"
  shows "body_appends (\<lambda>st. Some (add_point x (F st)))"
proof -
  from assms obtain r where r: "\<And>st. Some (F st) = map_option (\<lambda>d. extend d st) r"
    unfolding body_appends_iff by blast
  then obtain d where d: "r = Some d" by (cases r) auto
  have "F st = extend d st" for st using r[of st] d by simp
  then show ?thesis
    by (intro body_appendsI[where r = "Some (fst d, snd d @ [x])"])
      (simp add: extend_def add_point_def)
qed

lemma body_appends_if: "body_appends g \<Longrightarrow> body_appends h \<Longrightarrow> body_appends (\<lambda>st. if c then g st else h st)"
  by (cases c) simp_all

lemma body_appends_Some_if:
  "body_appends (\<lambda>st. Some (F st)) \<Longrightarrow> body_appends (\<lambda>st. Some (G st))
   \<Longrightarrow> body_appends (\<lambda>st. Some (if c then F st else G st))"
  by (cases c) simp_all

lemma body_appends_bind_value:
  assumes "\<And>v. body_appends (g v)"
  shows "body_appends (\<lambda>st. x \<bind> (\<lambda>v. g v st))"
  using assms by (cases x) (simp_all add: body_appends_None)

lemma body_appends_seq:
  assumes "body_appends g" "body_appends h"
  shows "body_appends (\<lambda>st. g st \<bind> h)"
proof -
  from assms obtain r q where r: "\<And>st. g st = map_option (\<lambda>d. extend d st) r"
    and q: "\<And>st. h st = map_option (\<lambda>d. extend d st) q"
    unfolding body_appends_iff by blast
  show ?thesis
  proof (cases r)
    case None
    then show ?thesis using r by (intro body_appendsI[where r = None]) simp
  next
    case (Some d)
    show ?thesis
    proof (cases q)
      case None
      then show ?thesis using r q Some by (intro body_appendsI[where r = None]) simp
    next
      case e: (Some e)
      show ?thesis using r q Some e
        by (intro body_appendsI[where r = "Some (fst d @ fst e, snd d @ snd e)"])
          (simp add: extend_extend)
    qed
  qed
qed

lemma body_appends_seq_fun:
  assumes "body_appends g" "\<And>u. body_appends (h u)"
  shows "body_appends (\<lambda>st. g st \<bind> (\<lambda>st1. x \<bind> (\<lambda>u. h u st1)))"
  using assms by (intro body_appends_seq) (auto intro: body_appends_bind_value)

lemma body_appends_Some_id: "body_appends (\<lambda>st. Some (F st)) \<Longrightarrow> body_appends (\<lambda>st. Some (F st))"
  by simp

lemmas body_appends_intros =
  body_appends_bind_value body_appends_Some_if body_appends_add_signal body_appends_add_point body_appends_Some
  body_appends_if body_appends_None

lemma body_appends_cross_signals: "body_appends (cross_signals df)"
  unfolding cross_signals_def Let_def by (intro body_appends_intros)

lemma body_appends_ma_alignment: "body_appends (ma_alignment df)"
  unfolding ma_alignment_def by (intro body_appends_intros)

lemma body_appends_cross_analysis: "body_appends (cross_analysis df)"
  unfolding cross_analysis_def
  by (intro body_appends_seq body_appends_cross_signals body_appends_ma_alignment)

lemma body_appends_fifty_two: "body_appends (fifty_two_week_analysis df)"
  unfolding fifty_two_week_analysis_def Let_def by (intro body_appends_intros)

lemma body_appends_macd: "body_appends (macd_analysis df)"
  unfolding macd_analysis_def by (intro body_appends_intros)

lemma body_appends_stochastic: "body_appends (stochastic_analysis df)"
  unfolding stochastic_analysis_def by (intro body_appends_intros)

lemma body_appends_bollinger: "body_appends (bollinger_bands_analysis df)"
  unfolding bollinger_bands_analysis_def by (intro body_appends_intros)

lemma body_appends_atr: "body_appends (atr_analysis df)"
  unfolding atr_analysis_def Let_def by (intro body_appends_intros)

lemma body_appends_volume_chart: "body_appends (volume_chart df)"
  unfolding volume_chart_def Let_def by (intro body_appends_intros)

lemma body_appends_vwap: "body_appends (vwap_analysis df)"
  unfolding vwap_analysis_def by (intro body_appends_intros)

lemma body_appends_obv: "body_appends (obv_analysis df)"
  unfolding obv_analysis_def Let_def by (intro body_appends_intros)

lemma body_appends_liquidity: "body_appends (liquidity_analysis df)"
  unfolding liquidity_analysis_def Let_def by (intro body_appends_intros)

subsection \<open>Methods that append\<close>

lemma extend_nothing: "extend ([], []) st = st"
  by (simp add: extend_def)

lemma appendsI: "(\<And>st. g st = (extend d st, ok)) \<Longrightarrow> appends g"
  unfolding appends_def by blast

lemma appends_guarded:
  assumes "body_appends g"
  shows "appends (guarded g)"
proof -
  from assms obtain r where r: "\<And>st. g st = map_option (\<lambda>d. extend d st) r"
    unfolding body_appends_iff by blast
  show ?thesis
  proof (cases r)
    case None
    then show ?thesis
      using r by (intro appendsI[where d = "([], [])" and ok = False])
        (simp add: guarded_def extend_nothing)
  next
    case (Some d)
    then show ?thesis
      using r by (intro appendsI[where d = d and ok = True]) (simp add: guarded_def)
  qed
qed

lemma appends_and_then:
  assumes "appends g" "appends h"
  shows "appends (and_then g h)"
proof -
  from assms obtain d ok e ok' where g: "\<And>st. g st = (extend d st, ok)"
    and h: "\<And>st. h st = (extend e st, ok')"
    unfolding appends_def by blast
  show ?thesis
  proof (cases ok)
    case True
    then show ?thesis
      using g h by (intro appendsI[where d = "(fst d @ fst e, snd d @ snd e)" and ok = ok'])
        (simp add: and_then_def extend_extend)
  next
    case False
    then show ?thesis
      using g by (intro appendsI[where d = d and ok = False]) (simp add: and_then_def)
  qed
qed

lemma appends_trend: "appends (trend_analysis df)"
  unfolding trend_analysis_def
  by (intro appends_guarded body_appends_bind_value body_appends_fifty_two)

lemma appends_moving: "appends (moving_averages_analysis df)"
  unfolding moving_averages_analysis_def
  by (intro appends_and_then appends_guarded body_appends_bind_value
      body_appends_cross_signals body_appends_ma_alignment)

text \<open>
  On a frame that has the columns of the chart, the moving-average tab returns
  with the state that \<open>_cross_analysis\<close> leaves whenever \<open>_cross_analysis\<close>
  returns.
\<close>

lemma moving_averages_cross:
  assumes "list_all (has_col df)
      [''Date'', ''Close'', ''SMA_20'', ''SMA_50'', ''SMA_200'', ''EMA_20'']"
    and "cross_analysis df st = Some st'"
  shows "moving_averages_analysis df st = (st', True)"
  using assms
  by (auto simp: moving_averages_analysis_def cross_analysis_def and_then_def guarded_def
      reads_def split: Option.bind_splits)

lemma appends_rsi: "appends (rsi_analysis df)"
  unfolding rsi_analysis_def
  by (intro appends_and_then appends_guarded body_appends_intros)

lemma appends_momentum: "appends (momentum_analysis df)"
  unfolding momentum_analysis_def
  by (intro appends_and_then appends_rsi appends_guarded body_appends_macd
      body_appends_stochastic)

lemma appends_volatility: "appends (volatility_analysis df)"
  unfolding volatility_analysis_def
  by (intro appends_and_then appends_guarded body_appends_bollinger body_appends_atr)

lemma appends_volume: "appends (\<lambda>st. snd (volume_analysis df st))"
proof (cases "with_volume_ma df")
  case None
  then show ?thesis
    by (intro appendsI[where d = "([], [])" and ok = False])
      (simp add: volume_analysis_def extend_nothing)
next
  case (Some df1)
  have "appends (and_then (guarded (volume_chart df1))
             (and_then (guarded (vwap_analysis df1))
                (and_then (guarded (obv_analysis df1)) (guarded (liquidity_analysis df1)))))"
    by (intro appends_and_then appends_guarded body_appends_volume_chart body_appends_vwap
        body_appends_obv body_appends_liquidity)
  then show ?thesis by (simp add: volume_analysis_def Some)
qed

lemma fst_volume_analysis:
  "fst (volume_analysis df st) = (case with_volume_ma df of None \<Rightarrow> df | Some df1 \<Rightarrow> df1)"
  by (simp add: volume_analysis_def split: option.splits)

lemma appends_summary:
  "appends (guarded (\<lambda>st. map_option (\<lambda>summary. st) (signals_and_summary df st)))"
proof -
  have "body_appends (\<lambda>st. map_option (\<lambda>summary. st) (signals_and_summary df st))"
    unfolding signals_and_summary_def
    by (cases "last_of df ''Close''"; cases "last_of df ''RSI''"; cases "last_of df ''MACD''";
        cases "last_of df ''MACD_Signal''"; cases "last_of df ''ATR''")
      (simp_all add: body_appends_Some body_appends_None)
  then show ?thesis by (rule appends_guarded)
qed

lemma appends_run_tabs: "appends (\<lambda>st. snd (run_tabs df st))"
proof -
  let ?four = "and_then (trend_analysis df)
             (and_then (moving_averages_analysis df)
                (and_then (momentum_analysis df) (volatility_analysis df)))"
  let ?df1 = "case with_volume_ma df of None \<Rightarrow> df | Some df1 \<Rightarrow> df1"
  have "appends ?four"
    by (intro appends_and_then appends_trend appends_moving appends_momentum
        appends_volatility)
  then obtain d ok where four: "\<And>st. ?four st = (extend d st, ok)"
    unfolding appends_def by blast
  obtain e ok' where vol: "\<And>st. snd (volume_analysis df st) = (extend e st, ok')"
    using appends_volume[of df] unfolding appends_def by blast
  have vol': "volume_analysis df st = (?df1, extend e st, ok')" for st
    using vol[of st] fst_volume_analysis[of df st] by (cases "volume_analysis df st") simp
  obtain f ok'' where
    sm: "\<And>st. guarded (\<lambda>st. map_option (\<lambda>summary. st) (signals_and_summary ?df1 st)) st
          = (extend f st, ok'')"
    using appends_summary[of ?df1] unfolding appends_def by blast
  show ?thesis
  proof (cases ok)
    case False
    then show ?thesis
      using four by (intro appendsI[where d = d and ok = False]) (simp add: run_tabs_def)
  next
    case True
    show ?thesis
    proof (cases ok')
      case False
      then show ?thesis
        using four vol' True
        by (intro appendsI[where d = "(fst d @ fst e, snd d @ snd e)" and ok = False])
          (simp add: run_tabs_def extend_extend)
    next
      case t: True
      show ?thesis
        using four vol' sm True t
        by (intro appendsI[where d = "(fst (fst d @ fst e, snd d @ snd e) @ fst f,
              snd (fst d @ fst e, snd d @ snd e) @ snd f)" and ok = ok''])
          (simp add: run_tabs_def extend_extend)
    qed
  qed
qed

subsection \<open>The frame with indicators as a value\<close>

lemma run_exec:
  assumes "a < length s" "df < length s" "df \<noteq> a" "run_statements df a stmts s = (s', ok)"
  shows "exec_statements (s ! df) stmts (s ! a) = (s' ! a, ok) \<and> s' ! df = s ! df
    \<and> length s' = length s"
  using assms
proof (induction stmts arbitrary: s)
  case Nil
  then show ?case by simp
next
  case (Cons f fs)
  show ?case
  proof (cases "f (s ! df) (s ! a)")
    case None
    with Cons.prems show ?thesis by simp
  next
    case (Some v)
    let ?s1 = "s[a := v]"
    have run: "run_statements df a fs ?s1 = (s', ok)" using Cons.prems(4) Some by simp
    have "exec_statements (?s1 ! df) fs (?s1 ! a) = (s' ! a, ok) \<and> s' ! df = ?s1 ! df
      \<and> length s' = length ?s1"
      using Cons.prems(1,2,3) by (intro Cons.IH[OF _ _ _ run]) simp_all
    then show ?thesis using Cons.prems(1,2,3) Some by simp
  qed
qed

lemma calculate_all_indicators_value:
  assumes "df < length s" "calculate_all_indicators lib s df = (s', r)"
  shows "s' ! r = indicator_frame lib (s ! df) \<and> s' ! df = s ! df \<and> length s' = Suc (length s)
    \<and> (r = df \<or> r = length s) \<and> (r = df \<longrightarrow> indicator_frame lib (s ! df) = s ! df)"
proof -
  let ?s0 = "s @ [s ! df]"
  obtain s1 ok where run:
    "run_statements df (length s) (indicator_statements lib) ?s0 = (s1, ok)"
    by (cases "run_statements df (length s) (indicator_statements lib) ?s0")
  have "exec_statements (?s0 ! df) (indicator_statements lib) (?s0 ! length s) = (s1 ! length s, ok)
    \<and> s1 ! df = ?s0 ! df \<and> length s1 = length ?s0"
    using assms(1) by (intro run_exec[OF _ _ _ run]) simp_all
  then have e: "exec_statements (s ! df) (indicator_statements lib) (s ! df) = (s1 ! length s, ok)"
    and d: "s1 ! df = s ! df" and l: "length s1 = Suc (length s)"
    using assms(1) by (simp_all add: nth_append)
  have s': "s' = s1" and r: "r = (if ok then length s else df)"
    using assms(2) by (simp_all add: calculate_all_indicators_def run)
  show ?thesis
    using e d l assms(1) by (cases ok) (simp_all add: s' r indicator_frame_def)
qed

lemma appends_instance_after: "appends (instance_after lib f)"
proof -
  have n: "appends (\<lambda>st. (st, True))"
    by (intro appendsI[where d = "([], [])" and ok = True]) (simp add: extend_nothing)
  let ?missing = "filter (\<lambda>col. \<not> has_col f col)
                [''Date'', ''Open'', ''High'', ''Low'', ''Close'', ''Volume'']"
  show ?thesis
  proof (cases "(f = [] \<or> nrows f = 0) \<or> ?missing \<noteq> []")
    case True
    then have "instance_after lib f = (\<lambda>st. (st, True))"
      by (auto simp: instance_after_def fun_eq_iff)
    then show ?thesis by (simp only: n)
  next
    case False
    then have "instance_after lib f = (\<lambda>st. snd (run_tabs (indicator_frame lib f) st))"
      by (auto simp: instance_after_def fun_eq_iff)
    then show ?thesis by (simp only: appends_run_tabs)
  qed
qed

lemma analyze_stock_instance:
  assumes "df < length s"
  shows "snd (analyze_stock lib s df st) = instance_after lib (s ! df) st"
proof -
  obtain s1 r where c: "calculate_all_indicators lib s df = (s1, r)"
    by (cases "calculate_all_indicators lib s df")
  from calculate_all_indicators_value[OF assms c]
  have v: "s1 ! r = indicator_frame lib (s ! df)" by simp
  show ?thesis
    by (simp add: analyze_stock_def instance_after_def c v split: prod.splits)
qed

lemma analyze_stock_store:
  assumes "df < length s"
  shows "length s \<le> length (fst (analyze_stock lib s df st))"
proof -
  obtain s' r where c: "calculate_all_indicators lib s df = (s', r)"
    by (cases "calculate_all_indicators lib s df")
  from calculate_all_indicators_value[OF assms(1) c] have "length s' = Suc (length s)" by simp
  then show ?thesis
    by (simp add: analyze_stock_def c split: prod.splits)
qed

text \<open>
  On a frame without the column \<open>SMA_20\<close> the moving-average tab raises at its
  chart, so the volume tab is not reached and the frame stays as it is.
\<close>

lemma run_tabs_without_indicators:
  assumes "\<not> has_col f ''SMA_20''"
  shows "fst (run_tabs f st) = f \<and> \<not> snd (snd (run_tabs f st))"
proof -
  have m: "moving_averages_analysis f st' = (st', False)" for st'
    using assms by (simp add: moving_averages_analysis_def and_then_def guarded_def reads_def)
  obtain st4 where "and_then (trend_analysis f)
             (and_then (moving_averages_analysis f)
                (and_then (momentum_analysis f) (volatility_analysis f))) st = (st4, False)"
    by (cases "trend_analysis f st") (simp add: and_then_def m)
  then show ?thesis by (simp add: run_tabs_def)
qed

lemma analyze_stock_keeps_input:
  assumes "df < length s" "\<not> has_col (s ! df) ''SMA_20''"
  shows "fst (analyze_stock lib s df st) ! df = s ! df"
proof -
  obtain s1 r where c: "calculate_all_indicators lib s df = (s1, r)"
    by (cases "calculate_all_indicators lib s df")
  from calculate_all_indicators_value[OF assms(1) c]
  have v: "s1 ! r = indicator_frame lib (s ! df)" and d: "s1 ! df = s ! df"
    and l: "length s1 = Suc (length s)" and r: "r = df \<or> r = length s"
    and i: "r = df \<longrightarrow> indicator_frame lib (s ! df) = s ! df"
    by simp_all
  show ?thesis
  proof (cases "r = df")
    case True
    then have "s1 ! r = s ! df" using v i by simp
    then have "fst (run_tabs (s1 ! r) st) = s ! df"
      using run_tabs_without_indicators[OF assms(2), of st] by simp
    then show ?thesis
      using d True assms(1) l by (auto simp: analyze_stock_def c split: prod.splits)
  next
    case False
    then show ?thesis
      using d assms(1) l by (auto simp: analyze_stock_def c split: prod.splits)
  qed
qed

lemma count_twice:
  "length (buy_signals (xs @ xs)) = 2 * length (buy_signals xs)"
  "length (sell_signals (xs @ xs)) = 2 * length (sell_signals xs)"
  by (simp_all add: buy_signals_def sell_signals_def)

lemma overall_twice: "overall_signal (xs @ xs) = overall_signal xs"
  by (simp add: overall_signal_def count_twice)


subsection \<open>Runs on the example series\<close>

lemmas analysis_defs =
  analyze_stock_def calculate_all_indicators_def indicator_statements_def assign_def
  on_close_def getcol_def has_col_def set_col_def nrows_def run_tabs_def trend_analysis_def
  fifty_two_week_analysis_def moving_averages_analysis_def
  cross_signals_def ma_alignment_def momentum_analysis_def rsi_analysis_def macd_analysis_def
  stochastic_analysis_def volatility_analysis_def bollinger_bands_analysis_def
  atr_analysis_def with_volume_ma_def volume_analysis_def volume_chart_def vwap_analysis_def
  obv_analysis_def liquidity_analysis_def signals_and_summary_def reads_def last_of_def
  earlier_of_def iloc_def tail_def series_max_def series_min_def fgt_def fge_def
  add_signal_def add_point_def init_def guarded_def and_then_def instance_after_def
  indicator_frame_def extend_def

text \<open>
  On the sixteen bars every indicator is computed and every tab returns. The
  RSI of 100 and the stochastic oscillator at \<open>14 / 15 * 100\<close> in its last three
  rows give the two signals of a run.
\<close>

lemma rising_run:
  "instance_after rising_lib rising_series st =
     (extend ([''SELL - RSI Overbought'', ''SELL - Stochastic Overbought''],
        [''Near 52-week high, potential breakout'', ''RSI indicates overbought condition'',
         ''Price trading above VWAP'', ''OBV confirms bullish price momentum'']) st, True)"
  by (simp add: analysis_defs indicator_defs rising_lib_def rising_series_def)

lemma rising_series_plain: "\<not> has_col rising_series ''SMA_20''"
  by (simp add: has_col_def rising_series_def)

text \<open>
  On the two bars the ATR of the library raises, \<open>_calculate_all_indicators\<close>
  returns the series without indicator columns, and the moving-average tab
  raises at its chart: the call does not return, no signal has been appended,
  and the instance keeps the summary point of the trend tab.
\<close>

lemma short_run:
  "instance_after warmup_lib two_bars st =
     (extend ([], [''Near 52-week high, potential breakout'']) st, False)"
  by (simp add: analysis_defs indicator_defs warmup_lib_def two_bars_def)

subsection \<open>Two runs in succession\<close>

text \<open>
  Claim C9, as the code has it. The lists of the instance are never reset: a
  run of \<open>analyze_stock\<close> appends to them, and what it appends, and whether it
  returns or raises, depends on the series and not on what the lists hold. So
  two runs in succession on the same series with the same instance append the
  same signals twice; when the instance was fresh before the first run, the
  signal list after the second run is the list after the first run repeated,
  the counts of BUY and SELL signals are doubled, and the Recommendation is the
  same. A run on a fresh instance, as the application makes one for every
  analysis, gives the signals of the first run.
\<close>

theorem repeated_analysis:
  assumes df: "df < length s"
    and run1: "analyze_stock lib s df st0 = (s1, st1, ok1)"
    and same: "s1 ! df = s ! df"
    and run2: "analyze_stock lib s1 df st1 = (s2, st2, ok2)"
  shows "\<exists>new. signals st1 = signals st0 @ new \<and> signals st2 = signals st1 @ new
      \<and> ok2 = ok1
      \<and> (signals st0 = [] \<longrightarrow>
            signals st2 = signals st1 @ signals st1
            \<and> length (buy_signals (signals st2)) = 2 * length (buy_signals (signals st1))
            \<and> length (sell_signals (signals st2)) = 2 * length (sell_signals (signals st1))
            \<and> overall_signal (signals st2) = overall_signal (signals st1))
      \<and> (\<forall>s3 st3 ok3. analyze_stock lib s1 df init = (s3, st3, ok3) \<longrightarrow>
            signals st3 = new \<and> ok3 = ok1)"
proof -
  let ?f = "s ! df"
  have df1: "df < length s1"
    using analyze_stock_store[OF df, of lib st0] df by (simp add: run1)
  obtain d ok where r: "\<And>st. instance_after lib ?f st = (extend d st, ok)"
    using appends_instance_after[of lib ?f] unfolding appends_def by blast
  have i1: "(st1, ok1) = (extend d st0, ok)"
    using analyze_stock_instance[OF df, of lib st0] by (simp add: run1 r)
  have i2: "(st2, ok2) = (extend d st1, ok)"
    using analyze_stock_instance[OF df1, of lib st1] by (simp add: run2 same r)
  have a: "signals st1 = signals st0 @ fst d" using i1 by (simp add: extend_def)
  have b: "signals st2 = signals st1 @ fst d" using i2 by (simp add: extend_def)
  have k: "ok2 = ok1" using i1 i2 by simp
  have c: "signals st3 = fst d \<and> ok3 = ok1"
    if "analyze_stock lib s1 df init = (s3, st3, ok3)" for s3 st3 ok3
  proof -
    have "(st3, ok3) = (extend d init, ok)"
      using analyze_stock_instance[OF df1, of lib init] by (simp add: that same r)
    then show ?thesis using i1 by (simp add: extend_def init_def)
  qed
  have e: "signals st2 = signals st1 @ signals st1
            \<and> length (buy_signals (signals st2)) = 2 * length (buy_signals (signals st1))
            \<and> length (sell_signals (signals st2)) = 2 * length (sell_signals (signals st1))
            \<and> overall_signal (signals st2) = overall_signal (signals st1)"
    if "signals st0 = []"
    using a b that by (simp add: count_twice overall_twice)
  from a b c e k show ?thesis by blast
qed

text \<open>
  Two runs on the sixteen bars with one instance, fresh before the first: the
  Recommendation of the second run is that of the first, and its signal list is
  the list of the first run twice.
\<close>

theorem repeated_analysis_witness:
  "(case analyze_stock rising_lib [rising_series] 0 init of
      (s1, st1, ok1) \<Rightarrow>
        (case analyze_stock rising_lib s1 0 st1 of
           (s2, st2, ok2) \<Rightarrow>
             signals st2 = signals st1 @ signals st1
             \<and> overall_signal (signals st2) = overall_signal (signals st1)
             \<and> ok2 = ok1))"
proof -
  obtain s1 st1 ok1 where
    run1: "analyze_stock rising_lib [rising_series] 0 init = (s1, st1, ok1)"
    by (cases "analyze_stock rising_lib [rising_series] 0 init")
  obtain s2 st2 ok2 where run2: "analyze_stock rising_lib s1 0 st1 = (s2, st2, ok2)"
    by (cases "analyze_stock rising_lib s1 0 st1")
  have df: "(0::nat) < length [rising_series]" by simp
  have same: "s1 ! 0 = [rising_series] ! 0"
    using analyze_stock_keeps_input[OF df, of rising_lib init] rising_series_plain
    by (simp add: run1)
  have fresh: "signals init = []" by (simp add: init_def)
  from repeated_analysis[OF df run1 same run2] fresh
  have "signals st2 = signals st1 @ signals st1
      \<and> overall_signal (signals st2) = overall_signal (signals st1) \<and> ok2 = ok1"
    by blast
  then show ?thesis by (simp add: run1 run2 overall_twice)
qed

text \<open>
  The claim as the specification states it fails: on the sixteen bars both runs
  return, the first leaves two signals in the list of the instance, and after
  the second run the list holds each of them twice, so the count of SELL
  signals is 4 where it was 2.
\<close>

theorem repeated_analysis_counterexample:
  "(case analyze_stock rising_lib [rising_series] 0 init of
      (s1, st1, ok1) \<Rightarrow>
        ok1 \<and> signals st1 = [''SELL - RSI Overbought'', ''SELL - Stochastic Overbought'']
        \<and> length (sell_signals (signals st1)) = 2
        \<and> (case analyze_stock rising_lib s1 0 st1 of
              (s2, st2, ok2) \<Rightarrow>
                ok2
                \<and> signals st2
                  = [''SELL - RSI Overbought'', ''SELL - Stochastic Overbought'',
                     ''SELL - RSI Overbought'', ''SELL - Stochastic Overbought'']
                \<and> length (sell_signals (signals st2)) = 4))"
proof -
  obtain s1 st1 ok1 where
    run1: "analyze_stock rising_lib [rising_series] 0 init = (s1, st1, ok1)"
    by (cases "analyze_stock rising_lib [rising_series] 0 init")
  obtain s2 st2 ok2 where run2: "analyze_stock rising_lib s1 0 st1 = (s2, st2, ok2)"
    by (cases "analyze_stock rising_lib s1 0 st1")
  have df: "(0::nat) < length [rising_series]" by simp
  have same: "s1 ! 0 = rising_series"
    using analyze_stock_keeps_input[OF df, of rising_lib init] rising_series_plain
    by (simp add: run1)
  have df1: "0 < length s1"
    using analyze_stock_store[OF df, of rising_lib init] by (cases s1) (simp_all add: run1)
  have a: "(st1, ok1) = instance_after rising_lib rising_series init"
    using analyze_stock_instance[OF df, of rising_lib init] by (simp add: run1)
  have b: "(st2, ok2) = instance_after rising_lib rising_series st1"
    using analyze_stock_instance[OF df1, of rising_lib st1] by (simp add: run2 same)
  from a have 1: "ok1" "signals st1 = [''SELL - RSI Overbought'', ''SELL - Stochastic Overbought'']"
    by (simp_all add: rising_run extend_def init_def)
  from b 1 have 2: "ok2" "signals st2
                  = [''SELL - RSI Overbought'', ''SELL - Stochastic Overbought'',
                     ''SELL - RSI Overbought'', ''SELL - Stochastic Overbought'']"
    by (simp_all add: rising_run extend_def)
  show ?thesis
    by (simp add: run1 run2 1 2 sell_signals_def startswith_def)
qed


end
